(* ===== verification/Emu_Prelude.thy ===== *)
theory Emu_Prelude
  imports Main "HOL-Library.Word" "HOL-Library.Sublist" "HOL-Library.Monad_Syntax"
begin

text \<open>
  The prelude of the library: the machine types of the sources, C strings and the few
  \<open>string.h\<close> functions the sources call, the shape of a C \<open>switch\<close> that returns one
  constant per label, and the shape of a chain \<open>if (f & A) out |= B\<close> that translates
  flag words. Two locales state what such translations promise (\<open>switch_codec\<close>,
  \<open>flag_codec\<close>); the component theories interpret them on their own tables.
\<close>

unbundle bit_operations_syntax

section \<open>Types and automation\<close>

type_synonym u8 = "8 word"
type_synonym u16 = "16 word"
type_synonym u32 = "32 word"
type_synonym u64 = "64 word"

named_theorems emu_consts \<open>constants of the two system interfaces\<close>
named_theorems emu_defs \<open>definitions of the operations of a component\<close>

lemma unat_less: "unat (w :: 'a::len word) < 2 ^ LENGTH('a)"
  by (rule unsigned_less)

section \<open>C strings\<close>

text \<open>A C string is the list of its characters before the terminating NUL.\<close>

abbreviation (input) NUL :: char where "NUL \<equiv> CHR 0x00"

definition cstr :: "string \<Rightarrow> string" where
  "cstr s = takeWhile (\<lambda>c. c \<noteq> NUL) s"

definition is_cstr :: "string \<Rightarrow> bool" where
  "is_cstr s \<longleftrightarrow> NUL \<notin> set s"

text \<open>\<open>strncmp(a, b, n) == 0\<close> on strings without NUL.\<close>

definition strncmp_eq :: "string \<Rightarrow> string \<Rightarrow> nat \<Rightarrow> bool" where
  "strncmp_eq a b n \<longleftrightarrow> take n a = take n b"

text \<open>\<open>tolower\<close> in the C locale, and \<open>strcasecmp(a, b) == 0\<close>.\<close>

definition tolower_c :: "char \<Rightarrow> char" where
  "tolower_c c = (let n = of_char c :: nat in if 65 \<le> n \<and> n \<le> 90 then char_of (n + 32) else c)"

definition strcasecmp_eq :: "string \<Rightarrow> string \<Rightarrow> bool" where
  "strcasecmp_eq a b \<longleftrightarrow> map tolower_c a = map tolower_c b"

definition strncasecmp_eq :: "string \<Rightarrow> string \<Rightarrow> nat \<Rightarrow> bool" where
  "strncasecmp_eq a b n \<longleftrightarrow> map tolower_c (take n a) = map tolower_c (take n b)"

lemma cstr_is_cstr [simp]: "is_cstr (cstr s)"
  by (auto simp: cstr_def is_cstr_def dest: set_takeWhileD)

lemma cstr_id [simp]: "is_cstr s \<Longrightarrow> cstr s = s"
  by (auto simp: cstr_def is_cstr_def takeWhile_eq_all_conv)

lemma is_cstr_Nil [simp]: "is_cstr []"
  by (simp add: is_cstr_def)

lemma is_cstr_Cons [simp]: "is_cstr (c # s) \<longleftrightarrow> c \<noteq> NUL \<and> is_cstr s"
  by (auto simp: is_cstr_def)

lemma is_cstr_append [simp]: "is_cstr (s @ t) \<longleftrightarrow> is_cstr s \<and> is_cstr t"
  by (auto simp: is_cstr_def)

lemma is_cstr_take [simp]: "is_cstr s \<Longrightarrow> is_cstr (take n s)"
  by (auto simp: is_cstr_def dest: in_set_takeD)

lemma is_cstr_drop [simp]: "is_cstr s \<Longrightarrow> is_cstr (drop n s)"
  by (auto simp: is_cstr_def dest: in_set_dropD)

lemma length_cstr_le: "length (cstr s) \<le> length s"
  by (simp add: cstr_def length_takeWhile_le)

lemma strcasecmp_eq_length: "strcasecmp_eq a b \<Longrightarrow> length a = length b"
  by (metis strcasecmp_eq_def length_map)

lemma strcasecmp_eq_refl [simp]: "strcasecmp_eq a a"
  by (simp add: strcasecmp_eq_def)

lemma strncmp_eq_prefix: "length b = n \<Longrightarrow> n \<le> length a \<Longrightarrow> strncmp_eq a b n \<longleftrightarrow> prefix b a"
  unfolding strncmp_eq_def prefix_def
proof
  assume "length b = n" "n \<le> length a" "take n a = take n b"
  then have "a = b @ drop n a" by (metis append_take_drop_id take_all_iff order_refl)
  then show "\<exists>zs. a = b @ zs" ..
qed auto

section \<open>Switch statements\<close>

text \<open>
  \<^verbatim>\<open>switch (x) { case K1: return V1; ... default: return D; }\<close> is the lookup of
  \<open>x\<close> in the table of its labels.
\<close>

definition switch :: "('a \<times> 'b) list \<Rightarrow> 'b \<Rightarrow> 'a \<Rightarrow> 'b" where
  "switch tab d x = (case map_of tab x of None \<Rightarrow> d | Some y \<Rightarrow> y)"

lemma switch_Nil [simp]: "switch [] d x = d"
  by (simp add: switch_def)

lemma switch_Cons [simp]: "switch ((k, v) # tab) d x = (if x = k then v else switch tab d x)"
  by (simp add: switch_def)

lemma switch_range: "switch tab d x \<in> insert d (snd ` set tab)"
  by (auto simp: switch_def dest: map_of_SomeD intro: rev_image_eqI split: option.splits)

lemma switch_member: "(x, y) \<in> set tab \<Longrightarrow> distinct (map fst tab) \<Longrightarrow> switch tab d x = y"
  by (simp add: switch_def)

lemma switch_default: "x \<notin> fst ` set tab \<Longrightarrow> switch tab d x = d"
  by (induction tab) auto

lemma switch_neq_default_member:
  "switch tab d x \<noteq> d \<Longrightarrow> (x, switch tab d x) \<in> set tab"
  by (induction tab) (auto split: if_splits)

text \<open>
  Two switches built from one table, read in the two directions, promise to be inverse on
  the labels, provided no label and no result occurs twice.
\<close>

locale switch_codec =
  fixes tab :: "('a \<times> 'b) list"
  assumes labels_distinct: "distinct (map fst tab)"
    and results_distinct: "distinct (map snd tab)"
begin

lemma backward_distinct: "distinct (map fst (map prod.swap tab))"
  using results_distinct by (simp add: comp_def)

lemma forward_backward:
  assumes "x \<in> fst ` set tab"
  shows "switch (map prod.swap tab) e (switch tab d x) = x"
proof -
  from assms obtain y where y: "(x, y) \<in> set tab" by auto
  then have "switch tab d x = y" using labels_distinct by (rule switch_member)
  moreover have "(y, x) \<in> set (map prod.swap tab)" using y by force
  ultimately show ?thesis using backward_distinct by (metis switch_member)
qed

lemma backward_forward:
  assumes "y \<in> snd ` set tab"
  shows "switch tab d (switch (map prod.swap tab) e y) = y"
proof -
  from assms obtain x where x: "(x, y) \<in> set tab" by auto
  then have "(y, x) \<in> set (map prod.swap tab)" by force
  then have "switch (map prod.swap tab) e y = x" using backward_distinct by (rule switch_member)
  then show ?thesis using x labels_distinct by (simp add: switch_member)
qed

lemma forward_inj:
  assumes "x \<in> fst ` set tab" "x' \<in> fst ` set tab" "switch tab d x = switch tab d x'"
  shows "x = x'"
  using assms forward_backward by metis

end

section \<open>Flag words\<close>

text \<open>
  \<^verbatim>\<open>if (f & S1) out |= D1; if (f & S2) out |= D2; ...\<close>, from a table of masks.
\<close>

fun xlat :: "('a::len word \<times> 'b::len word) list \<Rightarrow> 'a word \<Rightarrow> 'b word \<Rightarrow> 'b word" where
  "xlat [] f out = out"
| "xlat ((s, d) # tab) f out = xlat tab f (if f AND s \<noteq> 0 then out OR d else out)"

definition single_bit :: "'a::len word \<Rightarrow> bool" where
  "single_bit s \<longleftrightarrow> s \<in> set (map (\<lambda>n. push_bit n 1) [0..<LENGTH('a)])"

fun or_all :: "'a::len word list \<Rightarrow> 'a word" where
  "or_all [] = 0"
| "or_all (m # ms) = m OR or_all ms"

lemma bit_xlat:
  "bit (xlat tab f out) n \<longleftrightarrow> bit out n \<or> (\<exists>(s, d) \<in> set tab. f AND s \<noteq> 0 \<and> bit d n)"
  by (induction tab f out rule: xlat.induct) (auto simp: bit_or_iff)

lemma xlat_out: "xlat tab f out = out OR xlat tab f 0"
  by (rule bit_eqI) (auto simp: bit_xlat bit_or_iff)

lemma xlat_or: "xlat tab (f OR g) out = xlat tab f out OR xlat tab g 0"
proof (rule bit_eqI)
  fix n
  have "(f OR g) AND s \<noteq> 0 \<longleftrightarrow> f AND s \<noteq> 0 \<or> g AND s \<noteq> 0" for s
    by (auto simp: bit_eq_iff bit_and_iff bit_or_iff)
  then show "bit (xlat tab (f OR g) out) n \<longleftrightarrow> bit (xlat tab f out OR xlat tab g 0) n"
    by (auto simp: bit_xlat bit_or_iff)
qed

text \<open>One entry of a table, as a term: tables with the same entries in any order agree.\<close>

definition pick :: "'a::len word \<Rightarrow> 'a word \<Rightarrow> 'b::len word \<Rightarrow> 'b word" where
  "pick f s d = (if f AND s \<noteq> 0 then d else 0)"

lemma xlat_pick: "xlat ((s, d) # tab) f out = xlat tab f (out OR pick f s d)"
  by (simp add: pick_def)

lemma pick_simps:
  "pick f 0 d = 0" "pick f s 0 = 0"
  "pick f s (d OR d') = pick f s d OR pick f s d'"
  by (simp_all add: pick_def)

lemma pick_or: "pick f (s OR s') d = pick f s d OR pick f s' d"
proof -
  have "f AND (s OR s') \<noteq> 0 \<longleftrightarrow> f AND s \<noteq> 0 \<or> f AND s' \<noteq> 0"
    by (auto simp: bit_eq_iff bit_and_iff bit_or_iff)
  then show ?thesis by (auto simp: pick_def)
qed

lemmas or_ac = or.assoc or.commute or.left_commute

lemma xlat_ignore:
  assumes "list_all (\<lambda>(s, d). g AND s = 0) tab"
  shows "xlat tab (f OR g) out = xlat tab f out"
proof -
  have "(f OR g) AND s = f AND s" if "g AND s = 0" for s
    using that by (simp add: bit.conj_disj_distrib2)
  then show ?thesis using assms by (induction tab arbitrary: out) auto
qed

lemma bit_or_all: "bit (or_all ms) n \<longleftrightarrow> (\<exists>m \<in> set ms. bit m n)"
  by (induction ms) (auto simp: bit_or_iff)

lemma single_bit_iff: "single_bit (s :: 'a::len word) \<longleftrightarrow> (\<exists>k < LENGTH('a). s = push_bit k 1)"
  by (auto simp: single_bit_def)

lemma single_bit_push: "k < LENGTH('a::len) \<Longrightarrow> single_bit (push_bit k 1 :: 'a word)"
  by (auto simp: single_bit_iff)

lemma single_bits:
  "single_bit (1 :: u32)" "single_bit (0x2 :: u32)" "single_bit (0x4 :: u32)" "single_bit (0x8 :: u32)"
  "single_bit (0x10 :: u32)" "single_bit (0x20 :: u32)" "single_bit (0x40 :: u32)" "single_bit (0x80 :: u32)"
  "single_bit (0x100 :: u32)" "single_bit (0x200 :: u32)" "single_bit (0x400 :: u32)" "single_bit (0x800 :: u32)"
  "single_bit (0x1000 :: u32)" "single_bit (0x2000 :: u32)" "single_bit (0x4000 :: u32)" "single_bit (0x8000 :: u32)"
  "single_bit (0x10000 :: u32)" "single_bit (0x20000 :: u32)" "single_bit (0x40000 :: u32)" "single_bit (0x80000 :: u32)"
  "single_bit (0x100000 :: u32)" "single_bit (0x200000 :: u32)" "single_bit (0x400000 :: u32)" "single_bit (0x800000 :: u32)"
  "single_bit (0x1000000 :: u32)" "single_bit (0x2000000 :: u32)" "single_bit (0x4000000 :: u32)" "single_bit (0x8000000 :: u32)"
  "single_bit (0x10000000 :: u32)" "single_bit (0x20000000 :: u32)" "single_bit (0x40000000 :: u32)" "single_bit (0x80000000 :: u32)"
  using single_bit_push [of 0, where 'a = 32] single_bit_push [of 1, where 'a = 32] single_bit_push [of 2, where 'a = 32]
    single_bit_push [of 3, where 'a = 32] single_bit_push [of 4, where 'a = 32] single_bit_push [of 5, where 'a = 32]
    single_bit_push [of 6, where 'a = 32] single_bit_push [of 7, where 'a = 32] single_bit_push [of 8, where 'a = 32]
    single_bit_push [of 9, where 'a = 32] single_bit_push [of 10, where 'a = 32] single_bit_push [of 11, where 'a = 32]
    single_bit_push [of 12, where 'a = 32] single_bit_push [of 13, where 'a = 32] single_bit_push [of 14, where 'a = 32]
    single_bit_push [of 15, where 'a = 32] single_bit_push [of 16, where 'a = 32] single_bit_push [of 17, where 'a = 32]
    single_bit_push [of 18, where 'a = 32] single_bit_push [of 19, where 'a = 32] single_bit_push [of 20, where 'a = 32]
    single_bit_push [of 21, where 'a = 32] single_bit_push [of 22, where 'a = 32] single_bit_push [of 23, where 'a = 32]
    single_bit_push [of 24, where 'a = 32] single_bit_push [of 25, where 'a = 32] single_bit_push [of 26, where 'a = 32]
    single_bit_push [of 27, where 'a = 32] single_bit_push [of 28, where 'a = 32] single_bit_push [of 29, where 'a = 32]
    single_bit_push [of 30, where 'a = 32] single_bit_push [of 31, where 'a = 32]
  by simp_all

lemma single_bits64:
  "single_bit (1 :: u64)" "single_bit (0x2 :: u64)" "single_bit (0x4 :: u64)" "single_bit (0x8 :: u64)"
  "single_bit (0x10 :: u64)" "single_bit (0x20 :: u64)" "single_bit (0x40 :: u64)" "single_bit (0x80 :: u64)"
  "single_bit (0x100 :: u64)" "single_bit (0x200 :: u64)" "single_bit (0x400 :: u64)" "single_bit (0x800 :: u64)"
  "single_bit (0x1000 :: u64)" "single_bit (0x2000 :: u64)" "single_bit (0x4000 :: u64)" "single_bit (0x8000 :: u64)"
  "single_bit (0x400000 :: u64)" "single_bit (0x800000 :: u64)" "single_bit (0x20000000 :: u64)" "single_bit (0x80000000 :: u64)"
  using single_bit_push [of 0, where 'a = 64] single_bit_push [of 1, where 'a = 64] single_bit_push [of 2, where 'a = 64]
    single_bit_push [of 3, where 'a = 64] single_bit_push [of 4, where 'a = 64] single_bit_push [of 5, where 'a = 64]
    single_bit_push [of 6, where 'a = 64] single_bit_push [of 7, where 'a = 64] single_bit_push [of 8, where 'a = 64]
    single_bit_push [of 9, where 'a = 64] single_bit_push [of 10, where 'a = 64] single_bit_push [of 11, where 'a = 64]
    single_bit_push [of 12, where 'a = 64] single_bit_push [of 13, where 'a = 64] single_bit_push [of 14, where 'a = 64]
    single_bit_push [of 15, where 'a = 64] single_bit_push [of 22, where 'a = 64] single_bit_push [of 23, where 'a = 64]
    single_bit_push [of 29, where 'a = 64] single_bit_push [of 31, where 'a = 64]
  by simp_all

lemma single_bitE:
  assumes "single_bit (s :: 'a::len word)"
  obtains k where "k < LENGTH('a)" "\<And>n. bit s n \<longleftrightarrow> n = k"
proof -
  from assms obtain k where "k < LENGTH('a)" "s = push_bit k 1" by (auto simp: single_bit_iff)
  then show ?thesis by (intro that [of k]) (auto simp: bit_exp_iff)
qed

lemma and_neq_0_iff: "(f :: 'a::len word) AND s \<noteq> 0 \<longleftrightarrow> (\<exists>n. bit f n \<and> bit s n)"
  by (auto simp: bit_eq_iff bit_and_iff dest: bit_imp_le_length)

lemma and_push_bit_1: "(w :: 'a::len word) AND push_bit i 1 \<noteq> 0 \<longleftrightarrow> bit w i"
proof -
  have "bit (push_bit i 1 :: 'a word) n \<longleftrightarrow> n = i \<and> n < LENGTH('a)" for n
    by (auto simp: bit_exp_iff)
  then show ?thesis by (auto simp: and_neq_0_iff dest: bit_imp_le_length)
qed

lemma neq_0_bitE:
  assumes "(d :: 'a::len word) \<noteq> 0"
  obtains m where "bit d m"
  using assms by (auto simp: bit_eq_iff)

lemma and_single_bit:
  assumes "single_bit (s :: 'a::len word)" "bit s n"
  shows "f AND s \<noteq> 0 \<longleftrightarrow> bit f n"
  using assms by (auto simp: and_neq_0_iff elim: single_bitE)

text \<open>
  A table whose sources are different single bits and whose results are disjoint and not 0
  loses nothing but the bits it does not list.
\<close>

locale flag_codec =
  fixes tab :: "('a::len word \<times> 'b::len word) list"
  assumes src_single: "list_all single_bit (map fst tab)"
    and dst_nonzero: "list_all (\<lambda>d. d \<noteq> 0) (map snd tab)"
    and dst_disjoint: "sorted_wrt (\<lambda>c d. c AND d = 0) (map snd tab)"
    and src_distinct: "distinct (map fst tab)"
begin

lemma dst_overlap:
  assumes "(s, d) \<in> set tab" "(s', d') \<in> set tab" "bit d n" "bit d' n"
  shows "s = s' \<and> d = d'"
proof -
  have no: "c AND e = 0 \<Longrightarrow> bit c n \<Longrightarrow> bit e n \<Longrightarrow> False" for c e :: "'b word"
    using and_neq_0_iff by blast
  obtain i where i: "i < length tab" "tab ! i = (s, d)" using assms(1) by (metis in_set_conv_nth)
  obtain j where j: "j < length tab" "tab ! j = (s', d')" using assms(2) by (metis in_set_conv_nth)
  have "\<not> i < j" and "\<not> j < i"
    using dst_disjoint i j assms(3,4) no
    by (fastforce simp: sorted_wrt_iff_nth_less)+
  then have "i = j" by simp
  then show ?thesis using i j by simp
qed

lemma preserved:
  assumes "(s, d) \<in> set tab"
  shows "(xlat tab f 0 AND d \<noteq> 0) = (f AND s \<noteq> 0)"
proof -
  have "d \<noteq> 0" using dst_nonzero assms by (auto simp: list_all_iff)
  then obtain m where "bit d m" by (rule neq_0_bitE)
  then show ?thesis using assms dst_overlap
    by (auto simp: and_neq_0_iff bit_xlat split: prod.splits) metis+
qed

lemma roundtrip: "xlat (map prod.swap tab) (xlat tab f 0) 0 = f AND or_all (map fst tab)"
proof (rule bit_eqI)
  fix n
  have "bit (xlat (map prod.swap tab) (xlat tab f 0) 0) n \<longleftrightarrow>
      (\<exists>(s, d) \<in> set tab. f AND s \<noteq> 0 \<and> bit s n)"
    using preserved by (force simp: bit_xlat)
  also have "\<dots> \<longleftrightarrow> bit f n \<and> (\<exists>(s, d) \<in> set tab. bit s n)"
    using src_single and_single_bit by (fastforce simp: list_all_iff)
  also have "\<dots> \<longleftrightarrow> bit (f AND or_all (map fst tab)) n"
    by (force simp: bit_and_iff bit_or_all)
  finally show "bit (xlat (map prod.swap tab) (xlat tab f 0) 0) n \<longleftrightarrow>
      bit (f AND or_all (map fst tab)) n" .
qed

end

lemma sint_low: "uint (x :: 'a::len word) < 2 ^ (LENGTH('a) - 1) \<Longrightarrow> sint x = uint x"
proof -
  assume "uint x < 2 ^ (LENGTH('a) - 1)"
  moreover have "- (2 ^ (LENGTH('a) - 1)) \<le> uint x" by (rule order_trans [OF _ uint_ge_0]) simp
  ultimately show ?thesis by (simp add: sint_uint signed_take_bit_int_eq_self)
qed

end
