(* ===== verification/Errno.thy ===== *)
theory Errno
  imports Emu_Prelude
begin

text \<open>
  Error numbers. \<^verbatim>\<open>duct_errno.h\<close> names the Linux numbers, \<^verbatim>\<open>libc/gen/errlst.c\<close> the
  Darwin ones, and \<^verbatim>\<open>errno.c\<close> builds a table of 512 entries from designated initialisers
  \<^verbatim>\<open>[LINUX_X] = X\<close>; \<open>errno_linux_to_bsd\<close> looks a system call's result up in it. Nearly
  every emulated system call passes a negative result of the Linux kernel through this
  function. The locale \<open>error_translation\<close> states what those callers rely on.
\<close>

section \<open>The numbers of the two systems\<close>

text \<open>
  The macros of \<^verbatim>\<open>duct_errno.h\<close>, by number. The last one, \<^verbatim>\<open>LINUX_ENOTSUP\<close>, is defined as
  the Darwin macro \<^verbatim>\<open>EOPNOTSUPP\<close>, whose number is 102.
\<close>

definition linux_errno_names :: "(int \<times> string) list" where
  "linux_errno_names = [
     (1, ''EPERM''), (2, ''ENOENT''), (3, ''ESRCH''), (4, ''EINTR''),
     (5, ''EIO''), (6, ''ENXIO''), (8, ''ENOEXEC''), (9, ''EBADF''),
     (10, ''ECHILD''), (11, ''EAGAIN''), (12, ''ENOMEM''), (13, ''EACCES''),
     (14, ''EFAULT''), (15, ''ENOTBLK''), (16, ''EBUSY''), (17, ''EEXIST''),
     (18, ''EXDEV''), (19, ''ENODEV''), (20, ''ENOTDIR''), (21, ''EISDIR''),
     (22, ''EINVAL''), (23, ''ENFILE''), (24, ''EMFILE''), (25, ''ENOTTY''),
     (26, ''ETXTBSY''), (27, ''EFBIG''), (28, ''ENOSPC''), (29, ''ESPIPE''),
     (30, ''EROFS''), (31, ''EMLINK''), (32, ''EPIPE''), (33, ''EDOM''),
     (34, ''ERANGE''), (35, ''EDEADLK''), (36, ''ENAMETOOLONG''), (37, ''ENOLCK''),
     (38, ''ENOSYS''), (39, ''ENOTEMPTY''), (40, ''ELOOP''), (42, ''ENOMSG''),
     (43, ''EIDRM''), (44, ''ECHRNG''), (48, ''ELNRNG''), (49, ''EUNATCH''),
     (50, ''ENOCSI''), (52, ''EBADE''), (53, ''EBADR''), (54, ''EXFULL''),
     (55, ''ENOANO''), (56, ''EBADRQC''), (57, ''EBADSLT''), (59, ''EBFONT''),
     (60, ''ENOSTR''), (61, ''ENODATA''), (62, ''ETIME''), (63, ''ENOSR''),
     (64, ''ENONET''), (65, ''ENOPKG''), (66, ''EREMOTE''), (67, ''ENOLINK''),
     (68, ''EADV''), (69, ''ESRMNT''), (70, ''ECOMM''), (71, ''EPROTO''),
     (72, ''EMULTIHOP''), (73, ''EDOTDOT''), (74, ''EBADMSG''), (75, ''EOVERFLOW''),
     (76, ''ENOTUNIQ''), (77, ''EBADFD''), (78, ''EREMCHG''), (79, ''ELIBACC''),
     (80, ''ELIBBAD''), (81, ''ELIBSCN''), (82, ''ELIBMAX''), (83, ''ELIBEXEC''),
     (84, ''EILSEQ''), (85, ''ERESTART''), (86, ''ESTRPIPE''), (87, ''EUSERS''),
     (88, ''ENOTSOCK''), (89, ''EDESTADDRREQ''), (90, ''EMSGSIZE''), (91, ''EPROTOTYPE''),
     (92, ''ENOPROTOOPT''), (93, ''EPROTONOSUPPORT''), (94, ''ESOCKTNOSUPPORT''), (95, ''EOPNOTSUPP''),
     (96, ''EPFNOSUPPORT''), (97, ''EAFNOSUPPORT''), (98, ''EADDRINUSE''), (99, ''EADDRNOTAVAIL''),
     (100, ''ENETDOWN''), (101, ''ENETUNREACH''), (102, ''ENETRESET''), (103, ''ECONNABORTED''),
     (104, ''ECONNRESET''), (105, ''ENOBUFS''), (106, ''EISCONN''), (107, ''ENOTCONN''),
     (108, ''ESHUTDOWN''), (109, ''ETOOMANYREFS''), (110, ''ETIMEDOUT''), (111, ''ECONNREFUSED''),
     (112, ''EHOSTDOWN''), (113, ''EHOSTUNREACH''), (114, ''EALREADY''), (115, ''EINPROGRESS''),
     (116, ''ESTALE''), (117, ''EUCLEAN''), (118, ''ENOTNAM''), (119, ''ENAVAIL''),
     (120, ''EISNAM''), (121, ''EREMOTEIO''), (122, ''EDQUOT''), (123, ''ENOMEDIUM''),
     (124, ''EMEDIUMTYPE''), (125, ''ECANCELED''), (126, ''ENOKEY''), (127, ''EKEYEXPIRED''),
     (128, ''EKEYREVOKED''), (129, ''EKEYREJECTED''), (130, ''EOWNERDEAD''), (131, ''ENOTRECOVERABLE''),
     (132, ''ERFKILL''), (133, ''EHWPOISON''), (102, ''ENOTSUP'')]"

text \<open>
  The numbers Darwin gives its error names, from the comments of its list of messages
  (\<^verbatim>\<open>EWOULDBLOCK\<close> is a second name of 35).
\<close>

definition darwin_errno_names :: "(int \<times> string) list" where
  "darwin_errno_names = [
     (0, ''ENOERROR''), (1, ''EPERM''), (2, ''ENOENT''), (3, ''ESRCH''),
     (4, ''EINTR''), (5, ''EIO''), (6, ''ENXIO''), (7, ''E2BIG''),
     (8, ''ENOEXEC''), (9, ''EBADF''), (10, ''ECHILD''), (11, ''EDEADLK''),
     (12, ''ENOMEM''), (13, ''EACCES''), (14, ''EFAULT''), (15, ''ENOTBLK''),
     (16, ''EBUSY''), (17, ''EEXIST''), (18, ''EXDEV''), (19, ''ENODEV''),
     (20, ''ENOTDIR''), (21, ''EISDIR''), (22, ''EINVAL''), (23, ''ENFILE''),
     (24, ''EMFILE''), (25, ''ENOTTY''), (26, ''ETXTBSY''), (27, ''EFBIG''),
     (28, ''ENOSPC''), (29, ''ESPIPE''), (30, ''EROFS''), (31, ''EMLINK''),
     (32, ''EPIPE''), (33, ''EDOM''), (34, ''ERANGE''), (35, ''EAGAIN''),
     (36, ''EINPROGRESS''), (37, ''EALREADY''), (38, ''ENOTSOCK''), (39, ''EDESTADDRREQ''),
     (40, ''EMSGSIZE''), (41, ''EPROTOTYPE''), (42, ''ENOPROTOOPT''), (43, ''EPROTONOSUPPORT''),
     (44, ''ESOCKTNOSUPPORT''), (45, ''ENOTSUP''), (46, ''EPFNOSUPPORT''), (47, ''EAFNOSUPPORT''),
     (48, ''EADDRINUSE''), (49, ''EADDRNOTAVAIL''), (50, ''ENETDOWN''), (51, ''ENETUNREACH''),
     (52, ''ENETRESET''), (53, ''ECONNABORTED''), (54, ''ECONNRESET''), (55, ''ENOBUFS''),
     (56, ''EISCONN''), (57, ''ENOTCONN''), (58, ''ESHUTDOWN''), (59, ''ETOOMANYREFS''),
     (60, ''ETIMEDOUT''), (61, ''ECONNREFUSED''), (62, ''ELOOP''), (63, ''ENAMETOOLONG''),
     (64, ''EHOSTDOWN''), (65, ''EHOSTUNREACH''), (66, ''ENOTEMPTY''), (67, ''EPROCLIM''),
     (68, ''EUSERS''), (69, ''EDQUOT''), (70, ''ESTALE''), (71, ''EREMOTE''),
     (72, ''EBADRPC''), (73, ''ERPCMISMATCH''), (74, ''EPROGUNAVAIL''), (75, ''EPROGMISMATCH''),
     (76, ''EPROCUNAVAIL''), (77, ''ENOLCK''), (78, ''ENOSYS''), (79, ''EFTYPE''),
     (80, ''EAUTH''), (81, ''ENEEDAUTH''), (82, ''EPWROFF''), (83, ''EDEVERR''),
     (84, ''EOVERFLOW''), (85, ''EBADEXEC''), (86, ''EBADARCH''), (87, ''ESHLIBVERS''),
     (88, ''EBADMACHO''), (89, ''ECANCELED''), (90, ''EIDRM''), (91, ''ENOMSG''),
     (92, ''EILSEQ''), (93, ''ENOATTR''), (94, ''EBADMSG''), (95, ''EMULTIHOP''),
     (96, ''ENODATA''), (97, ''ENOLINK''), (98, ''ENOSR''), (99, ''ENOSTR''),
     (100, ''EPROTO''), (101, ''ETIME''), (102, ''EOPNOTSUPP''), (103, ''ENOPOLICY''),
     (104, ''ENOTRECOVERABLE''), (105, ''EOWNERDEAD''), (106, ''EQFULL'')]"

section \<open>The translation table\<close>

text \<open>
  The initialisers of \<^verbatim>\<open>linux_to_darwin[512]\<close>, in the order of the source: the name, the
  value of \<^verbatim>\<open>LINUX_name\<close> and the value of \<^verbatim>\<open>name\<close>.
\<close>

definition linux_to_darwin_init :: "(string \<times> int \<times> int) list" where
  "linux_to_darwin_init = [
     (''EPERM'', 1, 1), (''ENOENT'', 2, 2), (''ESRCH'', 3, 3), (''EINTR'', 4, 4),
     (''EIO'', 5, 5), (''ENXIO'', 6, 6), (''ENOEXEC'', 8, 8), (''EBADF'', 9, 9),
     (''ECHILD'', 10, 10), (''EDEADLK'', 35, 11), (''ENOMEM'', 12, 12), (''EACCES'', 13, 13),
     (''EFAULT'', 14, 14), (''ENOTBLK'', 15, 15), (''EBUSY'', 16, 16), (''EEXIST'', 17, 17),
     (''EXDEV'', 18, 18), (''ENODEV'', 19, 19), (''ENOTDIR'', 20, 20), (''EISDIR'', 21, 21),
     (''EINVAL'', 22, 22), (''ENFILE'', 23, 23), (''EMFILE'', 24, 24), (''ENOTTY'', 25, 25),
     (''ETXTBSY'', 26, 26), (''EFBIG'', 27, 27), (''ENOSPC'', 28, 28), (''ESPIPE'', 29, 29),
     (''EROFS'', 30, 30), (''EMLINK'', 31, 31), (''EPIPE'', 32, 32), (''EDOM'', 33, 33),
     (''ERANGE'', 34, 34), (''EAGAIN'', 11, 35), (''EINPROGRESS'', 115, 36), (''EALREADY'', 114, 37),
     (''ENOTSOCK'', 88, 38), (''EDESTADDRREQ'', 89, 39), (''EMSGSIZE'', 90, 40), (''EPROTOTYPE'', 91, 41),
     (''ENOPROTOOPT'', 92, 42), (''EPROTONOSUPPORT'', 93, 43), (''ESOCKTNOSUPPORT'', 94, 44), (''ENOTSUP'', 102, 45),
     (''EPFNOSUPPORT'', 96, 46), (''EAFNOSUPPORT'', 97, 47), (''EADDRINUSE'', 98, 48), (''EADDRNOTAVAIL'', 99, 49),
     (''ENETDOWN'', 100, 50), (''ENETUNREACH'', 101, 51), (''ENETRESET'', 102, 52), (''ECONNABORTED'', 103, 53),
     (''ECONNRESET'', 104, 54), (''ENOBUFS'', 105, 55), (''EISCONN'', 106, 56), (''ENOTCONN'', 107, 57),
     (''ESHUTDOWN'', 108, 58), (''ETOOMANYREFS'', 109, 59), (''ETIMEDOUT'', 110, 60), (''ECONNREFUSED'', 111, 61),
     (''ELOOP'', 40, 62), (''ENAMETOOLONG'', 36, 63), (''EHOSTDOWN'', 112, 64), (''EHOSTUNREACH'', 113, 65),
     (''ENOTEMPTY'', 39, 66), (''EUSERS'', 87, 68), (''EDQUOT'', 122, 69), (''ESTALE'', 116, 70),
     (''EREMOTE'', 66, 71), (''ENOLCK'', 37, 77), (''ENOSYS'', 38, 78), (''EOVERFLOW'', 75, 84),
     (''ECANCELED'', 125, 89), (''EIDRM'', 43, 90), (''ENOMSG'', 42, 91), (''EILSEQ'', 84, 92),
     (''EBADMSG'', 74, 94), (''EMULTIHOP'', 72, 95), (''ENODATA'', 61, 96), (''ENOLINK'', 67, 97),
     (''ENOSR'', 63, 98), (''ENOSTR'', 60, 99), (''EPROTO'', 71, 100), (''ETIME'', 62, 101),
     (''EOPNOTSUPP'', 95, 102)]"

text \<open>
  Entries without an initialiser are 0; of two initialisers of one entry the later one counts.
\<close>

definition linux_to_darwin :: "int list" where
  "linux_to_darwin =
     fold (\<lambda>(n, i, v) a. a[nat i := v]) linux_to_darwin_init (replicate 512 0)"

definition errno_linux_to_bsd :: "int \<Rightarrow> int" where
  "errno_linux_to_bsd err =
     (let v = (if err < 0 then - err else err) in
      if v < int (length linux_to_darwin) \<and> linux_to_darwin ! nat v \<noteq> 0
      then let v' = linux_to_darwin ! nat v in if err < 0 then - v' else v'
      else err)"

section \<open>Lemmas\<close>

lemma length_linux_to_darwin [simp]: "length linux_to_darwin = 512"
proof -
  have "length (fold (\<lambda>(n, i, v) a. a[nat i := v]) xs (a :: int list)) = length a"
    for xs :: "(string \<times> int \<times> int) list" and a
    by (induction xs arbitrary: a) auto
  then show ?thesis by (simp add: linux_to_darwin_def)
qed

lemma fold_update_nth:
  assumes "j < length (a :: int list)" "\<forall>x \<in> set xs. 0 \<le> fst (snd x)"
  shows "fold (\<lambda>(n, i, v) a. a[nat i := v]) xs a ! j =
    switch (rev (map snd xs)) (a ! j) (int j)"
  using assms
proof (induction xs arbitrary: a)
  case Nil
  then show ?case by simp
next
  case (Cons x xs)
  obtain n i v where x: "x = (n, i, v)" by (cases x) auto
  have app: "switch (t @ [(i, v)]) d k = switch t (if k = i then v else d) k" for t d k
    by (induction t) auto
  show ?case using Cons x by (auto simp: app)
qed

lemma init_keys: "list_all (\<lambda>(n, i, v). 0 < i \<and> i < 512 \<and> 0 < v \<and> v < 107) linux_to_darwin_init"
  by code_simp

text \<open>The lookups a reader of the source expects: the last initialiser of a number.\<close>

definition linux_to_darwin_last :: "(int \<times> int) list" where
  "linux_to_darwin_last = rev (map snd linux_to_darwin_init)"

lemma linux_to_darwin_nth: "j < 512 \<Longrightarrow> linux_to_darwin ! j = switch linux_to_darwin_last 0 (int j)"
  unfolding linux_to_darwin_def linux_to_darwin_last_def
  using init_keys by (subst fold_update_nth) (auto simp: list_all_iff)

lemma last_range: "(i, v) \<in> set linux_to_darwin_last \<Longrightarrow> 0 < i \<and> i < 512 \<and> 0 < v \<and> v < 107"
  using init_keys by (fastforce simp: linux_to_darwin_last_def list_all_iff)

text \<open>The function is the lookup of the last initialiser, with the sign kept.\<close>

lemma errno_switch:
  "errno_linux_to_bsd e =
     (if e < 0 then - switch linux_to_darwin_last (- e) (- e)
      else switch linux_to_darwin_last e e)"
proof -
  have agree: "switch linux_to_darwin_last v v = (if v < 512 \<and> linux_to_darwin ! nat v \<noteq> 0
      then linux_to_darwin ! nat v else v)" if "0 \<le> v" for v
  proof (cases "v < 512")
    case True
    then have nth: "linux_to_darwin ! nat v = switch linux_to_darwin_last 0 v"
      using that linux_to_darwin_nth [of "nat v"] by simp
    have "switch t v v = (if switch t 0 v \<noteq> 0 then switch t 0 v else v)"
      if "\<forall>(i, w) \<in> set t. w \<noteq> 0" for t :: "(int \<times> int) list"
      using that by (induction t) auto
    then show ?thesis using True nth last_range by fastforce
  next
    case False
    then show ?thesis using last_range by (force intro!: switch_default)
  qed
  show ?thesis by (simp add: errno_linux_to_bsd_def Let_def agree)
qed

lemma errno_abs_bound:
  "0 < e \<Longrightarrow> 0 < switch linux_to_darwin_last e e"
  using switch_range [of linux_to_darwin_last e e] last_range by auto

section \<open>What callers rely on\<close>

text \<open>
  An emulated system call tests the sign of the kernel's result and translates it: the
  translation must keep negative results negative and leave 0 alone.
\<close>

locale error_translation =
  fixes tr :: "int \<Rightarrow> int"
  assumes tr_neg: "e < 0 \<Longrightarrow> tr e < 0"
    and tr_odd: "tr (- e) = - tr e"
begin

lemma tr_zero [simp]: "tr 0 = 0"
  using tr_odd [of 0] by simp

lemma tr_pos: "0 < e \<Longrightarrow> 0 < tr e"
  using tr_neg [of "- e"] tr_odd [of e] by simp

text \<open>The common tail \<^verbatim>\<open>if (ret < 0) ret = errno_linux_to_bsd(ret); return ret;\<close>\<close>

lemma tail_sign: "((if r < 0 then tr r else r) < 0) = (r < 0)"
  using tr_neg by auto

lemma tail_success: "0 \<le> r \<Longrightarrow> (if r < 0 then tr r else r) = r"
  by simp

end

interpretation errno: error_translation errno_linux_to_bsd
proof unfold_locales
  fix e :: int
  show "e < 0 \<Longrightarrow> errno_linux_to_bsd e < 0"
    using errno_abs_bound [of "- e"] by (simp add: errno_switch)
  show "errno_linux_to_bsd (- e) = - errno_linux_to_bsd e"
    using switch_default [of 0 linux_to_darwin_last] last_range
    by (cases e "0 :: int" rule: linorder_cases) (force simp: errno_switch)+
qed

definition ret_bsd :: "int \<Rightarrow> int" where
  "ret_bsd r = (if r < 0 then errno_linux_to_bsd r else r)"

lemma ret_bsd_sign [simp]: "(ret_bsd r < 0) = (r < 0)"
  by (simp add: ret_bsd_def errno.tail_sign)

lemma ret_bsd_nonneg [simp]: "0 \<le> r \<Longrightarrow> ret_bsd r = r"
  by (simp add: ret_bsd_def)

section \<open>Properties\<close>

text \<open>
  The initialisers follow the order of the Darwin numbers, so that the pairs of number and
  name they use are found in one pass over the list of names; sorted by their Linux
  numbers, so are the Linux pairs.
\<close>

definition real_inits :: "(string \<times> int \<times> int) list" where
  "real_inits = filter (\<lambda>(n, i, v). n \<noteq> ''ENOTSUP'') linux_to_darwin_init"

lemma inits_darwin: "subseq (map (\<lambda>(n, i, v). (v, n)) linux_to_darwin_init) darwin_errno_names"
  by code_simp

lemma inits_linux:
  "subseq (map (\<lambda>(n, i, v). (i, n)) (sort_key (\<lambda>(n, i, v). i) real_inits)) (butlast linux_errno_names)"
  by code_simp

lemma distinct_darwin: "distinct (map fst darwin_errno_names)"
  by code_simp

lemma distinct_linux: "distinct (map fst (butlast linux_errno_names))"
  by code_simp

lemma inits_last: "list_all (\<lambda>(n, i, v). switch linux_to_darwin_last i i = v) real_inits"
  by code_simp

lemma subseq_set: "subseq xs ys \<Longrightarrow> set xs \<subseteq> set ys"
  by (induction rule: list_emb.induct) auto

lemma real_init_name:
  assumes "(n, i, v) \<in> set real_inits"
  shows "map_of darwin_errno_names v = Some n" "map_of linux_errno_names i = Some n"
    "switch linux_to_darwin_last i i = v"
proof -
  have "(v, n) \<in> set darwin_errno_names"
    using assms subseq_set [OF inits_darwin] by (force simp: real_inits_def)
  then show "map_of darwin_errno_names v = Some n" using distinct_darwin by simp
  have "(i, n) \<in> set (butlast linux_errno_names)"
    using assms subseq_set [OF inits_linux] by force
  then have "map_of (butlast linux_errno_names) i = Some n" using distinct_linux by simp
  moreover have "linux_errno_names \<noteq> []" by (simp only: linux_errno_names_def list.distinct not_False_eq_True)
  then have "linux_errno_names = butlast linux_errno_names @ [last linux_errno_names]" by simp
  ultimately show "map_of linux_errno_names i = Some n"
    by (metis map_add_Some_iff map_of_append)
  show "switch linux_to_darwin_last i i = v" using assms inits_last by (auto simp: list_all_iff)
qed

lemma enotsup_init: "list_all (\<lambda>(n, i, v). n = ''ENOTSUP'' \<longrightarrow> i = 102) linux_to_darwin_init"
  by code_simp

lemma enetreset_init: "(''ENETRESET'', 102, 52) \<in> set real_inits"
  by code_simp

lemma real_init_keys:
  assumes "(n, i, v) \<in> set linux_to_darwin_init"
  obtains m w where "(m, i, w) \<in> set real_inits"
proof (cases "n = ''ENOTSUP''")
  case True
  then show ?thesis using assms enotsup_init enetreset_init that by (fastforce simp: list_all_iff)
next
  case False
  then show ?thesis using assms that [of n v] by (simp add: real_inits_def)
qed

text \<open>
  C1: errno translation preserves the meaning of an error. For every Linux number that
  \<^verbatim>\<open>errno.c\<close> initialises, the Darwin number it becomes has the same symbolic name, and a
  negated number becomes the negated Darwin number. (The entry for \<^verbatim>\<open>LINUX_ENOTSUP\<close>, which is
  the number of \<^verbatim>\<open>LINUX_ENETRESET\<close>, is overridden by the later initialiser of that number.)
\<close>

theorem errno_linux_to_bsd_name:
  assumes "e \<in> (fst \<circ> snd) ` set linux_to_darwin_init"
  shows "map_of darwin_errno_names (errno_linux_to_bsd e) = map_of linux_errno_names e \<and>
    map_of linux_errno_names e \<noteq> None \<and> errno_linux_to_bsd (- e) = - errno_linux_to_bsd e"
proof -
  from assms obtain n' v' where "(n', e, v') \<in> set linux_to_darwin_init" by auto
  then obtain n v where nv: "(n, e, v) \<in> set real_inits" by (rule real_init_keys)
  then have "0 < e" using init_keys by (auto simp: list_all_iff real_inits_def)
  then show ?thesis using real_init_name [OF nv] errno.tr_odd by (simp add: errno_switch)
qed

theorem errno_linux_to_bsd_name_witness:
  "map_of darwin_errno_names (errno_linux_to_bsd 36) = map_of linux_errno_names 36 \<and>
   errno_linux_to_bsd 36 = 63 \<and> errno_linux_to_bsd (-36) = -63"
proof -
  have m: "36 \<in> (fst \<circ> snd) ` set linux_to_darwin_init" by code_simp
  have v: "errno_linux_to_bsd 36 = 63" unfolding errno_switch by code_simp
  show ?thesis using errno_linux_to_bsd_name [OF m] v by simp
qed

text \<open>
  Translating an error keeps its sign, for every number the kernel can return: a failed
  call stays failed, a successful one stays successful, so callers that test the sign after
  the translation decide as before it.
\<close>

lemma errno_linux_to_bsd_sign: "sgn (errno_linux_to_bsd e) = sgn e"
  using errno.tr_neg [of e] errno.tr_pos [of e] errno.tr_zero
  by (cases e "0 :: int" rule: linorder_cases) auto

text \<open>
  The translation must be applied exactly once. It is not idempotent: the Darwin number of
  \<^verbatim>\<open>ENAMETOOLONG\<close> (63), taken for a Linux number, becomes \<^verbatim>\<open>ENOSR\<close> (98).
\<close>

lemma errno_linux_to_bsd_not_idempotent:
  "errno_linux_to_bsd (-36) = -63 \<and> errno_linux_to_bsd (errno_linux_to_bsd (-36)) = -98"
  unfolding errno_switch by code_simp

end
