(* ===== verification/Simple.thy ===== *)
theory Simple
  imports Emu_Prelude "HOL-Library.Signed_Division"
begin

text \<open>
  The formatting, parsing and line-reading helpers that the emulation layer uses before a C
  library exists: \<^verbatim>\<open>simple.c\<close> and \<^verbatim>\<open>readline.c\<close>.

  A buffer is a list of characters of fixed length; a write or read outside it is undefined
  behaviour, the value \<open>None\<close>. A \<^verbatim>\<open>va_list\<close> is the list of its 8-byte slots: \<^verbatim>\<open>va_arg\<close> of a
  32-bit type reads the low half of a slot. The file descriptor a line reader reads from is a
  parameter: a function from the requested size and the outside world to the returned count,
  the bytes stored, and the world after the call.
\<close>

section \<open>Formatting\<close>

datatype va_slot = VNum u64 | VStr "string option"

definition digit_char :: "nat \<Rightarrow> char" where
  "digit_char d = char_of (48 + d)"

definition hex_char :: "nat \<Rightarrow> char" where
  "hex_char c = (if c < 10 then char_of (48 + c) else char_of (65 + (c - 10)))"

text \<open>
  The \<^verbatim>\<open>do ... while (num > 0)\<close> loops fill \<^verbatim>\<open>temp\<close> from its start, least significant digit
  first: for \<^verbatim>\<open>%u\<close>, for \<^verbatim>\<open>%x\<close> and, on a signed number, for \<^verbatim>\<open>%d\<close>.
\<close>

fun temp_u :: "nat \<Rightarrow> string" where
  "temp_u num = digit_char (num mod 10) # (if num div 10 > 0 then temp_u (num div 10) else [])"

fun temp_x :: "nat \<Rightarrow> string" where
  "temp_x num = hex_char (num mod 16) # (if num div 16 > 0 then temp_x (num div 16) else [])"

function temp_d :: "int \<Rightarrow> string" where
  "temp_d num = digit_char (nat (abs (num smod 10))) #
     (if num sdiv 10 > 0 then temp_d (num sdiv 10) else [])"
  by auto
termination
  by (relation "measure nat")
    (auto simp: signed_divide_int_def sgn_if zero_less_mult_iff split: if_splits)

text \<open>\<^verbatim>\<open>if (offset < max_length) buf[offset] = c; offset++;\<close>\<close>

definition put :: "nat \<Rightarrow> char \<Rightarrow> char list \<times> nat \<Rightarrow> (char list \<times> nat) option" where
  "put max_length c st = (case st of (buf, offset) \<Rightarrow>
     if offset < max_length
     then if offset < length buf then Some (buf[offset := c], offset + 1) else None
     else Some (buf, offset + 1))"

fun puts :: "nat \<Rightarrow> string \<Rightarrow> char list \<times> nat \<Rightarrow> (char list \<times> nat) option" where
  "puts max_length [] st = Some st"
| "puts max_length (c # cs) st =
     (case put max_length c st of None \<Rightarrow> None | Some st' \<Rightarrow> puts max_length cs st')"

text \<open>The body of the \<^verbatim>\<open>switch\<close>: the conversion character, the slots, the buffer.\<close>

definition conv :: "nat \<Rightarrow> char \<Rightarrow> va_slot list \<Rightarrow> char list \<times> nat \<Rightarrow>
    ((char list \<times> nat) \<times> va_slot list) option" where
  "conv max_length c vl st =
     (let done = (\<lambda>vl' s. case puts max_length s st of None \<Rightarrow> None | Some st' \<Rightarrow> Some (st', vl')) in
      if c = CHR ''%'' then done vl ''%''
      else if c = CHR ''s'' then (case vl of
          VStr str # vl' \<Rightarrow> done vl' (case str of None \<Rightarrow> ''(null)'' | Some s \<Rightarrow> s)
        | _ \<Rightarrow> None)
      else if c = CHR ''d'' then (case vl of
          VNum w # vl' \<Rightarrow>
            (let num = (ucast w :: u32) in
             if sint num < 0 then done vl' (CHR ''-'' # rev (temp_d (sint (- num))))
             else done vl' (rev (temp_d (sint num))))
        | _ \<Rightarrow> None)
      else if c = CHR ''u'' then (case vl of
          VNum w # vl' \<Rightarrow> done vl' (rev (temp_u (unat (ucast w :: u32))))
        | _ \<Rightarrow> None)
      else if c = CHR ''p'' \<or> c = CHR ''x'' then (case vl of
          VNum w # vl' \<Rightarrow> done vl' ((if c = CHR ''p'' then ''0x'' else '''') @ rev (temp_x (unat w)))
        | _ \<Rightarrow> None)
      else Some (st, vl))"

text \<open>
  The loop over the format. A format that ends in \<^verbatim>\<open>%l\<close> makes the code step over the
  terminating NUL and read on, which is undefined.
\<close>

fun vsnprintf_loop :: "nat \<Rightarrow> string \<Rightarrow> va_slot list \<Rightarrow> char list \<times> nat \<Rightarrow> (char list \<times> nat) option" where
  "vsnprintf_loop max_length [] vl st = Some st"
| "vsnprintf_loop max_length (c # format) vl st =
     (if c = CHR ''%'' then
        (case format of
           [] \<Rightarrow> Some st
         | l # format' \<Rightarrow>
             if l = CHR ''l'' then
               (case format' of
                  [] \<Rightarrow> None
                | c' # format'' \<Rightarrow>
                    (case conv max_length c' vl st of None \<Rightarrow> None
                     | Some (st', vl') \<Rightarrow> vsnprintf_loop max_length format'' vl' st'))
             else (case conv max_length l vl st of None \<Rightarrow> None
                   | Some (st', vl') \<Rightarrow> vsnprintf_loop max_length format' vl' st'))
      else (case put max_length c st of None \<Rightarrow> None
            | Some st' \<Rightarrow> vsnprintf_loop max_length format vl st'))"

text \<open>
  \<^verbatim>\<open>__simple_vsnprintf\<close>: the terminator goes to \<^verbatim>\<open>offset\<close> or to the last byte, which for
  \<^verbatim>\<open>max_length = 0\<close> is \<^verbatim>\<open>buf[-1]\<close>. The returned offset becomes a 32-bit \<^verbatim>\<open>int\<close>.
\<close>

definition simple_vsnprintf :: "char list \<Rightarrow> nat \<Rightarrow> string \<Rightarrow> va_slot list \<Rightarrow> (char list \<times> int) option" where
  "simple_vsnprintf buf max_length format vl =
     (case vsnprintf_loop max_length format vl (buf, 0) of
        None \<Rightarrow> None
      | Some (buf', offset) \<Rightarrow>
          (let i = (if offset < max_length then int offset else int max_length - 1) in
           if 0 \<le> i \<and> i < int (length buf')
           then Some (buf'[nat i := NUL], sint (word_of_nat offset :: u32)) else None))"

abbreviation (input) SIZE_MAX :: nat where "SIZE_MAX \<equiv> 2 ^ 64 - 1"

definition simple_vsprintf :: "char list \<Rightarrow> string \<Rightarrow> va_slot list \<Rightarrow> (char list \<times> int) option" where
  "simple_vsprintf buf format vl = simple_vsnprintf buf SIZE_MAX format vl"

definition simple_strlen :: "char list \<Rightarrow> nat" where
  "simple_strlen buf = length (cstr buf)"

text \<open>
  \<^verbatim>\<open>__simple_fprintf\<close> formats into a local buffer of 512 bytes, whose initial contents are
  \<open>junk\<close>, and hands the string to \<^verbatim>\<open>write\<close>; \<^verbatim>\<open>__simple_printf\<close> does so for descriptor 1.
\<close>

definition simple_fprintf ::
    "(int \<Rightarrow> string \<Rightarrow> 'w \<Rightarrow> int \<times> 'w) \<Rightarrow> char list \<Rightarrow> int \<Rightarrow> string \<Rightarrow> va_slot list \<Rightarrow> 'w \<Rightarrow> 'w option" where
  "simple_fprintf write junk fd format vl w =
     (case simple_vsnprintf junk 512 format vl of None \<Rightarrow> None
      | Some (buffer, _) \<Rightarrow> Some (snd (write fd (take (simple_strlen buffer) buffer) w)))"

definition simple_printf ::
    "(int \<Rightarrow> string \<Rightarrow> 'w \<Rightarrow> int \<times> 'w) \<Rightarrow> char list \<Rightarrow> string \<Rightarrow> va_slot list \<Rightarrow> 'w \<Rightarrow> 'w option" where
  "simple_printf write junk format vl w = simple_fprintf write junk 1 format vl w"

definition simple_kprintf ::
    "(string \<Rightarrow> 'w \<Rightarrow> 'w) \<Rightarrow> char list \<Rightarrow> string \<Rightarrow> va_slot list \<Rightarrow> 'w \<Rightarrow> 'w option" where
  "simple_kprintf printk junk format vl w =
     (case simple_vsnprintf junk 512 format vl of None \<Rightarrow> None
      | Some (buffer, _) \<Rightarrow> Some (printk (cstr buffer) w))"

section \<open>Parsing\<close>

definition isdigit :: "char \<Rightarrow> bool" where
  "isdigit c \<longleftrightarrow> 48 \<le> (of_char c :: nat) \<and> (of_char c :: nat) \<le> 57"

definition isdigit16 :: "char \<Rightarrow> bool" where
  "isdigit16 c \<longleftrightarrow> isdigit c \<or> (97 \<le> (of_char c :: nat) \<and> (of_char c :: nat) \<le> 102) \<or>
     (65 \<le> (of_char c :: nat) \<and> (of_char c :: nat) \<le> 70)"

text \<open>The value, modulo \<open>2 ^ 64\<close>, and the text \<^verbatim>\<open>*endp\<close> points to.\<close>

fun atoi_loop :: "u64 \<Rightarrow> string \<Rightarrow> u64 \<times> string" where
  "atoi_loop val [] = (val, [])"
| "atoi_loop val (c # str) =
     (if isdigit c then atoi_loop (val * 10 + (of_char c - 48)) str else (val, c # str))"

definition simple_atoi :: "string \<Rightarrow> u64 \<times> string" where
  "simple_atoi str = atoi_loop 0 str"

text \<open>The last test of the source is \<^verbatim>\<open>*str < 'F'\<close>: the digit F adds nothing.\<close>

definition hex_digit_value :: "char \<Rightarrow> u64" where
  "hex_digit_value c =
     (let n = of_char c :: nat in
      if 48 \<le> n \<and> n \<le> 57 then of_nat (n - 48)
      else if 97 \<le> n \<and> n \<le> 102 then of_nat (10 + (n - 97))
      else if 65 \<le> n \<and> n < 70 then of_nat (10 + (n - 65))
      else 0)"

fun atoi16_loop :: "u64 \<Rightarrow> string \<Rightarrow> u64 \<times> string" where
  "atoi16_loop val [] = (val, [])"
| "atoi16_loop val (c # str) =
     (if isdigit16 c then atoi16_loop (val * 16 + hex_digit_value c) str else (val, c # str))"

definition simple_atoi16 :: "string \<Rightarrow> u64 \<times> string" where
  "simple_atoi16 str = atoi16_loop 0 str"

section \<open>Reading lines\<close>

text \<open>
  \<^verbatim>\<open>struct rdline_buffer\<close>: 1024 bytes, of which the first \<^verbatim>\<open>usage\<close> hold data; the next line
  starts at \<^verbatim>\<open>next\<close>.
\<close>

record rdline_buffer =
  rb_buffer :: "char list"
  rb_usage :: nat
  rb_next :: nat

definition readline_init :: "rdline_buffer \<Rightarrow> rdline_buffer" where
  "readline_init b = b\<lparr>rb_usage := 0, rb_next := 0\<rparr>"

text \<open>\<^verbatim>\<open>memchr(buf, c, n)\<close> as an offset, \<open>memmove\<close> to the front of a buffer, and a read into it.\<close>

definition memchr :: "char list \<Rightarrow> char \<Rightarrow> nat \<Rightarrow> nat option" where
  "memchr buf c n = (let p = length (takeWhile (\<lambda>x. x \<noteq> c) (take n buf)) in
     if p < length (take n buf) then Some p else None)"

definition move_front :: "char list \<Rightarrow> nat \<Rightarrow> nat \<Rightarrow> char list" where
  "move_front buf from n = take n (drop from buf) @ drop n buf"

definition store_at :: "char list \<Rightarrow> nat \<Rightarrow> char list \<Rightarrow> char list" where
  "store_at buf pos dat = take pos buf @ dat @ drop (pos + length dat) buf"

function (sequential) readline_loop ::
    "(nat \<Rightarrow> 'w \<Rightarrow> (int \<times> string) \<times> 'w) \<Rightarrow> bool \<Rightarrow> rdline_buffer \<Rightarrow> 'w \<Rightarrow>
     (string option \<times> rdline_buffer \<times> 'w) option" where
  "readline_loop rd eof b w =
     (case (if 0 < rb_usage b then memchr (rb_buffer b) (CHR 0x0A) (rb_usage b) else None) of
        Some p \<Rightarrow>
          (let buf = (rb_buffer b)[p := NUL] in
           Some (Some (cstr buf), b\<lparr>rb_buffer := buf, rb_next := p + 1\<rparr>, w))
      | None \<Rightarrow>
          if eof then
            if 0 < rb_usage b then
              (let buf = (rb_buffer b)[rb_usage b := NUL] in
               Some (Some (cstr buf), b\<lparr>rb_buffer := buf, rb_usage := 0\<rparr>, w))
            else Some (None, b, w)
          else
            (case rd (1024 - rb_usage b - 1) w of ((count, dat), w') \<Rightarrow>
               if count < 0 then Some (None, b, w')
               else if int (length dat) \<noteq> count \<or> 1023 < rb_usage b + length dat then None
               else readline_loop rd (count = 0)
                 (b\<lparr>rb_buffer := store_at (rb_buffer b) (rb_usage b) dat,
                    rb_usage := rb_usage b + length dat\<rparr>) w'))"
  by pat_completeness auto
termination
  by (relation "measure (\<lambda>(rd, eof, b, w). if eof then 0 else 1025 - rb_usage b)")
    (auto simp: less_diff_conv2 simp flip: length_greater_0_conv)

definition readline ::
    "(nat \<Rightarrow> 'w \<Rightarrow> (int \<times> string) \<times> 'w) \<Rightarrow> rdline_buffer \<Rightarrow> 'w \<Rightarrow>
     (string option \<times> rdline_buffer \<times> 'w) option" where
  "readline rd b w = readline_loop rd False
     (if rb_next b \<noteq> 0
      then b\<lparr>rb_buffer := move_front (rb_buffer b) (rb_next b) (rb_usage b - rb_next b),
             rb_usage := rb_usage b - rb_next b, rb_next := 0\<rparr>
      else b) w"

text \<open>
  \<^verbatim>\<open>struct simple_readline_buf\<close>, where \<^verbatim>\<open>used\<close> is an \<^verbatim>\<open>int\<close>: a failed read makes it smaller.
  The loop at \<^verbatim>\<open>find_nl\<close> gives the offset of the newline (or of the end of the data), or \<open>None\<close>
  inside for the \<^verbatim>\<open>return NULL\<close> at the end of the input.
\<close>

record simple_readline_buf =
  sb_buf :: "char list"
  sb_used :: int

definition simple_readline_init :: "simple_readline_buf \<Rightarrow> simple_readline_buf" where
  "simple_readline_init b = b\<lparr>sb_used := 0\<rparr>"

partial_function (option) find_nl ::
    "(nat \<Rightarrow> 'w \<Rightarrow> (int \<times> string) \<times> 'w) \<Rightarrow> simple_readline_buf \<Rightarrow> 'w \<Rightarrow>
     (nat option \<times> simple_readline_buf \<times> 'w) option" where
  "find_nl rd b w =
     (if sb_used b < 0 \<or> 512 < sb_used b then None
      else case (if sb_used b = 0 then None else memchr (sb_buf b) (CHR 0x0A) (nat (sb_used b))) of
        Some p \<Rightarrow> Some (Some p, b, w)
      | None \<Rightarrow>
          if sb_used b = 512 then Some (Some 512, b, w)
          else (case rd (512 - nat (sb_used b)) w of ((count, dat), w') \<Rightarrow>
            if count = 0
            then if sb_used b = 0 then Some (None, b, w') else Some (Some (nat (sb_used b)), b, w')
            else find_nl rd (b\<lparr>sb_buf := store_at (sb_buf b) (nat (sb_used b)) dat,
                               sb_used := sb_used b + count\<rparr>) w'))"

definition simple_readline ::
    "(nat \<Rightarrow> 'w \<Rightarrow> (int \<times> string) \<times> 'w) \<Rightarrow> simple_readline_buf \<Rightarrow> int \<Rightarrow> 'w \<Rightarrow>
     (string option \<times> simple_readline_buf \<times> 'w) option" where
  "simple_readline rd b max_out w =
     (case find_nl rd b w of
        None \<Rightarrow> None
      | Some (None, b, w) \<Rightarrow> Some (None, b, w)
      | Some (Some nl, b, w) \<Rightarrow>
          if nl = 0 then Some (None, b, w)
          else
            let len = min (max_out - 1) (int nl);
                used = sb_used b - len;
                used = (if used \<noteq> 0 then used - 1 else used)
            in if len < 0 \<or> (used \<noteq> 0 \<and> 512 < int nl + 1 + used) then None
               else Some (Some (take (nat len) (sb_buf b)),
                 b\<lparr>sb_buf := (if used \<noteq> 0 then move_front (sb_buf b) (nl + 1) (nat used) else sb_buf b),
                    sb_used := used\<rparr>, w))"

section \<open>What formatting and parsing compute\<close>

text \<open>The decimal numeral of a number, most significant digit first, and what \<^verbatim>\<open>%d\<close> prints.\<close>

fun show10 :: "nat \<Rightarrow> string" where
  "show10 n = (if n < 10 then [digit_char n] else show10 (n div 10) @ [digit_char (n mod 10)])"

definition show_d :: "int \<Rightarrow> string" where
  "show_d n = (if n = - (2 ^ 31) then ''-8''
     else if n < 0 then CHR ''-'' # show10 (nat (- n)) else show10 (nat n))"

fun show16 :: "nat \<Rightarrow> string" where
  "show16 n = (if n < 16 then [hex_char n] else show16 (n div 16) @ [hex_char (n mod 16)])"

definition conv_text :: "char \<Rightarrow> va_slot list \<Rightarrow> (string \<times> va_slot list) option" where
  "conv_text c vl =
     (if c = CHR ''%'' then Some (''%'', vl)
      else if c \<notin> set ''sdupx'' then Some ('''', vl)
      else case vl of
        [] \<Rightarrow> None
      | VStr str # vl' \<Rightarrow>
          if c = CHR ''s'' then Some (case str of None \<Rightarrow> ''(null)'' | Some s \<Rightarrow> s, vl') else None
      | VNum w # vl' \<Rightarrow>
          if c = CHR ''s'' then None
          else Some (if c = CHR ''d'' then show_d (sint (ucast w :: u32))
                     else if c = CHR ''u'' then show10 (unat (ucast w :: u32))
                     else if c = CHR ''p'' then ''0x'' @ show16 (unat w)
                     else show16 (unat w), vl'))"

text \<open>The complete text a format and its arguments denote, whatever the buffer.\<close>

fun render :: "string \<Rightarrow> va_slot list \<Rightarrow> string option" where
  "render [] vl = Some ''''"
| "render (c # format) vl =
     (if c \<noteq> CHR ''%'' then map_option (\<lambda>s. c # s) (render format vl)
      else case format of
        [] \<Rightarrow> Some ''''
      | l # format' \<Rightarrow>
          if l = CHR ''l'' then
            (case format' of [] \<Rightarrow> None
             | c' # format'' \<Rightarrow> (case conv_text c' vl of None \<Rightarrow> None
                 | Some (s, vl') \<Rightarrow> map_option (\<lambda>t. s @ t) (render format'' vl')))
          else (case conv_text l vl of None \<Rightarrow> None
                 | Some (s, vl') \<Rightarrow> map_option (\<lambda>t. s @ t) (render format' vl')))"

declare temp_u.simps [simp del] temp_x.simps [simp del] temp_d.simps [simp del]
  show10.simps [simp del] show16.simps [simp del]

lemma rev_temp_u [simp]: "rev (temp_u n) = show10 n"
  by (induction n rule: temp_u.induct)
    (subst temp_u.simps, subst show10.simps, auto simp: div_greater_zero_iff)

lemma rev_temp_x [simp]: "rev (temp_x n) = show16 n"
  by (induction n rule: temp_x.induct)
    (subst temp_x.simps, subst show16.simps, auto simp: div_greater_zero_iff)

lemma temp_d_temp_u [simp]: "0 \<le> n \<Longrightarrow> temp_d n = temp_u (nat n)"
proof (induction n rule: temp_d.induct)
  case (1 n)
  have q: "n sdiv 10 = n div 10" "n smod 10 = n mod 10"
    using 1(2) by (simp_all add: signed_divide_int_def signed_modulo_int_def sgn_if)
  show ?case
    using 1 by (subst temp_d.simps, subst temp_u.simps)
      (auto simp: q nat_div_distrib nat_mod_distrib div_greater_zero_iff pos_imp_zdiv_pos_iff)
qed

lemma temp_d_min: "temp_d (- 2147483648) = ''8''"
  by code_simp

lemma sint_minus:
  fixes w :: u32
  assumes "sint w < 0"
  shows "sint (- w) = (if sint w = - (2 ^ 31) then - (2 ^ 31) else - sint w)"
proof -
  have r: "- (2 ^ 31) \<le> sint w" using sint_range_size [of w] by (simp add: word_size)
  have "sint (- w) = signed_take_bit 31 (- sint w)"
    by (simp add: sint_word_ariths)
  then show ?thesis using assms r by (auto intro: signed_take_bit_int_eq_self)
qed

text \<open>
  The buffer after the text \<open>t\<close> has been emitted into \<open>buf\<close>: as much of the text as fits in
  \<open>m\<close> bytes, then what the buffer held before.
\<close>

definition emitted :: "nat \<Rightarrow> char list \<Rightarrow> string \<Rightarrow> char list \<times> nat" where
  "emitted m buf t = (take m t @ drop (min (length t) m) buf, length t)"

lemma put_emitted:
  "m \<le> length buf \<Longrightarrow> put m c (emitted m buf t) = Some (emitted m buf (t @ [c]))"
  by (auto simp: put_def emitted_def list_update_append nth_append min_def
      Cons_nth_drop_Suc [symmetric] split: if_splits)

lemma puts_emitted:
  "m \<le> length buf \<Longrightarrow> puts m s (emitted m buf t) = Some (emitted m buf (t @ s))"
  by (induction s arbitrary: t) (simp_all add: put_emitted)

lemma conv_emitted:
  "m \<le> length buf \<Longrightarrow> conv m c vl (emitted m buf t) =
     (case conv_text c vl of None \<Rightarrow> None | Some (s, vl') \<Rightarrow> Some (emitted m buf (t @ s), vl'))"
  by (auto simp: conv_def conv_text_def Let_def puts_emitted show_d_def sint_minus temp_d_min
      split: list.split va_slot.split option.split)

lemma vsnprintf_loop_emitted:
  assumes "m \<le> length buf"
  shows "vsnprintf_loop m format vl (emitted m buf t) =
    map_option (\<lambda>s. emitted m buf (t @ s)) (render format vl)"
proof (induction format arbitrary: vl t rule: length_induct)
  case (1 format)
  have step: "(case conv m c vl (emitted m buf t) of None \<Rightarrow> None
       | Some (st', vl') \<Rightarrow> vsnprintf_loop m fmt vl' st') =
     map_option (\<lambda>s. emitted m buf (t @ s)) (case conv_text c vl of None \<Rightarrow> None
       | Some (s, vl') \<Rightarrow> map_option (\<lambda>t. s @ t) (render fmt vl'))"
    if "length fmt < length format" for c fmt
    using 1 that by (cases "conv_text c vl") (auto simp: conv_emitted [OF assms] option.map_comp comp_def)
  show ?case
  proof (cases format)
    case Nil
    then show ?thesis by simp
  next
    case (Cons c fmt)
    then have "vsnprintf_loop m fmt vl (emitted m buf (t @ [c])) =
      map_option (\<lambda>s. emitted m buf (t @ [c] @ s)) (render fmt vl)"
      using 1 by simp
    then have other: "c \<noteq> CHR ''%'' \<Longrightarrow> ?thesis"
      using Cons by (simp add: put_emitted [OF assms] option.map_comp comp_def)
    show ?thesis
    proof (cases fmt)
      case Nil
      then show ?thesis using Cons other by simp
    next
      case (Cons l fmt')
      show ?thesis
      proof (cases fmt')
        case Nil
        then show ?thesis using other step [of "[]" l] \<open>format = c # fmt\<close> Cons by auto
      next
        case (Cons c' fmt'')
        then show ?thesis
          using other step [of "c' # fmt''" l] step [of fmt'' c'] \<open>format = c # fmt\<close> \<open>fmt = l # fmt'\<close>
          by (cases "c = CHR ''%''"; cases "l = CHR ''l''") simp_all
      qed
    qed
  qed
qed

lemma terminate_emitted:
  assumes "0 < m" "m \<le> length buf"
  shows "(fst (emitted m buf s))[min (length s) (m - 1) := NUL] =
    take (m - 1) s @ NUL # drop (min (length s) (m - 1) + 1) buf"
proof (cases "length s < m")
  case True
  then show ?thesis using assms
    by (simp add: emitted_def min_def list_update_append Cons_nth_drop_Suc [symmetric])
next
  case False
  then have "take m s = take (m - 1) s @ [s ! (m - 1)]"
    using assms by (simp add: take_Suc_conv_app_nth [symmetric])
  then show ?thesis using assms False by (simp add: emitted_def min_def list_update_append)
qed

lemma render_vsnprintf:
  assumes "0 < m" "m \<le> length buf"
  shows "simple_vsnprintf buf m format vl =
    map_option (\<lambda>s. (take (m - 1) s @ NUL # drop (min (length s) (m - 1) + 1) buf,
                     sint (word_of_nat (length s) :: u32)))
      (render format vl)"
proof (cases "render format vl")
  case None
  then show ?thesis
    using vsnprintf_loop_emitted [OF assms(2), of format vl "''''"]
    by (simp add: simple_vsnprintf_def emitted_def)
next
  case (Some s)
  have "vsnprintf_loop m format vl (buf, 0) = Some (emitted m buf s)"
    using vsnprintf_loop_emitted [OF assms(2), of format vl "''''"] Some by (simp add: emitted_def)
  moreover have "(if length s < m then int (length s) else int m - 1) = int (min (length s) (m - 1))"
    using assms by auto
  moreover have "length (fst (emitted m buf s)) = length buf"
    using assms by (simp add: emitted_def)
  moreover have "min (length s) (m - 1) < length buf" using assms by auto
  ultimately show ?thesis
    using Some assms terminate_emitted [OF assms, of s]
    by (cases "emitted m buf s") (simp add: simple_vsnprintf_def emitted_def)
qed

lemma take_strlen: "take (simple_strlen b) b = cstr b"
  by (simp add: simple_strlen_def cstr_def takeWhile_eq_take [symmetric])

lemma cstr_terminated: "is_cstr s \<Longrightarrow> cstr (s @ NUL # t) = s"
  by (induction s) (auto simp: cstr_def)

lemma of_char_digit [simp]: "d < 10 \<Longrightarrow> (of_char (digit_char d) :: nat) = 48 + d"
  by (simp add: digit_char_def)

lemma of_char_digit_u64 [simp]: "d < 10 \<Longrightarrow> (of_char (digit_char d) :: u64) = 48 + of_nat d"
  using of_char_digit [of d] by (metis of_nat_add of_nat_numeral of_nat_of_char)

lemma isdigit_digit_char [simp]: "d < 10 \<Longrightarrow> isdigit (digit_char d)"
  by (simp add: isdigit_def)

lemma isdigit_not_NUL: "isdigit c \<Longrightarrow> c \<noteq> NUL"
  by (auto simp: isdigit_def)

lemma show10_digits: "list_all isdigit (show10 n)"
  by (induction n rule: show10.induct) (subst show10.simps, auto)

lemma is_cstr_show10 [simp]: "is_cstr (show10 n)"
  using show10_digits [of n] isdigit_not_NUL by (auto simp: is_cstr_def list_all_iff)

lemma atoi_show10:
  "atoi_loop v (show10 n @ r) = atoi_loop (v * 10 ^ length (show10 n) + of_nat n) r"
proof (induction n arbitrary: v r rule: show10.induct)
  case (1 n)
  show ?case
  proof (cases "n < 10")
    case True
    then show ?thesis by (simp add: show10.simps)
  next
    case False
    have n: "(of_nat n :: u64) = of_nat (n div 10) * 10 + of_nat (n mod 10)"
      by (metis div_mult_mod_eq of_nat_add of_nat_mult of_nat_numeral)
    have "show10 n = show10 (n div 10) @ [digit_char (n mod 10)]"
      using False by (subst show10.simps) simp
    then show ?thesis using 1 [OF False] by (simp add: n algebra_simps)
  qed
qed

lemma length_show10: "0 < k \<Longrightarrow> n < 10 ^ k \<Longrightarrow> length (show10 n) \<le> k"
proof (induction n arbitrary: k rule: show10.induct)
  case (1 n)
  show ?case
  proof (cases "n < 10")
    case False
    then obtain j where j: "k = Suc j" "0 < j" using 1 by (cases k; cases "k - 1") auto
    then have "length (show10 (n div 10)) \<le> j" using 1 False by auto
    then show ?thesis using j False by (subst show10.simps) simp
  qed (use 1 in \<open>simp add: show10.simps\<close>)
qed

lemma length_show16: "0 < k \<Longrightarrow> n < 16 ^ k \<Longrightarrow> length (show16 n) \<le> k"
proof (induction n arbitrary: k rule: show16.induct)
  case (1 n)
  show ?case
  proof (cases "n < 16")
    case False
    then obtain j where j: "k = Suc j" "0 < j" using 1 by (cases k; cases "k - 1") auto
    then have "length (show16 (n div 16)) \<le> j" using 1 False by auto
    then show ?thesis using j False by (subst show16.simps) simp
  qed (use 1 in \<open>simp add: show16.simps\<close>)
qed

text \<open>What \<^verbatim>\<open>__simple_atoi16\<close> makes of a hexadecimal numeral: every digit F counts as 0.\<close>

fun without_F :: "nat \<Rightarrow> nat" where
  "without_F n = (if n < 16 then if n = 15 then 0 else n
     else 16 * without_F (n div 16) + (if n mod 16 = 15 then 0 else n mod 16))"

declare without_F.simps [simp del]

lemma hex_char_cases:
  assumes "d < 16"
  shows "isdigit16 (hex_char d) \<and>
    hex_digit_value (hex_char d) = of_nat (if d = 15 then 0 else d) \<and>
    (hex_char d = CHR ''F'' \<longleftrightarrow> d = 15)"
proof -
  have o: "(of_char (hex_char d) :: nat) = (if d < 10 then 48 + d else 55 + d)"
    using assms by (simp add: hex_char_def)
  have "hex_char d = CHR ''F'' \<longleftrightarrow> (of_char (hex_char d) :: nat) = of_char (CHR ''F'')"
    by (simp only: of_char_eq_iff)
  then have "hex_char d = CHR ''F'' \<longleftrightarrow> d = 15" using assms by (simp add: o)
  then show ?thesis using assms
    by (auto simp: isdigit16_def isdigit_def hex_digit_value_def Let_def o)
qed

lemma atoi16_show16:
  "atoi16_loop v (show16 n @ r) = atoi16_loop (v * 16 ^ length (show16 n) + of_nat (without_F n)) r"
proof (induction n arbitrary: v r rule: show16.induct)
  case (1 n)
  show ?case
  proof (cases "n < 16")
    case True
    then show ?thesis using hex_char_cases [of n]
      by (subst show16.simps, subst (2) show16.simps, subst without_F.simps) simp
  next
    case False
    have "show16 n = show16 (n div 16) @ [hex_char (n mod 16)]"
      using False by (subst show16.simps) simp
    moreover have "without_F n = 16 * without_F (n div 16) + (if n mod 16 = 15 then 0 else n mod 16)"
      using False by (subst without_F.simps) simp
    ultimately show ?thesis
      using 1 [OF False] hex_char_cases [of "n mod 16"] by (simp add: algebra_simps)
  qed
qed

lemma without_F_le: "without_F n \<le> n"
proof (induction n rule: without_F.induct)
  case (1 n)
  show ?case
  proof (cases "n < 16")
    case False
    then have "16 * without_F (n div 16) + n mod 16 \<le> 16 * (n div 16) + n mod 16"
      using 1 by (intro add_mono mult_le_mono) auto
    also have "\<dots> = n" by simp
    finally show ?thesis using False by (subst without_F.simps) auto
  qed (subst without_F.simps, simp)
qed

lemma without_F_eq: "without_F n = n \<longleftrightarrow> CHR ''F'' \<notin> set (show16 n)"
proof (induction n rule: without_F.induct)
  case (1 n)
  show ?case
  proof (cases "n < 16")
    case True
    then show ?thesis using hex_char_cases [of n]
      by (subst without_F.simps, subst show16.simps) auto
  next
    case False
    have e: "without_F n = 16 * without_F (n div 16) + (if n mod 16 = 15 then 0 else n mod 16)"
      using False by (subst without_F.simps) simp
    have "without_F n = n \<longleftrightarrow> without_F (n div 16) = n div 16 \<and> n mod 16 \<noteq> 15"
      unfolding e using without_F_le [of "n div 16"] by auto presburger+
    then show ?thesis using 1 [OF False] False hex_char_cases [of "n mod 16"]
      by (subst show16.simps) auto
  qed
qed

section \<open>What the line readers return\<close>

text \<open>
  What a reader relies on of \<^verbatim>\<open>read\<close>: it returns the number of bytes it stored, at most the
  number asked for; the bytes come in the order of the file; and it returns 0 for a positive
  size only at the end.
\<close>

definition delivers :: "(nat \<Rightarrow> 'w \<Rightarrow> (int \<times> string) \<times> 'w) \<Rightarrow> ('w \<Rightarrow> string) \<Rightarrow> bool" where
  "delivers rd stream \<longleftrightarrow> (\<forall>n w. case rd n w of ((count, dat), w') \<Rightarrow>
     int (length dat) = count \<and> length dat \<le> n \<and> stream w = dat @ stream w' \<and>
     (count = 0 \<and> 0 < n \<longrightarrow> stream w = []))"

definition line_of :: "string \<Rightarrow> string" where
  "line_of t = takeWhile (\<lambda>c. c \<noteq> CHR 0x0A) t"

definition rest_of :: "string \<Rightarrow> string" where
  "rest_of t = tl (dropWhile (\<lambda>c. c \<noteq> CHR 0x0A) t)"

definition rdline_wf :: "rdline_buffer \<Rightarrow> bool" where
  "rdline_wf b \<longleftrightarrow> length (rb_buffer b) = 1024 \<and> rb_next b \<le> rb_usage b \<and> rb_usage b \<le> 1023"

definition rdline_pending :: "rdline_buffer \<Rightarrow> string" where
  "rdline_pending b = drop (rb_next b) (take (rb_usage b) (rb_buffer b))"

lemma deliversD:
  assumes "delivers rd stream" "rd n w = ((count, dat), w')"
  shows "int (length dat) = count" "length dat \<le> n" "stream w = dat @ stream w'"
    "count = 0 \<Longrightarrow> 0 < n \<Longrightarrow> stream w = []"
  using assms unfolding delivers_def by (metis (mono_tags, lifting) case_prod_conv)+

lemma memchr_NoneD: "memchr buf c n = None \<Longrightarrow> c \<notin> set (take n buf)"
proof -
  assume "memchr buf c n = None"
  then have "length (take n buf) \<le> length (takeWhile (\<lambda>x. x \<noteq> c) (take n buf))"
    unfolding memchr_def Let_def by (metis option.distinct(1) not_le_imp_less)
  then have "takeWhile (\<lambda>x. x \<noteq> c) (take n buf) = take n buf"
    by (metis takeWhile_eq_take take_all_iff)
  then show ?thesis by (auto simp: takeWhile_eq_all_conv)
qed

lemma takeWhile_take: "p = length (takeWhile P xs) \<Longrightarrow> takeWhile P xs = take p xs \<and> dropWhile P xs = drop p xs"
  by (metis takeWhile_eq_take dropWhile_eq_drop)

lemma memchr_SomeD:
  assumes "memchr buf c n = Some p"
  shows "p < n" "p < length buf" "takeWhile (\<lambda>x. x \<noteq> c) (take n buf) = take p buf"
    "tl (dropWhile (\<lambda>x. x \<noteq> c) (take n buf)) = drop (Suc p) (take n buf)"
    "c \<in> set (take n buf)"
proof -
  let ?P = "\<lambda>x. x \<noteq> c"
  have p: "p = length (takeWhile ?P (take n buf))" "p < length (take n buf)"
    using assms by (auto simp: memchr_def Let_def split: if_splits)
  note t = takeWhile_take [OF p(1)]
  show n: "p < n" "p < length buf" using p(2) by auto
  show "takeWhile ?P (take n buf) = take p buf"
    using t n by (simp add: min_def)
  show "tl (dropWhile ?P (take n buf)) = drop (Suc p) (take n buf)"
    using t by (simp add: drop_Suc tl_drop)
  show "c \<in> set (take n buf)"
    using p nth_length_takeWhile [of ?P "take n buf"] by (metis nth_mem)
qed

lemma length_store_at: "pos + length dat \<le> length buf \<Longrightarrow> length (store_at buf pos dat) = length buf"
  by (simp add: store_at_def)

lemma take_store_at:
  "pos + length dat \<le> length buf \<Longrightarrow> take (pos + length dat) (store_at buf pos dat) = take pos buf @ dat"
  by (simp add: store_at_def)

lemma line_split: "CHR 0x0A \<in> set s \<Longrightarrow> line_of (s @ t) = line_of s \<and> rest_of (s @ t) = rest_of s @ t"
  by (induction s) (auto simp: line_of_def rest_of_def)

lemma line_all: "CHR 0x0A \<notin> set s \<Longrightarrow> line_of s = s \<and> rest_of s = []"
  by (induction s) (auto simp: line_of_def rest_of_def)

lemma line_no_nl: "CHR 0x0A \<notin> set s \<Longrightarrow> length s \<le> length (line_of (s @ t))"
  by (induction s) (auto simp: line_of_def)

lemma cstr_update: "p < length buf \<Longrightarrow> is_cstr (take p buf) \<Longrightarrow> cstr (buf[p := NUL]) = take p buf"
  by (simp add: upd_conv_take_nth_drop cstr_terminated)

lemma is_cstr_line: "is_cstr t \<Longrightarrow> is_cstr (line_of t)"
  by (auto simp: is_cstr_def line_of_def dest: set_takeWhileD)

declare readline_loop.simps [simp del]

lemma readline_loop_line:
  assumes "delivers rd stream" "length (rb_buffer b) = 1024" "rb_usage b \<le> 1023" "rb_next b = 0"
    "tx = take (rb_usage b) (rb_buffer b) @ stream w" "is_cstr tx" "length (line_of tx) < 1023"
    "eof \<longrightarrow> stream w = []"
  shows "\<exists>b' w'. readline_loop rd eof b w = Some (if tx = [] then None else Some (line_of tx), b', w') \<and>
    rdline_wf b' \<and> rdline_pending b' @ stream w' = rest_of tx"
  using assms
proof (induction rd eof b w arbitrary: tx rule: readline_loop.induct)
  case (1 rd eof b w)
  let ?u = "rb_usage b" and ?buf = "rb_buffer b"
  let ?m = "if 0 < ?u then memchr ?buf (CHR 0x0A) ?u else None"
  show ?case
  proof (cases ?m)
    case (Some p)
    then have m: "memchr ?buf (CHR 0x0A) ?u = Some p" by (auto split: if_splits)
    note p = memchr_SomeD [OF m]
    then have l: "line_of tx = take p ?buf" "rest_of tx = drop (Suc p) (take ?u ?buf) @ stream w"
      using line_split [OF p(5), of "stream w"] 1(6) by (simp_all add: line_of_def rest_of_def)
    have "is_cstr (take p ?buf)" using is_cstr_line [OF 1(7)] l(1) by simp
    moreover have "tx \<noteq> []" "0 < ?u" using 1(6) p(1,5) by auto
    ultimately show ?thesis using m p l 1(3,4)
      by (subst readline_loop.simps) (simp add: cstr_update rdline_wf_def rdline_pending_def drop_take)
  next
    case None
    then have nl: "CHR 0x0A \<notin> set (take ?u ?buf)"
      using memchr_NoneD by (auto split: if_splits)
    show ?thesis
    proof (cases eof)
      case True
      then have t: "tx = take ?u ?buf" using 1 by simp
      then show ?thesis using None True 1(3-) nl line_all [OF nl] cstr_update [of ?u ?buf]
        by (subst readline_loop.simps) (auto simp: rdline_wf_def rdline_pending_def)
    next
      case False
      obtain count dat w' where rd: "rd (1024 - ?u - 1) w = ((count, dat), w')" by (metis surj_pair)
      note d = deliversD [OF 1(2) rd]
      have "length (take ?u ?buf) < 1023"
        using line_no_nl [OF nl, of "stream w"] 1(6,8) by simp
      then have u: "?u < 1023" using 1(3,4) by simp
      then have "?u + length dat \<le> 1023" using d(2) by simp
      then have step: "readline_loop rd eof b w = readline_loop rd (count = 0)
          (b\<lparr>rb_buffer := store_at ?buf ?u dat, rb_usage := ?u + length dat\<rparr>) w'"
        using None False rd d(1) by (subst readline_loop.simps) simp
      have "count = 0 \<longrightarrow> stream w' = []" using d u by auto
      then show ?thesis
        unfolding step
        using 1(1) [OF None False rd [symmetric] refl, of tx] 1(2-8) d u \<open>?u + length dat \<le> 1023\<close>
        by (simp add: length_store_at take_store_at)
    qed
  qed
qed

lemma readline_line:
  assumes "delivers rd stream" "rdline_wf b"
    "is_cstr (rdline_pending b @ stream w)" "length (line_of (rdline_pending b @ stream w)) < 1023"
  shows "\<exists>b' w'. readline rd b w =
      Some (if rdline_pending b @ stream w = [] then None
            else Some (line_of (rdline_pending b @ stream w)), b', w') \<and>
    rdline_wf b' \<and> rdline_pending b' @ stream w' = rest_of (rdline_pending b @ stream w)"
proof -
  let ?n = "rb_usage b - rb_next b"
  define c where "c = (if rb_next b \<noteq> 0
      then b\<lparr>rb_buffer := move_front (rb_buffer b) (rb_next b) ?n, rb_usage := ?n, rb_next := 0\<rparr> else b)"
  have "length (rb_buffer c) = 1024" "rb_usage c \<le> 1023" "rb_next c = 0"
    using assms(2) by (auto simp: c_def rdline_wf_def move_front_def)
  moreover have "take (rb_usage c) (rb_buffer c) = rdline_pending b"
    using assms(2) by (auto simp: c_def rdline_wf_def move_front_def rdline_pending_def drop_take)
  ultimately have "\<exists>b' w'. readline_loop rd False c w =
      Some (if rdline_pending b @ stream w = [] then None
            else Some (line_of (rdline_pending b @ stream w)), b', w') \<and>
    rdline_wf b' \<and> rdline_pending b' @ stream w' = rest_of (rdline_pending b @ stream w)"
    using readline_loop_line [of rd stream c "rdline_pending b @ stream w" w False] assms by simp
  moreover have "readline rd b w = readline_loop rd False c w"
    by (simp only: readline_def c_def)
  ultimately show ?thesis by simp
qed

definition simple_readline_wf :: "simple_readline_buf \<Rightarrow> bool" where
  "simple_readline_wf b \<longleftrightarrow> length (sb_buf b) = 512 \<and> 0 \<le> sb_used b \<and> sb_used b \<le> 512"

definition simple_readline_pending :: "simple_readline_buf \<Rightarrow> string" where
  "simple_readline_pending b = take (nat (sb_used b)) (sb_buf b)"

lemma find_nl_line:
  assumes "delivers rd stream" "simple_readline_wf b" "tx = simple_readline_pending b @ stream w"
    "length (line_of tx) < 512"
  shows "\<exists>b' w'. find_nl rd b w = Some (if tx = [] then None else Some (length (line_of tx)), b', w') \<and>
    simple_readline_wf b' \<and> simple_readline_pending b' @ stream w' = tx \<and>
    (CHR 0x0A \<in> set (simple_readline_pending b') \<or> stream w' = [])"
  using assms(2-)
proof (induction "512 - nat (sb_used b)" arbitrary: b w rule: less_induct)
  case less
  let ?u = "nat (sb_used b)" and ?buf = "sb_buf b"
  let ?m = "if sb_used b = 0 then None else memchr ?buf (CHR 0x0A) ?u"
  have range: "\<not> (sb_used b < 0 \<or> 512 < sb_used b)" using less(2) by (auto simp: simple_readline_wf_def)
  show ?case
  proof (cases ?m)
    case (Some p)
    then have m: "memchr ?buf (CHR 0x0A) ?u = Some p" "sb_used b \<noteq> 0" by (auto split: if_splits)
    note p = memchr_SomeD [OF m(1)]
    have "line_of tx = take p ?buf"
      using line_split [OF p(5), of "stream w"] less(3) p(3)
      by (simp add: line_of_def simple_readline_pending_def)
    then have "length (line_of tx) = p" using p(2) by simp
    then show ?thesis using m p(5) less(2,3) range
      by (subst find_nl.simps) (auto simp: simple_readline_pending_def)
  next
    case None
    then have nl: "CHR 0x0A \<notin> set (simple_readline_pending b)"
      using memchr_NoneD by (auto simp: simple_readline_pending_def split: if_splits)
    then have short: "?u < 512"
      using line_no_nl [OF nl, of "stream w"] less(2-4)
      by (simp add: simple_readline_wf_def simple_readline_pending_def)
    obtain count dat w' where rd: "rd (512 - ?u) w = ((count, dat), w')" by (metis surj_pair)
    note d = deliversD [OF assms(1) rd]
    show ?thesis
    proof (cases "count = 0")
      case True
      then have s: "stream w = []" "stream w' = []" using d short by auto
      then have "line_of tx = tx" "length tx = ?u"
        using line_all [OF nl] less(2,3) by (auto simp: simple_readline_wf_def simple_readline_pending_def)
      then show ?thesis using None rd True s less(2,3) range short
        by (subst find_nl.simps) (auto simp: simple_readline_pending_def)
    next
      case False
      let ?b = "b\<lparr>sb_buf := store_at ?buf ?u dat, sb_used := sb_used b + count\<rparr>"
      have fits: "?u + length dat \<le> length ?buf"
        using d(2) short less(2) by (simp add: simple_readline_wf_def)
      have n: "nat (sb_used b + count) = ?u + length dat" using range d(1) by auto
      have "simple_readline_wf ?b" "simple_readline_pending ?b @ stream w' = tx"
        using fits less(2,3) d n range
        by (auto simp: simple_readline_wf_def simple_readline_pending_def length_store_at take_store_at)
      moreover have "find_nl rd b w = find_nl rd ?b w'"
        using None rd False range short by (subst find_nl.simps) auto
      moreover have "512 - nat (sb_used ?b) < 512 - ?u" using n d(1) False short by simp
      ultimately show ?thesis using less(1) [of ?b w'] less(4) by simp
    qed
  qed
qed

lemma line_shorter:
  assumes "CHR 0x0A \<in> set s"
  shows "length (line_of s) < length s" "line_of s = take (length (line_of s)) s"
    "rest_of s = drop (Suc (length (line_of s))) s"
  using assms by (induction s) (auto simp: line_of_def rest_of_def)

lemma simple_readline_line:
  assumes "delivers rd stream" "simple_readline_wf b" "tx = simple_readline_pending b @ stream w"
    "line_of tx \<noteq> []" "length (line_of tx) < 512" "int (length (line_of tx)) < max_out"
  shows "\<exists>b' w'. simple_readline rd b max_out w = Some (Some (line_of tx), b', w') \<and>
    simple_readline_wf b' \<and> simple_readline_pending b' @ stream w' = rest_of tx"
proof -
  let ?n = "length (line_of tx)"
  have ne: "tx \<noteq> []" using assms(4) by (auto simp: line_of_def)
  then obtain c v where c: "find_nl rd b w = Some (Some ?n, c, v)" "simple_readline_wf c"
    "simple_readline_pending c @ stream v = tx"
    "CHR 0x0A \<in> set (simple_readline_pending c) \<or> stream v = []"
    using find_nl_line [OF assms(1-3,5)] by auto
  let ?P = "simple_readline_pending c" and ?u = "nat (sb_used c)"
  have len: "min (max_out - 1) (int ?n) = int ?n" using assms(6) by simp
  have u: "length ?P = ?u" "0 \<le> sb_used c" "?u \<le> 512" "length (sb_buf c) = 512"
    using c(2) by (auto simp: simple_readline_wf_def simple_readline_pending_def)
  show ?thesis
  proof (cases "CHR 0x0A \<in> set ?P")
    case True
    have l: "line_of tx = line_of ?P" "rest_of tx = rest_of ?P @ stream v"
      using line_split [OF True] c(3) by auto
    have n: "?n < ?u" "line_of ?P = take ?n ?P" "rest_of ?P = drop (Suc ?n) ?P"
      using line_shorter [OF True] u(1) l(1) by simp_all
    have b: "take ?n (sb_buf c) = line_of tx" using n l(1) u
      by (metis simple_readline_pending_def take_take min.absorb1 less_imp_le_nat)
    have used: "(if sb_used c - int ?n \<noteq> 0 then sb_used c - int ?n - 1 else sb_used c - int ?n) =
      int (?u - ?n - 1)" using n(1) u(2) by auto
    let ?k = "?u - ?n - 1"
    define b' where "b' = c\<lparr>sb_buf := if int ?k \<noteq> 0 then move_front (sb_buf c) (?n + 1) (nat (int ?k)) else sb_buf c,
      sb_used := int ?k\<rparr>"
    have ok: "(?n = 0) = False" "(int ?n < 0 \<or> (int ?k \<noteq> 0 \<and> 512 < int ?n + 1 + int ?k)) = False"
      using assms(4) u n(1) by auto
    have "simple_readline rd b max_out w = Some (Some (line_of tx), b', v)"
      unfolding simple_readline_def c(1)
      by (simp only: option.case prod.case Let_def len used ok if_False nat_int b b'_def)
    moreover have "simple_readline_wf b'"
      using u n(1) by (auto simp: b'_def simple_readline_wf_def move_front_def)
    moreover have "nat (sb_used c - (1 + int ?n)) = ?u - Suc ?n" using u(2) by auto
    then have "simple_readline_pending b' = drop (Suc ?n) ?P"
      using u n(1) by (auto simp: b'_def simple_readline_pending_def move_front_def drop_take)
    then have "simple_readline_pending b' @ stream v = rest_of tx" using l(2) n(3) by simp
    ultimately show ?thesis by blast
  next
    case False
    then have "stream v = []" "tx = ?P" using c(3,4) by auto
    then have "line_of tx = ?P" "rest_of tx = []" using line_all [OF False] by auto
    then show ?thesis using c(1) assms(4) len u \<open>stream v = []\<close> \<open>tx = ?P\<close>
      by (auto simp: simple_readline_def Let_def simple_readline_wf_def simple_readline_pending_def)
  qed
qed

section \<open>Properties\<close>

text \<open>
  C24: bounded formatting. For a buffer of at least \<open>m > 0\<close> bytes, \<^verbatim>\<open>__simple_vsnprintf\<close>
  never writes outside the first \<open>m\<close> bytes: it stores the longest prefix of the formatted text
  that leaves room for the terminator, then the NUL, leaves the rest of the buffer alone, and
  returns the length of the whole text (as an \<^verbatim>\<open>int\<close>). It fails exactly for the formats
  and arguments that denote no text.
\<close>

theorem simple_vsnprintf_render:
  assumes "0 < m" "m \<le> length buf"
  shows "simple_vsnprintf buf m format vl =
    map_option (\<lambda>s. (take (m - 1) s @ NUL # drop (min (length s) (m - 1) + 1) buf,
                     sint (word_of_nat (length s) :: u32)))
      (render format vl)"
  using assms by (rule render_vsnprintf)

theorem simple_vsnprintf_render_witness:
  "simple_vsnprintf ''........'' 5 ''a%s'' [VStr (Some ''bcdef'')] = Some (''abcd'' @ NUL # ''...'', 6)"
  using simple_vsnprintf_render [of 5 "''........''" "''a%s''" "[VStr (Some ''bcdef'')]"]
  by (simp add: conv_text_def)

text \<open>
  The local arrays of the conversions are large enough: a number printed with \<^verbatim>\<open>%u\<close> or
  \<^verbatim>\<open>%d\<close> takes at most 10 of the 16 bytes of \<^verbatim>\<open>temp\<close>, one printed with \<^verbatim>\<open>%x\<close> at most 16 of 40;
  and the digits emitted in reverse are the numeral of the number.
\<close>

lemma temp_bounds:
  "length (temp_u (unat (n :: u32))) \<le> 10 \<and> length (temp_x (unat (k :: u64))) \<le> 16 \<and>
   rev (temp_u (unat n)) = show10 (unat n) \<and> rev (temp_x (unat k)) = show16 (unat k)"
proof -
  have "unat n < 10 ^ 10" using unat_less [of n] by simp
  then have "length (rev (temp_u (unat n))) \<le> 10" using length_show10 [of 10 "unat n"] by simp
  moreover have "unat k < 16 ^ 16" using unat_less [of k] by simp
  then have "length (rev (temp_x (unat k))) \<le> 16" using length_show16 [of 16 "unat k"] by simp
  ultimately show ?thesis by (simp del: rev_temp_u rev_temp_x add: rev_temp_u [symmetric] rev_temp_x [symmetric])
qed

text \<open>
  Printing and parsing a number. What \<^verbatim>\<open>%u\<close> prints for \<open>n\<close> is read back by
  \<^verbatim>\<open>__simple_atoi\<close>, which stops at the first character that is no digit.
\<close>

lemma simple_atoi_roundtrip:
  assumes "rest = [] \<or> \<not> isdigit (hd rest)"
  shows "render ''%u'' [VNum n] = Some (show10 (unat (ucast n :: u32))) \<and>
    simple_atoi (show10 (unat (ucast n :: u32)) @ rest) = (ucast (ucast n :: u32), rest)"
proof -
  have "atoi_loop v rest = (v, rest)" for v using assms by (cases rest) auto
  then have "simple_atoi (show10 (unat m) @ rest) = (ucast m, rest)" for m :: u32
    by (simp add: simple_atoi_def atoi_show10)
  then show ?thesis by (simp add: conv_text_def)
qed

theorem simple_atoi_roundtrip_witness:
  "simple_atoi (show10 (unat (ucast (1234 :: u64) :: u32)) @ '' kB'') = (ucast (ucast (1234 :: u64) :: u32), '' kB'')"
  using simple_atoi_roundtrip [of "'' kB''" 1234] by (simp add: isdigit_def)

text \<open>
  Hexadecimal numbers. What \<^verbatim>\<open>%x\<close> prints for \<open>n\<close> is read back by \<^verbatim>\<open>__simple_atoi16\<close>
  exactly if the numeral has no digit F: the parser counts an upper-case F as 0.
\<close>

lemma simple_atoi16_roundtrip:
  "(simple_atoi16 (show16 (unat n)) = (n, '''')) = (CHR ''F'' \<notin> set (show16 (unat n)))"
proof -
  have "without_F (unat n) < 2 ^ 64"
    using without_F_le [of "unat n"] unat_less [of n] by simp
  then have "(of_nat (without_F (unat n)) :: u64) = n \<longleftrightarrow> without_F (unat n) = unat n"
    by (simp add: word_unat_eq_iff unsigned_of_nat take_bit_nat_eq_self)
  then show ?thesis
    using atoi16_show16 [of 0 "unat n" "''''"] without_F_eq [of "unat n"] by (simp add: simple_atoi16_def)
qed

text \<open>
  C26: reading lines. If \<^verbatim>\<open>read\<close> delivers the bytes of a file in order, \<^verbatim>\<open>_readline\<close> returns,
  for any splitting into reads, the next line of the bytes not yet returned, without its newline,
  \<^verbatim>\<open>NULL\<close> exactly at the end, and leaves exactly the bytes after that newline for the next call;
  the line must be shorter than 1023 bytes and the bytes free of NUL.
\<close>

theorem readline_next_line:
  assumes "delivers rd stream" "rdline_wf b"
    "is_cstr (rdline_pending b @ stream w)" "length (line_of (rdline_pending b @ stream w)) < 1023"
  shows "\<exists>b' w'. readline rd b w =
      Some (if rdline_pending b @ stream w = [] then None
            else Some (line_of (rdline_pending b @ stream w)), b', w') \<and>
    rdline_wf b' \<and> rdline_pending b' @ stream w' = rest_of (rdline_pending b @ stream w)"
  using assms by (rule readline_line)

text \<open>A file read in pieces of at most 3 bytes, for the witnesses.\<close>

definition read3 :: "nat \<Rightarrow> string \<Rightarrow> (int \<times> string) \<times> string" where
  "read3 n s = ((int (length (take (min n 3) s)), take (min n 3) s), drop (min n 3) s)"

lemma read3_delivers: "delivers read3 id"
  by (auto simp: delivers_def read3_def min_def split: if_splits)

theorem readline_next_line_witness:
  "\<exists>b' w'. readline read3 \<lparr>rb_buffer = replicate 1024 NUL, rb_usage = 0, rb_next = 0\<rparr>
     (''first'' @ CHR 0x0A # ''second'') = Some (Some ''first'', b', w') \<and>
   rdline_pending b' @ w' = ''second''"
  using readline_next_line [OF read3_delivers,
      of "\<lparr>rb_buffer = replicate 1024 NUL, rb_usage = 0, rb_next = 0\<rparr>" "''first'' @ CHR 0x0A # ''second''"]
  by (auto simp: rdline_wf_def rdline_pending_def line_of_def rest_of_def)

text \<open>
  \<^verbatim>\<open>__simple_readline\<close> returns, and returns the next line, if that line is not empty,
  shorter than 512 bytes and shorter than the caller's buffer; the bytes after its newline are
  left for the next call.
\<close>

lemma simple_readline_next_line:
  assumes "delivers rd stream" "simple_readline_wf b" "tx = simple_readline_pending b @ stream w"
    "line_of tx \<noteq> []" "length (line_of tx) < 512" "int (length (line_of tx)) < max_out"
  shows "\<exists>b' w'. simple_readline rd b max_out w = Some (Some (line_of tx), b', w') \<and>
    simple_readline_wf b' \<and> simple_readline_pending b' @ stream w' = rest_of tx"
  using assms by (rule simple_readline_line)

lemma simple_readline_next_line_witness:
  "\<exists>b' w'. simple_readline read3 \<lparr>sb_buf = replicate 512 NUL, sb_used = 0\<rparr> 100
     (''first'' @ CHR 0x0A # ''second'') = Some (Some ''first'', b', w') \<and>
   simple_readline_pending b' @ w' = ''second''"
  using simple_readline_next_line [OF read3_delivers _ refl,
      of "\<lparr>sb_buf = replicate 512 NUL, sb_used = 0\<rparr>" "''first'' @ CHR 0x0A # ''second''" 100]
  by (auto simp: simple_readline_wf_def simple_readline_pending_def line_of_def rest_of_def)

end
