(* ===== verification/VChroot.thy ===== *)
theory VChroot
  imports Simple
begin

text \<open>
  Path resolution inside the prefix: \<^verbatim>\<open>vchroot_userspace.c\<close>. Every path an emulated process
  names is rewritten, component by component, into a path of the Linux system below the
  prefix directory; \<^verbatim>\<open>/Volumes/SystemRoot\<close> leads out of the prefix, symbolic links are followed
  inside it, and names are matched without regard to case where no exact match exists.

  The Linux calls are parameters, the fields of the record \<open>vfs\<close>: functions of the outside
  world that return a result and the world afterwards. A character array is the string it
  holds; an access outside an array is the result \<open>None\<close>. The counter \<^verbatim>\<open>symlink_depth\<close>, which
  the code increments before and decrements after the nested call, is an argument.
\<close>

section \<open>The calls and the context\<close>

record 'w vfs =
  vfs_readlink :: "string \<Rightarrow> nat \<Rightarrow> 'w \<Rightarrow> (int \<times> string) \<times> 'w"
  vfs_lstat :: "string \<Rightarrow> 'w \<Rightarrow> (int \<times> u32) \<times> 'w"
  vfs_open :: "string \<Rightarrow> int \<Rightarrow> 'w \<Rightarrow> int \<times> 'w"
  vfs_getdents :: "int \<Rightarrow> 'w \<Rightarrow> string list list \<times> 'w"
  vfs_close :: "int \<Rightarrow> 'w \<Rightarrow> 'w"
  lkm_vchroot :: "int \<Rightarrow> 'w \<Rightarrow> int \<times> 'w"
  lkm_vchroot_expand :: "string \<Rightarrow> 'w \<Rightarrow> string \<times> 'w"
  icase_enabled :: bool

record vcontext =
  current_root :: string
  current_root_len :: nat
  current_path :: string
  current_path_len :: nat
  unknown_component :: bool
  follow :: bool

definition EXIT_PATH :: string where "EXIT_PATH = ''/Volumes/SystemRoot''"

definition PATH_SIZE :: nat where "PATH_SIZE = 4096"

abbreviation (input) MAX_SYMLINK_DEPTH :: nat where "MAX_SYMLINK_DEPTH \<equiv> 10"

definition LINUX_ENOENT :: int where "LINUX_ENOENT = 2"

definition LINUX_ELOOP :: int where "LINUX_ELOOP = 40"

definition LINUX_ENAMETOOLONG :: int where "LINUX_ENAMETOOLONG = 36"

text \<open>\<^verbatim>\<open>__simple_sprintf(buf, "/proc/self/fd/%d", fd)\<close>\<close>

definition fd_link :: "int \<Rightarrow> string" where
  "fd_link fd = ''/proc/self/fd/'' @ show_d fd"

section \<open>One component\<close>

text \<open>\<^verbatim>\<open>next_component\<close>: the component, the text at \<^verbatim>\<open>*end\<close>, and whether there is one.\<close>

definition next_component :: "string \<Rightarrow> string \<times> string \<times> bool" where
  "next_component from = (takeWhile (\<lambda>c. c \<noteq> CHR ''/'') from, dropWhile (\<lambda>c. c \<noteq> CHR ''/'') from, from \<noteq> [])"

text \<open>Storing at the index \<^verbatim>\<open>current_path_len\<close>, with the NUL behind it.\<close>

definition store_path :: "string \<Rightarrow> vcontext \<Rightarrow> vcontext option" where
  "store_path s c =
     (if current_path_len c + length s < PATH_SIZE \<and> current_path_len c \<le> length (current_path c)
      then Some (c\<lparr>current_path := take (current_path_len c) (current_path c) @ s,
                   current_path_len := current_path_len c + length s\<rparr>)
      else None)"

text \<open>The last index of a character: the loop \<^verbatim>\<open>while (*p != '/') p--\<close>.\<close>

fun last_index :: "char \<Rightarrow> string \<Rightarrow> nat option" where
  "last_index c [] = None"
| "last_index c (x # xs) =
     (case last_index c xs of Some i \<Rightarrow> Some (Suc i) | None \<Rightarrow> if x = c then Some 0 else None)"

text \<open>
  The component \<^verbatim>\<open>..\<close>, after the slash has been appended: from the empty path back into the
  prefix at the exit directory, then up to the last slash, with an error below the root.
\<close>

definition reenter :: "string \<Rightarrow> vcontext \<Rightarrow> vcontext option" where
  "reenter prefix_path c =
     (if current_path_len c \<le> 1 then
        if length prefix_path + length EXIT_PATH + 1 < PATH_SIZE
        then Some (c\<lparr>current_path := prefix_path @ EXIT_PATH @ ''/'',
               current_path_len := length prefix_path + (length EXIT_PATH + 1),
               current_root := prefix_path, current_root_len := length prefix_path\<rparr>)
        else None
      else Some c)"

definition dot_dot :: "string \<Rightarrow> vcontext \<Rightarrow> (int \<times> vcontext) option" where
  "dot_dot prefix_path c0 =
     (case reenter prefix_path c0 of
        None \<Rightarrow> None
      | Some c \<Rightarrow>
          (case last_index (CHR ''/'') (take (current_path_len c - 1) (current_path c)) of
             None \<Rightarrow> None
           | Some p \<Rightarrow>
               (let c' = c\<lparr>current_path := take p (current_path c), current_path_len := p\<rparr> in
                Some (if p < current_root_len c then - LINUX_ENOENT else 0, c'))))"

text \<open>
  The search without regard to case, in the directory above: the first entry, over all batches
  that \<^verbatim>\<open>getdents64\<close> returns, whose name matches. \<open>prevlen\<close> is the length up to the component.
\<close>

definition icase_search :: "'w vfs \<Rightarrow> nat \<Rightarrow> string \<Rightarrow> vcontext \<Rightarrow> 'w \<Rightarrow> vcontext \<times> 'w" where
  "icase_search V prevlen nm c w =
     (let dir = take (prevlen - 1) (current_path c);
          (dfd, w) = vfs_open V (if prevlen > 1 then dir else ''/'') 0 w
      in if dfd < 0 then (c\<lparr>unknown_component := True\<rparr>, vfs_close V dfd w)
         else let (batches, w) = vfs_getdents V dfd w in
           (case find (\<lambda>n. strcasecmp_eq (cstr n) nm) (concat batches) of
              Some n \<Rightarrow> (c\<lparr>current_path := take prevlen (current_path c) @ cstr n\<rparr>, vfs_close V dfd w)
            | None \<Rightarrow> (c\<lparr>unknown_component := True\<rparr>, vfs_close V dfd w)))"

text \<open>What follows from a component: an error, the next component, or a link to resolve first.\<close>

datatype 'w step = Stop int vcontext 'w | Go vcontext 'w | Link string vcontext 'w

definition is_symlink :: "u32 \<Rightarrow> bool" where
  "is_symlink st_mode \<longleftrightarrow> st_mode AND 0xF000 = 0xA000"

definition read_symlink :: "'w vfs \<Rightarrow> nat \<Rightarrow> vcontext \<Rightarrow> 'w \<Rightarrow> 'w step" where
  "read_symlink V prevlen c w =
     (let ((rv, bytes), w) = vfs_readlink V (current_path c) 511 w in
      if rv < 0 then Stop rv c w
      else let link = cstr (take (nat rv) bytes) in
        if strncmp_eq (current_path c) ''/proc'' 5 \<and> CHR '':'' \<in> set link then Go c w
        else if take 1 link \<noteq> ''/''
          then Link link (c\<lparr>current_path := take (prevlen - 1) (current_path c),
                            current_path_len := prevlen - 1\<rparr>) w
          else Link link c w)"

definition component :: "'w vfs \<Rightarrow> string \<Rightarrow> bool \<Rightarrow> vcontext \<Rightarrow> 'w \<Rightarrow> 'w step option" where
  "component V nm more_input c0 w =
     (if length nm + current_path_len c0 + 2 > PATH_SIZE then Some (Stop (- LINUX_ENOENT) c0 w)
      else case store_path nm c0 of
        None \<Rightarrow> None
      | Some c \<Rightarrow>
          let prevlen = current_path_len c0 in
          if unknown_component c then Some (Go c w)
          else let ((status, st_mode), w) = vfs_lstat V (current_path c) w in
            if icase_enabled V \<and> status = - LINUX_ENOENT then
              (case icase_search V prevlen nm c w of (c', w') \<Rightarrow> Some (Go c' w'))
            else if status = 0 \<and> is_symlink st_mode \<and> (follow c \<or> more_input)
              then Some (read_symlink V prevlen c w)
            else Some (Go c w))"

text \<open>At \<^verbatim>\<open>ignore_symlink\<close>: the exit path leads to the real root.\<close>

definition exit_check :: "vcontext \<Rightarrow> vcontext" where
  "exit_check c =
     (if current_root_len c > 0 \<and> int (current_path_len c) - int (current_root_len c) = int (length EXIT_PATH) \<and>
         strncasecmp_eq (drop (current_root_len c) (current_path c)) EXIT_PATH (length EXIT_PATH)
      then c\<lparr>current_path := '''', current_path_len := 0, current_root := '''', current_root_len := 0\<rparr>
      else c)"

section \<open>The whole path\<close>

text \<open>The beginning of \<^verbatim>\<open>vchroot_run\<close>: the depth test, and an absolute path starts at the root.\<close>

definition vchroot_enter :: "nat \<Rightarrow> string \<Rightarrow> vcontext \<Rightarrow> int + (string \<times> vcontext)" where
  "vchroot_enter depth input c =
     (if depth > MAX_SYMLINK_DEPTH then Inl (- LINUX_ELOOP)
      else if take 1 input = ''/''
        then Inr (drop 1 input, c\<lparr>current_path := current_root c,
                                  current_path_len := length (current_root c)\<rparr>)
        else Inr (input, c))"

lemma vchroot_enter_depth: "vchroot_enter depth input c = Inr x \<Longrightarrow> depth \<le> MAX_SYMLINK_DEPTH"
  by (auto simp: vchroot_enter_def split: if_splits)

lemma rest_shorter:
  "input \<noteq> [] \<Longrightarrow> length (dropWhile (\<lambda>c. c = CHR ''/'') (dropWhile (\<lambda>c. c \<noteq> CHR ''/'') input)) < length input"
proof (induction input)
  case (Cons x xs)
  have "length (dropWhile P (dropWhile Q xs)) \<le> length xs" for P Q
    using length_dropWhile_le [of P "dropWhile Q xs"] length_dropWhile_le [of Q xs] by linarith
  moreover have "length (dropWhile P xs) \<le> length xs" for P by (rule length_dropWhile_le)
  ultimately show ?case by (auto simp: less_Suc_eq_le)
qed simp

text \<open>The loop of \<^verbatim>\<open>vchroot_run\<close> over the components, and the nested run for a link.\<close>

function (sequential) vchroot_loop ::
    "'w vfs \<Rightarrow> string \<Rightarrow> nat \<Rightarrow> string \<Rightarrow> vcontext \<Rightarrow> 'w \<Rightarrow> (int \<times> vcontext \<times> 'w) option" where
  "vchroot_loop V prefix_path depth input c w =
     (case next_component input of (nm, end, ok) \<Rightarrow>
      let rest = dropWhile (\<lambda>c. c = CHR ''/'') end in
      if \<not> ok then Some (0, c, w)
      else if nm = ''.'' \<or> nm = [] then vchroot_loop V prefix_path depth rest c w
      else case store_path ''/'' c of
        None \<Rightarrow> None
      | Some c \<Rightarrow>
          if nm = ''..'' then
            (case dot_dot prefix_path c of
               None \<Rightarrow> None
             | Some (rv, c) \<Rightarrow>
                 if rv \<noteq> 0 then Some (rv, c, w) else vchroot_loop V prefix_path depth rest c w)
          else
            (case component V nm (end \<noteq> []) c w of
               None \<Rightarrow> None
             | Some (Stop rv c w) \<Rightarrow> Some (rv, c, w)
             | Some (Go c w) \<Rightarrow> vchroot_loop V prefix_path depth rest (exit_check c) w
             | Some (Link link c w) \<Rightarrow>
                 let orig_follow = follow c;
                     c1 = c\<lparr>follow := True\<rparr>;
                     c2 = (if take 1 link = ''/''
                           then c1\<lparr>current_root := prefix_path, current_root_len := length prefix_path\<rparr>
                           else c1)
                 in case vchroot_enter (depth + 1) link c2 of
                      Inl rv \<Rightarrow> Some (rv, c2\<lparr>follow := orig_follow\<rparr>, w)
                    | Inr (link', c3) \<Rightarrow>
                        (case vchroot_loop V prefix_path (depth + 1) link' c3 w of
                           None \<Rightarrow> None
                         | Some (rv, c4, w) \<Rightarrow>
                             let c5 = c4\<lparr>follow := orig_follow\<rparr> in
                             if rv \<noteq> 0 then Some (rv, c5, w)
                             else vchroot_loop V prefix_path depth rest (exit_check c5) w)))"
  by pat_completeness auto

termination
proof (relation "measures [\<lambda>(V, p, d, i, c, w). MAX_SYMLINK_DEPTH + 1 - d, \<lambda>(V, p, d, i, c, w). length i]",
    goal_cases)
  case 1
  show ?case by simp
qed (auto simp: next_component_def dest: vchroot_enter_depth intro!: rest_shorter)

definition vchroot_run ::
    "'w vfs \<Rightarrow> string \<Rightarrow> nat \<Rightarrow> string \<Rightarrow> vcontext \<Rightarrow> 'w \<Rightarrow> (int \<times> vcontext \<times> 'w) option" where
  "vchroot_run V prefix_path depth input c w =
     (case vchroot_enter depth input c of
        Inl rv \<Rightarrow> Some (rv, c, w)
      | Inr (input', c') \<Rightarrow> vchroot_loop V prefix_path depth input' c' w)"

section \<open>The entry points\<close>

text \<open>
  The static \<^verbatim>\<open>prefix_path\<close> is \<open>None\<close> before its initialisation (\<^verbatim>\<open>prefix_path_len == -1\<close>).
  \<^verbatim>\<open>__darling_vchroot\<close> stores the prefix; a failed \<^verbatim>\<open>readlink\<close> would index with a negative number.
\<close>

definition darling_vchroot ::
    "'w vfs \<Rightarrow> int \<Rightarrow> string option \<Rightarrow> 'w \<Rightarrow> (int \<times> string option \<times> 'w) option" where
  "darling_vchroot V dfd st w =
     (let (rv, w) = lkm_vchroot V dfd w in
      if rv \<noteq> 0 then Some (rv, st, w)
      else let ((rv, bytes), w) = vfs_readlink V (fd_link dfd) (PATH_SIZE - 1) w in
        if rv < 0 then None
        else Some (0, Some (cstr (take (nat rv) bytes)), w))"

definition init_vchroot_path :: "'w vfs \<Rightarrow> 'w \<Rightarrow> string \<times> 'w" where
  "init_vchroot_path V w =
     (let (path, w) = lkm_vchroot_expand V ''/'' w in
      (if path \<noteq> [] \<and> last path = CHR ''/'' then butlast path else path, w))"

definition get_prefix :: "'w vfs \<Rightarrow> string option \<Rightarrow> 'w \<Rightarrow> string \<times> 'w" where
  "get_prefix V st w = (case st of Some p \<Rightarrow> (p, w) | None \<Rightarrow> init_vchroot_path V w)"

record vchroot_expand_args =
  ea_path :: string
  ea_dfd :: int
  ea_follow :: bool

text \<open>Where a relative path starts, and whether that is outside the prefix already.\<close>

definition start_context :: "string \<Rightarrow> bool \<Rightarrow> vcontext" where
  "start_context prefix_path fol = \<lparr>current_root = prefix_path, current_root_len = length prefix_path,
     current_path = '''', current_path_len = 0, unknown_component = False, follow = fol\<rparr>"

definition start_relative :: "int \<Rightarrow> string \<Rightarrow> vcontext \<Rightarrow> vcontext" where
  "start_relative rv bytes c =
     (let c1 = (if rv = 1 \<and> take 1 bytes = ''/''
                then c\<lparr>current_path := '''', current_path_len := 0\<rparr>
                else c\<lparr>current_path := cstr (take (nat rv) bytes), current_path_len := nat rv\<rparr>)
      in if current_path_len c1 < current_root_len c1 \<or>
            \<not> strncmp_eq (current_path c1) (current_root c1) (current_root_len c1)
         then c1\<lparr>current_root := '''', current_root_len := 0\<rparr> else c1)"

definition finish_expand :: "vcontext \<Rightarrow> string" where
  "finish_expand c = (if current_path_len c > 0 then current_path c else ''/'')"

definition vchroot_expand ::
    "'w vfs \<Rightarrow> vchroot_expand_args \<Rightarrow> string option \<Rightarrow> 'w \<Rightarrow> (int \<times> string \<times> string option \<times> 'w) option" where
  "vchroot_expand V args st w =
     (let (prefix_path, w) = get_prefix V st w;
          c = start_context prefix_path (ea_follow args);
          input_path = ea_path args;
          run = (\<lambda>c w. case vchroot_run V prefix_path 0 input_path c w of
             None \<Rightarrow> None
           | Some (rv, c, w) \<Rightarrow> Some (rv, finish_expand c, Some prefix_path, w))
      in if input_path = [] then Some (- LINUX_ENOENT, input_path, Some prefix_path, w)
         else if take 1 input_path \<noteq> ''/'' then
           let ((rv, bytes), w) =
                 vfs_readlink V (if ea_dfd args \<noteq> - 100 then fd_link (ea_dfd args) else ''/proc/self/cwd'')
                   (PATH_SIZE - 1) w
           in if rv < 0 then Some (rv, input_path, Some prefix_path, w)
              else run (start_relative rv bytes c) w
         else run c w)"

definition darling_vchroot_expand ::
    "'w vfs \<Rightarrow> string \<Rightarrow> string option \<Rightarrow> 'w \<Rightarrow> (int \<times> string \<times> string option \<times> 'w) option" where
  "darling_vchroot_expand V path st w =
     (if length path < PATH_SIZE
      then vchroot_expand V \<lparr>ea_path = path, ea_dfd = - 100, ea_follow = False\<rparr> st w else None)"

text \<open>
  \<^verbatim>\<open>vchroot_fdpath\<close> (called by \<^verbatim>\<open>fdpath\<close>): the path of an open file as the emulated process
  sees it, into a buffer of \<open>maxlen\<close> bytes.
\<close>

definition vchroot_fdpath ::
    "'w vfs \<Rightarrow> int \<Rightarrow> int \<Rightarrow> string option \<Rightarrow> 'w \<Rightarrow> (int \<times> string \<times> string option \<times> 'w) option" where
  "vchroot_fdpath V fd maxlen st w =
     (let (prefix_path, w) = get_prefix V st w;
          ((rv, bytes), w) = vfs_readlink V (fd_link fd) (PATH_SIZE - 1) w
      in if rv < 0 then Some (rv, '''', Some prefix_path, w)
         else
           let link = cstr (take (nat rv) bytes) in
           if int (length prefix_path) \<le> rv \<and> strncmp_eq link prefix_path (length prefix_path) then
             if maxlen - 1 < rv - int (length prefix_path)
             then Some (- LINUX_ENAMETOOLONG, '''', Some prefix_path, w)
             else let path = drop (length prefix_path) link;
                      path = (if path = [] then ''/'' else path)
               in if int (length path) < maxlen then Some (0, path, Some prefix_path, w) else None
           else if maxlen < int (length EXIT_PATH + 1) + rv
             then Some (- LINUX_ENAMETOOLONG, '''', Some prefix_path, w)
             else Some (0, EXIT_PATH @ link, Some prefix_path, w))"

text \<open>
  \<^verbatim>\<open>vchroot_unexpand\<close> rewrites a Linux path in its array of 4096 bytes. It does not initialise
  the prefix: with \<^verbatim>\<open>prefix_path_len == -1\<close> the size given to \<^verbatim>\<open>memcmp\<close> is the largest one.
\<close>

definition vchroot_unexpand :: "string option \<Rightarrow> string \<Rightarrow> (int \<times> string) option" where
  "vchroot_unexpand st path =
     (case st of
        None \<Rightarrow> None
      | Some prefix_path \<Rightarrow>
          if prefix prefix_path path then
            (let r = drop (length prefix_path) path in Some (0, if r = [] then ''/'' else r))
          else if length EXIT_PATH + length path < PATH_SIZE then Some (0, EXIT_PATH @ path)
          else None)"

declare vchroot_loop.simps [simp del]

section \<open>Containment\<close>

text \<open>
  Resolution needs three facts of the relation ``the path \<open>p\<close> is inside the root \<open>r\<close>'' to keep it:
  a root is inside itself, a child of a path inside is inside, and the parent of a path inside
  is inside if it is not shorter than the root. Two relations have them: the right one, that
  \<open>p\<close> is \<open>r\<close> or goes on after \<open>r\<close> with a slash, and the one the code tests with \<^verbatim>\<open>strncmp\<close>.
\<close>

definition inside :: "string \<Rightarrow> string \<Rightarrow> bool" where
  "inside r p \<longleftrightarrow> (p = r \<or> prefix (r @ ''/'') p) \<and> (p = [] \<or> hd p = CHR ''/'')"

definition has_prefix :: "string \<Rightarrow> string \<Rightarrow> bool" where
  "has_prefix r p \<longleftrightarrow> prefix r p \<and> (p = [] \<or> hd p = CHR ''/'')"

text \<open>
  The invariant of a run: the stored lengths are the lengths of the strings, a path leaves room
  for a slash and the NUL, the root is the prefix or the real root, and the path is inside it.
\<close>

definition run_inv :: "(string \<Rightarrow> string \<Rightarrow> bool) \<Rightarrow> string \<Rightarrow> vcontext \<Rightarrow> bool" where
  "run_inv rel p c \<longleftrightarrow>
     current_path_len c = length (current_path c) \<and> current_root_len c = length (current_root c) \<and>
     current_path_len c + 1 < PATH_SIZE \<and> (current_root c = p \<or> current_root c = '''') \<and>
     rel (current_root c) (current_path c)"

definition prefix_ok :: "string \<Rightarrow> bool" where
  "prefix_ok p \<longleftrightarrow> length p + length EXIT_PATH + 1 < PATH_SIZE \<and> (p = [] \<or> hd p = CHR ''/'')"

locale containment =
  fixes rel :: "string \<Rightarrow> string \<Rightarrow> bool"
  assumes rel_abs: "rel r p \<Longrightarrow> p = [] \<or> hd p = CHR ''/''"
    and rel_refl: "r = [] \<or> hd r = CHR ''/'' \<Longrightarrow> rel r r"
    and rel_child: "rel r p \<Longrightarrow> rel r (p @ CHR ''/'' # s)"
    and rel_parent: "rel r p \<Longrightarrow> last_index (CHR ''/'') p = Some k \<Longrightarrow> length r \<le> k \<Longrightarrow> rel r (take k p)"

lemma last_indexD:
  "last_index c xs = Some k \<Longrightarrow> k < length xs \<and> xs ! k = c \<and> c \<notin> set (drop (Suc k) xs)"
proof (induction xs arbitrary: k)
  case (Cons x xs)
  show ?case
  proof (cases "last_index c xs")
    case None
    have "c \<notin> set xs" if "last_index c xs = None" for xs
      using that by (induction xs) (auto split: option.splits if_splits)
    then show ?thesis using Cons None by (auto split: if_splits)
  qed (use Cons in auto)
qed simp

lemma last_index_exists: "c \<in> set xs \<Longrightarrow> \<exists>k. last_index c xs = Some k"
  by (induction xs) (auto split: option.splits)

lemma take_abs: "p = [] \<or> hd p = CHR ''/'' \<Longrightarrow> take k p = [] \<or> hd (take k p) = CHR ''/''"
  by (cases p; cases k) auto

interpretation inside: containment inside
proof unfold_locales
  fix r p s :: string and k :: nat
  show "inside r p \<Longrightarrow> p = [] \<or> hd p = CHR ''/''" by (auto simp: inside_def)
  show "r = [] \<or> hd r = CHR ''/'' \<Longrightarrow> inside r r" by (auto simp: inside_def)
  have "prefix (r @ ''/'') (r @ CHR ''/'' # s)" by (simp add: prefix_def)
  then show "inside r p \<Longrightarrow> inside r (p @ CHR ''/'' # s)"
    by (auto simp: inside_def hd_append intro: prefix_prefix)
  assume i: "inside r p" and k: "last_index (CHR ''/'') p = Some k" "length r \<le> k"
  have kp: "k < length p" "p ! k = CHR ''/''" using last_indexD [OF k(1)] by auto
  have "p = r \<or> prefix (r @ ''/'') p" using i by (simp add: inside_def)
  then obtain t where "p = r @ CHR ''/'' # t" using kp(1) k(2) by (auto simp: prefix_def)
  then have "take k p = r \<or> prefix (r @ ''/'') (take k p)"
    using k(2) by (cases "k - length r") (auto simp: prefix_def)
  then show "inside r (take k p)" using i take_abs [of p k] by (simp add: inside_def)
qed

interpretation has_prefix: containment has_prefix
proof unfold_locales
  fix r p s :: string and k :: nat
  show "has_prefix r p \<Longrightarrow> p = [] \<or> hd p = CHR ''/''" by (auto simp: has_prefix_def)
  show "r = [] \<or> hd r = CHR ''/'' \<Longrightarrow> has_prefix r r" by (auto simp: has_prefix_def)
  show "has_prefix r p \<Longrightarrow> has_prefix r (p @ CHR ''/'' # s)"
    by (auto simp: has_prefix_def hd_append intro: prefix_prefix)
  assume i: "has_prefix r p" and k: "last_index (CHR ''/'') p = Some k" "length r \<le> k"
  then show "has_prefix r (take k p)"
    using take_abs [of p k] by (auto simp: has_prefix_def prefix_def)
qed

text \<open>Induction over a run: deeper links, and shorter rests of the input.\<close>

lemma run_induct:
  assumes "\<And>d input. (\<And>d' i. d < d' \<Longrightarrow> d' \<le> MAX_SYMLINK_DEPTH \<Longrightarrow> P d' i) \<Longrightarrow>
    (\<And>i. length i < length input \<Longrightarrow> P d i) \<Longrightarrow> P d input"
  shows "P d (input :: string)"
proof (induction "(d, input)" arbitrary: d input
    rule: wf_induct [OF wf_measures [of "[\<lambda>(d, i). MAX_SYMLINK_DEPTH + 1 - d, \<lambda>(d, i). length i]"]])
  case 1
  show ?case by (rule assms) (use 1 in auto)
qed

text \<open>The context with a slash appended.\<close>

definition with_slash :: "vcontext \<Rightarrow> vcontext" where
  "with_slash c = c\<lparr>current_path := current_path c @ ''/'', current_path_len := current_path_len c + 1\<rparr>"

lemma component_name: "next_component input = (nm, e, True) \<Longrightarrow>
    dropWhile (\<lambda>c. c = CHR ''/'') e = rest \<Longrightarrow> length rest < length input"
  using rest_shorter by (auto simp: next_component_def)

fun step_inv :: "(vcontext \<Rightarrow> bool) \<Rightarrow> 'w step \<Rightarrow> bool" where
  "step_inv I (Stop rv c w) \<longleftrightarrow> rv < 0 \<and> length (current_path c) < PATH_SIZE"
| "step_inv I (Go c w) \<longleftrightarrow> I c"
| "step_inv I (Link l c w) \<longleftrightarrow> I c"

context containment
begin

lemma store_slash: "run_inv rel p c \<Longrightarrow> store_path ''/'' c = Some (with_slash c)"
  by (simp add: run_inv_def store_path_def with_slash_def)

lemma dot_dot_inv:
  assumes "prefix_ok p" "run_inv rel p c"
  shows "\<exists>rv c'. dot_dot p (with_slash c) = Some (rv, c') \<and> (rv = 0 \<longrightarrow> run_inv rel p c') \<and>
    length (current_path c') < PATH_SIZE"
proof -
  obtain d where d: "reenter p (with_slash c) = Some (with_slash d)" "run_inv rel p d" "current_path d \<noteq> []"
  proof (cases "current_path c = []")
    case True
    let ?d = "c\<lparr>current_path := p @ EXIT_PATH, current_path_len := length (p @ EXIT_PATH),
      current_root := p, current_root_len := length p\<rparr>"
    have "rel p p" using assms(1) by (auto simp: prefix_ok_def intro: rel_refl)
    then have "rel p (p @ EXIT_PATH)"
      using rel_child [of p p "''Volumes/SystemRoot''"] by (simp add: EXIT_PATH_def)
    then have "run_inv rel p ?d" using assms(1) by (auto simp: run_inv_def prefix_ok_def)
    moreover have "reenter p (with_slash c) = Some (with_slash ?d)"
      using True assms by (auto simp: reenter_def with_slash_def run_inv_def prefix_ok_def)
    ultimately show ?thesis by (intro that [of ?d]) (auto simp: EXIT_PATH_def)
  next
    case False
    then show ?thesis using assms by (intro that [of c]) (auto simp: reenter_def with_slash_def run_inv_def)
  qed
  have "CHR ''/'' \<in> set (current_path d)"
    using d(2,3) rel_abs [of "current_root d" "current_path d"]
    by (cases "current_path d") (auto simp: run_inv_def)
  then obtain k where k: "last_index (CHR ''/'') (current_path d) = Some k" using last_index_exists by blast
  let ?d = "with_slash d\<lparr>current_path := take k (current_path (with_slash d)), current_path_len := k\<rparr>"
  have kd: "k < length (current_path d)" using last_indexD [OF k] by simp
  then have "length (current_root d) \<le> k \<Longrightarrow> run_inv rel p ?d"
    using d(2) rel_parent [OF _ k] by (auto simp: run_inv_def with_slash_def)
  moreover have "dot_dot p (with_slash c) =
      Some (if k < current_root_len d then - LINUX_ENOENT else 0, ?d)"
    using d(1,2) k by (simp add: dot_dot_def run_inv_def with_slash_def Let_def)
  ultimately show ?thesis using d(2) kd by (auto simp: LINUX_ENOENT_def run_inv_def)
qed

lemma exit_check_inv: "run_inv rel p c \<Longrightarrow> run_inv rel p (exit_check c)"
  using rel_refl [of "[]"] by (auto simp: run_inv_def exit_check_def)

lemma icase_inv:
  assumes "run_inv rel p c" "current_path c = q @ CHR ''/'' # nm" "prevlen = length q + 1"
    "rel (current_root c) q"
  shows "run_inv rel p (fst (icase_search V prevlen nm c w))"
proof -
  have "rel (current_root c) (q @ CHR ''/'' # n)" for n using assms(4) by (rule rel_child)
  then show ?thesis using assms(1-3)
    by (auto simp: icase_search_def run_inv_def Let_def find_Some_iff dest!: strcasecmp_eq_length
        split: prod.splits option.splits)
qed

lemma symlink_inv:
  assumes "run_inv rel p c" "current_path c = q @ CHR ''/'' # nm" "prevlen = length q + 1"
    "rel (current_root c) q"
  shows "step_inv (run_inv rel p) (read_symlink V prevlen c w)"
  using assms by (auto simp: read_symlink_def run_inv_def Let_def split: prod.splits)

lemma component_inv:
  assumes "run_inv rel p c"
  shows "\<exists>s. component V nm more_input (with_slash c) w = Some s \<and> step_inv (run_inv rel p) s"
proof (cases "length nm + current_path_len (with_slash c) + 2 > PATH_SIZE")
  case True
  then show ?thesis using assms by (simp add: component_def LINUX_ENOENT_def run_inv_def with_slash_def)
next
  case False
  let ?d = "c\<lparr>current_path := current_path c @ CHR ''/'' # nm,
    current_path_len := length (current_path c @ CHR ''/'' # nm)\<rparr>"
  have r: "rel (current_root ?d) (current_path c)" using assms by (simp add: run_inv_def)
  have d: "run_inv rel p ?d" using assms False rel_child [OF r]
    by (auto simp: run_inv_def with_slash_def)
  have s: "store_path nm (with_slash c) = Some ?d"
    using assms False by (auto simp: store_path_def with_slash_def run_inv_def)
  have n: "current_path_len (with_slash c) = length (current_path c) + 1"
    using assms by (simp add: with_slash_def run_inv_def)
  have "run_inv rel p (fst (icase_search V (length (current_path c) + 1) nm ?d w))" for w
    using d r by (intro icase_inv) auto
  moreover have "step_inv (run_inv rel p) (read_symlink V (length (current_path c) + 1) ?d w)" for w
    using d r by (intro symlink_inv) auto
  ultimately show ?thesis using False d
    by (auto simp: component_def s n Let_def split: prod.splits) (metis fst_conv)+
qed

end

text \<open>The context in which the target of a link is resolved.\<close>

definition link_context :: "string \<Rightarrow> string \<Rightarrow> vcontext \<Rightarrow> vcontext" where
  "link_context prefix_path link c =
     (if take 1 link = ''/''
      then c\<lparr>follow := True, current_root := prefix_path, current_root_len := length prefix_path\<rparr>
      else c\<lparr>follow := True\<rparr>)"

lemma vchroot_loop_cases:
  assumes "input \<noteq> []" "next_component input = (nm, e, ok)" "rest = dropWhile (\<lambda>c. c = CHR ''/'') e"
  shows "vchroot_loop V p d input c w =
     (if nm = ''.'' \<or> nm = [] then vchroot_loop V p d rest c w
      else case store_path ''/'' c of None \<Rightarrow> None
      | Some c \<Rightarrow>
          if nm = ''..'' then
            (case dot_dot p c of None \<Rightarrow> None
             | Some (rv, c) \<Rightarrow> if rv \<noteq> 0 then Some (rv, c, w) else vchroot_loop V p d rest c w)
          else
            (case component V nm (e \<noteq> []) c w of None \<Rightarrow> None
             | Some (Stop rv c w) \<Rightarrow> Some (rv, c, w)
             | Some (Go c w) \<Rightarrow> vchroot_loop V p d rest (exit_check c) w
             | Some (Link link c w) \<Rightarrow>
                 (case vchroot_run V p (d + 1) link (link_context p link c) w of
                    None \<Rightarrow> None
                  | Some (rv, c', w) \<Rightarrow>
                      if rv \<noteq> 0 then Some (rv, c'\<lparr>follow := follow c\<rparr>, w)
                      else vchroot_loop V p d rest (exit_check (c'\<lparr>follow := follow c\<rparr>)) w)))"
  using assms
  by (subst vchroot_loop.simps)
    (auto simp: next_component_def vchroot_run_def link_context_def vchroot_enter_def LINUX_ELOOP_def
      split: option.split step.split)

context containment
begin

lemma enter_inv:
  assumes "prefix_ok p" "run_inv rel p c \<or> (take 1 input = ''/'' \<and> current_root c = p \<and> current_root_len c = length p)"
    "vchroot_enter d input c = Inr (i, c')"
  shows "run_inv rel p c'"
proof -
  have "rel (current_root c) (current_root c)" if "run_inv rel p c \<or> current_root c = p"
    using that assms(1) by (intro rel_refl) (auto simp: run_inv_def prefix_ok_def)
  then show ?thesis using assms
    by (auto simp: vchroot_enter_def run_inv_def prefix_ok_def PATH_SIZE_def split: if_splits)
qed

lemma loop_inv:
  assumes "prefix_ok p"
  shows "\<forall>c w. run_inv rel p c \<longrightarrow>
    (\<exists>rv c' w'. vchroot_loop V p d input c w = Some (rv, c', w') \<and> (rv = 0 \<longrightarrow> run_inv rel p c') \<and>
      length (current_path c') < PATH_SIZE)"
proof (induction d input rule: run_induct)
  case (1 d input)
  obtain nm e where n: "next_component input = (nm, e, input \<noteq> [])" by (simp add: next_component_def)
  define rest where r: "rest = dropWhile (\<lambda>c. c = CHR ''/'') e"
  show ?case
  proof (cases "input = []")
    case True
    then show ?thesis by (subst vchroot_loop.simps) (simp add: next_component_def run_inv_def)
  next
    case False
    note step = vchroot_loop_cases [OF False n r]
    have "length rest < length input" using component_name n r False by simp
    note IH = 1(2) [OF this, rule_format]
    have run: "\<exists>rv c' w'. vchroot_run V p (Suc d) l (link_context p l c) w = Some (rv, c', w') \<and>
        (rv = 0 \<longrightarrow> run_inv rel p c') \<and> length (current_path c') < PATH_SIZE"
      if "run_inv rel p c" for l c w
    proof (cases "vchroot_enter (Suc d) l (link_context p l c)")
      case (Inr x)
      obtain i c' where x: "x = (i, c')" by fastforce
      have "run_inv rel p c'"
        using enter_inv [OF assms, of "link_context p l c" l "Suc d" i c'] Inr x that
        by (auto simp: link_context_def run_inv_def split: if_splits)
      then show ?thesis using Inr x 1(1) [of "Suc d" i] vchroot_enter_depth [OF Inr]
        by (auto simp: vchroot_run_def)
    qed (use that in \<open>auto simp: vchroot_run_def vchroot_enter_def LINUX_ELOOP_def link_context_def
        run_inv_def split: if_splits\<close>)
    have fol: "run_inv rel p (c\<lparr>follow := b\<rparr>) = run_inv rel p c" for c b by (simp add: run_inv_def)
    show ?thesis
    proof (intro allI impI)
      fix c w
      assume c: "run_inv rel p c"
      obtain rv c1 where d: "dot_dot p (with_slash c) = Some (rv, c1)" "rv = 0 \<longrightarrow> run_inv rel p c1"
          "length (current_path c1) < PATH_SIZE"
        using dot_dot_inv [OF assms c] by auto
      obtain s where s: "component V nm (e \<noteq> []) (with_slash c) w = Some s" "step_inv (run_inv rel p) s"
        using component_inv [OF c, of V nm "e \<noteq> []" w] by auto
      show "\<exists>rv c' w'. vchroot_loop V p d input c w = Some (rv, c', w') \<and>
          (rv = 0 \<longrightarrow> run_inv rel p c') \<and> length (current_path c') < PATH_SIZE"
      proof (cases s)
        case (Link l c2 w2)
        then obtain rv2 c3 w3 where l: "vchroot_run V p (Suc d) l (link_context p l c2) w2 = Some (rv2, c3, w3)"
          "rv2 = 0 \<longrightarrow> run_inv rel p c3" "length (current_path c3) < PATH_SIZE" using run [of c2 l w2] s(2) by auto
        then show ?thesis using d IH exit_check_inv c s Link
          by (simp add: step store_slash fol)
      qed (use d IH exit_check_inv c s in \<open>simp_all add: step store_slash\<close>)
    qed
  qed
qed

end

context containment
begin

lemma run_keeps_inv:
  assumes "prefix_ok p" "run_inv rel p c \<or> (take 1 input = ''/'' \<and> current_root c = p \<and> current_root_len c = length p)"
    "length (current_path c) < PATH_SIZE"
  shows "\<exists>rv c' w'. vchroot_run V p d input c w = Some (rv, c', w') \<and> (rv = 0 \<longrightarrow> run_inv rel p c') \<and>
    length (current_path c') < PATH_SIZE"
proof (cases "vchroot_enter d input c")
  case (Inr x)
  then obtain i c' where x: "vchroot_enter d input c = Inr (i, c')" by (cases x) auto
  then show ?thesis using loop_inv [OF assms(1), of V d i] enter_inv [OF assms(1,2) x]
    by (auto simp: vchroot_run_def)
qed (use assms(3) in \<open>auto simp: vchroot_run_def vchroot_enter_def LINUX_ELOOP_def split: if_splits\<close>)

end

text \<open>
  What the code relies on of \<^verbatim>\<open>/proc/self/cwd\<close> and \<^verbatim>\<open>/proc/self/fd/N\<close> where a path starts there:
  they name an absolute path without NUL, with room for one more character.
\<close>

definition start_link :: "vchroot_expand_args \<Rightarrow> string" where
  "start_link args = (if ea_dfd args \<noteq> - 100 then fd_link (ea_dfd args) else ''/proc/self/cwd'')"

definition link_dir_ok :: "'w vfs \<Rightarrow> string \<Rightarrow> bool" where
  "link_dir_ok V path \<longleftrightarrow> (\<forall>w. case vfs_readlink V path (PATH_SIZE - 1) w of ((rv, bytes), w') \<Rightarrow>
     0 \<le> rv \<longrightarrow> int (length bytes) = rv \<and> length bytes + 1 < PATH_SIZE \<and> take 1 bytes = ''/'' \<and> is_cstr bytes)"

lemma start_relative_inv:
  assumes "prefix_ok p" "int (length bytes) = rv" "length bytes + 1 < PATH_SIZE" "take 1 bytes = ''/''"
    "is_cstr bytes"
  shows "run_inv has_prefix p (start_relative rv bytes (start_context p b))"
proof -
  have hd: "hd bytes = CHR ''/''" "bytes \<noteq> []" using assms(4) by (cases bytes; simp)+
  have "length p \<le> n \<Longrightarrow> strncmp_eq q p (length p) \<longleftrightarrow> prefix p q" if "n = length q" for n q
    using that strncmp_eq_prefix [of p "length p" q] by simp
  then show ?thesis using assms hd
    by (auto simp: start_relative_def start_context_def run_inv_def has_prefix_def Let_def PATH_SIZE_def
        prefix_ok_def not_less)
qed

section \<open>Plain paths and link loops\<close>

definition plain :: "string \<Rightarrow> bool" where
  "plain nm \<longleftrightarrow> nm \<noteq> [] \<and> CHR ''/'' \<notin> set nm \<and> nm \<noteq> ''.'' \<and> nm \<noteq> ''..''"

fun abs_path :: "string list \<Rightarrow> string" where
  "abs_path [] = []"
| "abs_path (n # ns) = CHR ''/'' # n @ abs_path ns"

text \<open>A file system in which every name exists and none is a symbolic link.\<close>

definition no_links :: "'w vfs \<Rightarrow> bool" where
  "no_links V \<longleftrightarrow> (\<forall>p w. case vfs_lstat V p w of ((status, m), w') \<Rightarrow> status = 0 \<and> \<not> is_symlink m)"

lemma next_component_plain:
  "plain n \<Longrightarrow> next_component (n @ abs_path ns) = (n, abs_path ns, True)"
  by (cases ns) (auto simp: next_component_def plain_def takeWhile_append dropWhile_append)

lemma strip_slash_plain:
  "plain n \<Longrightarrow> dropWhile (\<lambda>c. c = CHR ''/'') (abs_path (n # ns)) = n @ abs_path ns"
  by (cases n) (auto simp: plain_def)

lemma slash_iff: "c = CHR ''/'' \<longleftrightarrow> of_char c = (47 :: nat)"
proof -
  have "c = CHR ''/'' \<longleftrightarrow> of_char c = (of_char (CHR ''/'') :: nat)" by (simp only: of_char_eq_iff)
  then show ?thesis by simp
qed

lemma tolower_slash: "tolower_c c = CHR ''/'' \<longleftrightarrow> c = CHR ''/''"
  unfolding slash_iff by (auto simp: tolower_c_def Let_def)

lemma lower_component:
  assumes "CHR ''/'' \<notin> set n"
  shows "takeWhile (\<lambda>c. c \<noteq> CHR ''/'') (map tolower_c (n @ CHR ''/'' # r)) = map tolower_c n"
    "takeWhile (\<lambda>c. c \<noteq> CHR ''/'') (map tolower_c n) = map tolower_c n"
  using assms by (induction n) (auto simp: tolower_slash)

lemma exit_first_component:
  assumes "plain n" "strcasecmp_eq (abs_path (n # ns)) EXIT_PATH"
  shows "strcasecmp_eq n ''Volumes''"
proof -
  let ?t = "\<lambda>s. takeWhile (\<lambda>c. c \<noteq> CHR ''/'') (map tolower_c s)"
  have "map tolower_c (n @ abs_path ns) = map tolower_c ''Volumes/SystemRoot''"
    using assms(2) by (simp add: strcasecmp_eq_def EXIT_PATH_def)
  then have "?t (n @ abs_path ns) = ?t ''Volumes/SystemRoot''" by simp
  moreover have "?t (n @ abs_path ns) = map tolower_c n"
    using assms(1) lower_component(2) [of n] lower_component(1) [of n "hd ns @ abs_path (tl ns)"]
    by (cases ns) (simp_all add: plain_def)
  moreover have "?t ''Volumes/SystemRoot'' = map tolower_c ''Volumes''"
    using lower_component(1) [of "''Volumes''" "''SystemRoot''"] by simp
  ultimately show ?thesis by (simp only: strcasecmp_eq_def)
qed

lemma exit_check_stays:
  assumes "current_path c = current_root c @ t" "current_path_len c = length (current_path c)"
    "current_root_len c = length (current_root c)" "\<not> strcasecmp_eq t EXIT_PATH"
  shows "exit_check c = c"
  using assms by (auto simp: exit_check_def strncasecmp_eq_def strcasecmp_eq_def)

lemma no_linksD:
  assumes "no_links V" "vfs_lstat V p w = ((status, m), w')"
  shows "status = 0" "\<not> is_symlink m"
proof -
  note assms(1) [unfolded no_links_def, THEN spec [of _ p], THEN spec [of _ w]]
  then show "status = 0" "\<not> is_symlink m" using assms(2) by simp_all
qed

lemma component_plain:
  assumes "no_links V" "\<not> unknown_component c" "current_path_len c = length (current_path c)"
    "length nm + length (current_path c) + 3 \<le> PATH_SIZE"
  obtains w' where "component V nm more_input (with_slash c) w =
    Some (Go (c\<lparr>current_path := current_path c @ CHR ''/'' # nm,
                current_path_len := length (current_path c @ CHR ''/'' # nm)\<rparr>) w')"
proof -
  obtain status m w' where l: "vfs_lstat V (current_path c @ CHR ''/'' # nm) w = ((status, m), w')"
    by (cases "vfs_lstat V (current_path c @ CHR ''/'' # nm) w") auto
  show ?thesis using assms(2-) that l no_linksD [OF assms(1) l]
    by (simp add: component_def with_slash_def store_path_def LINUX_ENOENT_def)
qed

lemma abs_path_append [simp]: "abs_path (ms @ ns) = abs_path ms @ abs_path ns"
  by (induction ms) auto

lemma no_exit:
  assumes "list_all plain ns" "ns \<noteq> []" "\<not> strcasecmp_eq (hd ns) ''Volumes''"
  shows "\<not> strcasecmp_eq (abs_path ns) EXIT_PATH"
  using assms exit_first_component by (cases ns) auto

text \<open>The text of the components after a slash.\<close>

fun rel_path :: "string list \<Rightarrow> string" where
  "rel_path [] = []"
| "rel_path (n # ns) = n @ abs_path ns"

lemma strip_slashes: "list_all plain ns \<Longrightarrow> dropWhile (\<lambda>c. c = CHR ''/'') (abs_path ns) = rel_path ns"
  by (cases ns) (simp_all add: strip_slash_plain del: abs_path.simps(2))

lemma loop_component:
  assumes "plain n" "list_all plain ns" "current_path_len c = length (current_path c)"
    "length (current_path c) + 2 \<le> PATH_SIZE"
    "component V n (ns \<noteq> []) (with_slash c) w = Some (Go c' w')"
  shows "vchroot_loop V p d (rel_path (n # ns)) c w = vchroot_loop V p d (rel_path ns) (exit_check c') w'"
proof -
  have "n @ abs_path ns \<noteq> []" and n: "n \<noteq> []" "n \<noteq> ''.''" "n \<noteq> ''..''"
    using assms(1) by (auto simp: plain_def)
  moreover have "store_path ''/'' c = Some (with_slash c)"
    using assms(3,4) by (simp add: store_path_def with_slash_def)
  moreover have "(abs_path ns \<noteq> []) = (ns \<noteq> [])" by (cases ns) auto
  ultimately show ?thesis
    using vchroot_loop_cases [OF _ next_component_plain [OF assms(1), of ns] refl, of V p d c w]
      strip_slashes [OF assms(2)] assms(5) by simp
qed

lemma loop_plain:
  assumes "no_links V" "list_all plain ns" "\<not> unknown_component c"
    "current_path_len c = length (current_path c)" "current_root_len c = length (current_root c)"
    "current_path c = current_root c @ abs_path ms" "list_all plain ms"
    "\<not> strcasecmp_eq (hd (ms @ ns)) ''Volumes''"
    "length (current_path c) + length (abs_path ns) + 2 \<le> PATH_SIZE"
  shows "\<exists>w'. vchroot_loop V p d (rel_path ns) c w =
    Some (0, c\<lparr>current_path := current_path c @ abs_path ns,
               current_path_len := length (current_path c @ abs_path ns)\<rparr>, w')"
  using assms(2-)
proof (induction ns arbitrary: ms c w)
  case Nil
  then show ?case by (subst vchroot_loop.simps) (simp add: next_component_def)
next
  case (Cons n ns)
  let ?c = "c\<lparr>current_path := current_path c @ CHR ''/'' # n,
    current_path_len := length (current_path c @ CHR ''/'' # n)\<rparr>"
  obtain w' where w': "component V n (ns \<noteq> []) (with_slash c) w = Some (Go ?c w')"
    using component_plain [OF assms(1), of c n "ns \<noteq> []" w] Cons(3-) by auto
  have first: "hd (ms @ [n]) = hd (ms @ n # ns)" by (cases ms) auto
  have "exit_check ?c = ?c"
    using Cons(2-) exit_check_stays [of ?c "abs_path (ms @ [n])"] no_exit [of "ms @ [n]"] first by simp
  then have "vchroot_loop V p d (rel_path (n # ns)) c w = vchroot_loop V p d (rel_path ns) ?c w'"
    using loop_component [OF _ _ _ _ w', of p d] Cons(2-) by simp
  then show ?case using Cons(1) [of ?c "ms @ [n]" w'] Cons(2-) by simp
qed

text \<open>A link below the root of the prefix that names itself.\<close>

definition self_link :: "'w vfs \<Rightarrow> string \<Rightarrow> string \<Rightarrow> 'w \<Rightarrow> bool" where
  "self_link V p n w \<longleftrightarrow> plain n \<and> is_cstr n \<and> CHR '':'' \<notin> set n \<and>
     vfs_lstat V (p @ CHR ''/'' # n) w = ((0, 0xA000), w) \<and>
     vfs_readlink V (p @ CHR ''/'' # n) 511 w = ((int (length n + 1), CHR ''/'' # n), w)"

lemma self_link_loop:
  assumes "self_link V p n w" "prefix_ok p" "length p + length n + 3 \<le> PATH_SIZE"
    "current_root c = p" "current_root_len c = length p" "\<not> unknown_component c" "follow c"
  shows "\<exists>c'. vchroot_run V p d (CHR ''/'' # n) c w = Some (- LINUX_ELOOP, c', w)"
  using assms(4-)
proof (induction "MAX_SYMLINK_DEPTH + 1 - d" arbitrary: d c)
  case 0
  then show ?case by (simp add: vchroot_run_def vchroot_enter_def)
next
  case (Suc k)
  let ?l = "CHR ''/'' # n"
  let ?c = "c\<lparr>current_path := p, current_path_len := length p\<rparr>"
  let ?d = "c\<lparr>current_path := p @ ?l, current_path_len := length (p @ ?l)\<rparr>"
  have n: "n \<noteq> []" "n \<noteq> ''.''" "n \<noteq> ''..''" "next_component n = (n, [], True)" "cstr n = n"
    using assms(1) next_component_plain [of n "[]"] by (auto simp: self_link_def plain_def)
  have slash: "store_path ''/'' ?c = Some (with_slash ?c)"
    using assms(3) n(1) by (simp add: store_path_def with_slash_def)
  have sym: "is_symlink 0xA000" by (simp add: is_symlink_def)
  have "component V n False (with_slash ?c) w = Some (read_symlink V (length p + 1) ?d w)"
    using Suc assms(1,3) sym
    by (simp add: component_def with_slash_def store_path_def self_link_def LINUX_ENOENT_def)
  moreover have link: "cstr (CHR ''/'' # n) = CHR ''/'' # n" using assms(1) by (simp add: self_link_def)
  moreover have "read_symlink V (length p + 1) ?d w = Link ?l ?d w"
    using assms(1) n(5) link by (simp add: read_symlink_def self_link_def Let_def)
  ultimately have comp: "component V n False (with_slash ?c) w = Some (Link ?l ?d w)" by simp
  obtain c' where "vchroot_run V p (d + 1) ?l (link_context p ?l ?d) w = Some (- LINUX_ELOOP, c', w)"
  proof -
    have "k = MAX_SYMLINK_DEPTH + 1 - (d + 1)" using Suc(2) by simp
    then show ?thesis using Suc(1) [of "d + 1" "link_context p ?l ?d"] Suc(3-) that
      by (auto simp: link_context_def)
  qed
  then have "\<exists>c'. vchroot_loop V p d n ?c w = Some (- LINUX_ELOOP, c', w)"
    using vchroot_loop_cases [OF n(1,4) refl, of V p d ?c w] n slash comp
    by (simp add: LINUX_ELOOP_def)
  moreover have "vchroot_enter d ?l c = Inr (n, ?c)" using Suc(2,3) by (simp add: vchroot_enter_def)
  ultimately show ?case by (simp add: vchroot_run_def)
qed

lemma expand_returns:
  assumes "prefix_ok (fst (get_prefix V st w))" "length (ea_path args) < PATH_SIZE"
    "take 1 (ea_path args) = ''/'' \<or> link_dir_ok V (start_link args)"
  shows "\<exists>rv path w'. vchroot_expand V args st w = Some (rv, path, Some (fst (get_prefix V st w)), w') \<and>
    length path < PATH_SIZE \<and> (rv = 0 \<longrightarrow> take 1 path = ''/'')"
proof -
  obtain p v where p: "get_prefix V st w = (p, v)" by fastforce
  have fin: "take 1 (finish_expand c) = ''/''" if "run_inv has_prefix p c" for c
    using that has_prefix.rel_abs [of "current_root c" "current_path c"]
    by (cases "current_path c") (auto simp: finish_expand_def run_inv_def)
  have len: "length (finish_expand c) < PATH_SIZE" if "length (current_path c) < PATH_SIZE" for c
    using that by (simp add: finish_expand_def PATH_SIZE_def)
  have run: "\<exists>rv path w'. (case vchroot_run V p 0 (ea_path args) c u of None \<Rightarrow> None
        | Some (rv, c, w) \<Rightarrow> Some (rv, finish_expand c, Some p, w)) = Some (rv, path, Some p, w') \<and>
      length path < PATH_SIZE \<and> (rv = 0 \<longrightarrow> take 1 path = ''/'')"
    if "run_inv has_prefix p c \<or> (take 1 (ea_path args) = ''/'' \<and> current_root c = p \<and> current_root_len c = length p)"
      "length (current_path c) < PATH_SIZE" for c u
    using has_prefix.run_keeps_inv [OF _ that, of V 0 u] assms(1) p fin len by fastforce
  have abs: "length (current_path (start_context p b)) < PATH_SIZE \<and> current_root (start_context p b) = p \<and>
      current_root_len (start_context p b) = length p" for b
    by (simp add: start_context_def PATH_SIZE_def)
  obtain rv bytes u where r: "vfs_readlink V (start_link args) (PATH_SIZE - 1) v = ((rv, bytes), u)"
    by (metis surj_pair)
  have "0 \<le> rv \<Longrightarrow> run_inv has_prefix p (start_relative rv bytes (start_context p (ea_follow args)))"
    if "link_dir_ok V (start_link args)"
    using that [unfolded link_dir_ok_def, THEN spec [of _ v]] assms(1) r p
    by (intro start_relative_inv) auto
  moreover have "run_inv has_prefix p c \<Longrightarrow> length (current_path c) < PATH_SIZE" for c
    by (simp add: run_inv_def)
  ultimately show ?thesis
    using p r assms run [of "start_context p (ea_follow args)" v] abs
      run [of "start_relative rv bytes (start_context p (ea_follow args))" u]
    by (auto simp: vchroot_expand_def Let_def start_link_def LINUX_ENOENT_def)
qed

lemma expand_plain:
  assumes "no_links V" "ns \<noteq> []" "list_all plain ns" "\<not> strcasecmp_eq (hd ns) ''Volumes''"
    "length p + length (abs_path ns) + 2 \<le> PATH_SIZE"
  shows "(\<exists>w'. vchroot_expand V \<lparr>ea_path = abs_path ns, ea_dfd = dfd, ea_follow = fol\<rparr> (Some p) w =
      Some (0, p @ abs_path ns, Some p, w')) \<and>
    vchroot_unexpand (Some p) (p @ abs_path ns) = Some (0, abs_path ns)"
proof -
  let ?c = "start_context p fol\<lparr>current_path := p, current_path_len := length p\<rparr>"
  obtain n ms where ns: "ns = n # ms" using assms(2) by (cases ns) auto
  obtain w' where "vchroot_loop V p 0 (rel_path ns) ?c w =
      Some (0, ?c\<lparr>current_path := p @ abs_path ns, current_path_len := length (p @ abs_path ns)\<rparr>, w')"
    using loop_plain [OF assms(1,3), of ?c "[]" p 0 w] assms(4,5) by (auto simp: start_context_def)
  then have "vchroot_run V p 0 (abs_path ns) (start_context p fol) w =
      Some (0, ?c\<lparr>current_path := p @ abs_path ns, current_path_len := length (p @ abs_path ns)\<rparr>, w')"
    by (simp add: vchroot_run_def vchroot_enter_def ns start_context_def)
  then show ?thesis using ns
    by (simp add: vchroot_expand_def get_prefix_def finish_expand_def vchroot_unexpand_def)
qed

section \<open>Properties\<close>


text \<open>A file system for the witnesses: everything is a directory, the working directory is \<^verbatim>\<open>/pfx/home\<close>.\<close>

definition plain_fs :: "'w vfs" where
  "plain_fs = \<lparr>vfs_readlink = (\<lambda>p n w. ((9, ''/pfx/home''), w)), vfs_lstat = (\<lambda>p w. ((0, 0x41ED), w)),
     vfs_open = (\<lambda>p f w. (- 2, w)), vfs_getdents = (\<lambda>d w. ([], w)), vfs_close = (\<lambda>d w. w),
     lkm_vchroot = (\<lambda>d w. (0, w)), lkm_vchroot_expand = (\<lambda>p w. (''/pfx/'', w)), icase_enabled = True\<rparr>"

lemma no_links_plain_fs: "no_links plain_fs"
  by (simp add: no_links_def plain_fs_def is_symlink_def)




text \<open>
  C5: link loops end. A link that names itself is given up with \<^verbatim>\<open>ELOOP\<close> after ten nested runs.
\<close>

theorem vchroot_expand_self_link:
  assumes "self_link V p n w" "prefix_ok p" "length p + length n + 3 \<le> PATH_SIZE"
  shows "\<exists>path. vchroot_expand V \<lparr>ea_path = CHR ''/'' # n, ea_dfd = dfd, ea_follow = True\<rparr> (Some p) w =
    Some (- LINUX_ELOOP, path, Some p, w)"
  using self_link_loop [OF assms, of "start_context p True" 0]
  by (auto simp: vchroot_expand_def get_prefix_def start_context_def)

theorem vchroot_expand_self_link_witness:
  "\<exists>path. vchroot_expand
     (plain_fs\<lparr>vfs_lstat := \<lambda>p w. ((0, 0xA000), w), vfs_readlink := \<lambda>p n w. ((2, ''/a''), w)\<rparr>)
     \<lparr>ea_path = ''/a'', ea_dfd = - 100, ea_follow = True\<rparr> (Some ''/pfx'') () =
   Some (- LINUX_ELOOP, path, Some ''/pfx'', ())"
  using vchroot_expand_self_link [of "plain_fs\<lparr>vfs_lstat := \<lambda>p w. ((0, 0xA000), w),
      vfs_readlink := \<lambda>p n w. ((2, ''/a''), w)\<rparr>" "''/pfx''" "''a''" "()" "- 100"]
  by (simp add: self_link_def plain_def prefix_ok_def PATH_SIZE_def EXIT_PATH_def)

text \<open>
  C4: expansion and its inverse. Where all names exist and none is a link, an absolute path of
  ordinary components, whose first one is not \<^verbatim>\<open>Volumes\<close> in any case, is expanded by putting the prefix
  in front, and \<^verbatim>\<open>vchroot_unexpand\<close> gives the path back.
\<close>

theorem vchroot_expand_unexpand:
  assumes "no_links V" "ns \<noteq> []" "list_all plain ns" "\<not> strcasecmp_eq (hd ns) ''Volumes''"
    "length p + length (abs_path ns) + 2 \<le> PATH_SIZE"
  shows "(\<exists>w'. vchroot_expand V \<lparr>ea_path = abs_path ns, ea_dfd = dfd, ea_follow = fol\<rparr> (Some p) w =
      Some (0, p @ abs_path ns, Some p, w')) \<and>
    vchroot_unexpand (Some p) (p @ abs_path ns) = Some (0, abs_path ns)"
  using assms by (rule expand_plain)

theorem vchroot_expand_unexpand_witness:
  "(\<exists>w'. vchroot_expand plain_fs \<lparr>ea_path = ''/usr/lib'', ea_dfd = - 100, ea_follow = True\<rparr> (Some ''/pfx'') () =
      Some (0, ''/pfx/usr/lib'', Some ''/pfx'', w'))"
proof -
  have "\<not> strcasecmp_eq ''usr'' ''Volumes''" using strcasecmp_eq_length [of "''usr''" "''Volumes''"] by auto
  then show ?thesis
    using vchroot_expand_unexpand [of plain_fs "[''usr'', ''lib'']" "''/pfx''" "- 100" True "()"]
    by (simp add: plain_def PATH_SIZE_def no_links_plain_fs)
qed

text \<open>
  The two ways to a path the emulated process sees agree. If \<^verbatim>\<open>/proc\<close> gives \<open>l\<close> for a
  descriptor, \<^verbatim>\<open>vchroot_fdpath\<close> stores what \<^verbatim>\<open>vchroot_unexpand\<close> makes of \<open>l\<close>, if the buffer is large enough.
\<close>

lemma vchroot_fdpath_unexpand:
  assumes "vfs_readlink V (fd_link fd) (PATH_SIZE - 1) w = ((int (length l), l), w')" "is_cstr l"
    "int (length EXIT_PATH + length l) < maxlen" "length EXIT_PATH + length l < PATH_SIZE"
  shows "\<exists>path. vchroot_fdpath V fd maxlen (Some p) w = Some (0, path, Some p, w') \<and>
    vchroot_unexpand (Some p) l = Some (0, path)"
proof -
  have "length p \<le> length l \<and> strncmp_eq l p (length p) \<longleftrightarrow> prefix p l"
    using strncmp_eq_prefix [of p "length p" l] prefix_length_le by auto
  then show ?thesis using assms
    by (auto simp: vchroot_fdpath_def vchroot_unexpand_def get_prefix_def Let_def EXIT_PATH_def prefix_length_le)
qed

lemma vchroot_fdpath_unexpand_witness:
  "\<exists>path. vchroot_fdpath plain_fs 3 4096 (Some ''/pfx'') () = Some (0, path, Some ''/pfx'', ()) \<and>
    vchroot_unexpand (Some ''/pfx'') ''/pfx/home'' = Some (0, path)"
  using vchroot_fdpath_unexpand [of plain_fs 3 "()" "''/pfx/home''" "()" 4096 "''/pfx''"]
  by (simp add: plain_fs_def PATH_SIZE_def EXIT_PATH_def)

end
