(* ===== verification/Mman.thy ===== *)
theory Mman
  imports Errno
begin

text \<open>
  Memory mappings: \<^verbatim>\<open>mman/\<close>. Protections and flags are translated bit by bit; \<^verbatim>\<open>sys_mmap\<close> returns
  a pointer, in which the kernel encodes an error as one of the last 4095 addresses. The Linux
  calls are parameters, the fields of the record \<open>mmcalls\<close>, which other components extend.
\<close>

record 'w mmcalls =
  mm_mmap :: "u64 \<Rightarrow> u64 \<Rightarrow> u32 \<Rightarrow> u32 \<Rightarrow> int \<Rightarrow> int \<Rightarrow> 'w \<Rightarrow> u64 \<times> 'w"
  mm_munmap :: "u64 \<Rightarrow> u64 \<Rightarrow> 'w \<Rightarrow> int \<times> 'w"
  mm_mprotect :: "u64 \<Rightarrow> u64 \<Rightarrow> u32 \<Rightarrow> 'w \<Rightarrow> int \<times> 'w"
  mm_mincore :: "u64 \<Rightarrow> u64 \<Rightarrow> 'w \<Rightarrow> (int \<times> u8 list) \<times> 'w"
  mm_msync :: "u64 \<Rightarrow> u64 \<Rightarrow> u32 \<Rightarrow> 'w \<Rightarrow> int \<times> 'w"
  mm_madvise :: "u64 \<Rightarrow> u64 \<Rightarrow> int \<Rightarrow> 'w \<Rightarrow> int \<times> 'w"

section \<open>Flags\<close>

text \<open>\<^verbatim>\<open>PROT_READ\<close>, \<^verbatim>\<open>PROT_WRITE\<close>, \<^verbatim>\<open>PROT_EXEC\<close>\<close>

definition prot_tab :: "(u32 \<times> u32) list" where
  "prot_tab = [(1, 1), (2, 2), (4, 4)]"

definition prot_bsd_to_linux :: "u32 \<Rightarrow> u32" where
  "prot_bsd_to_linux prot = xlat prot_tab prot 0"

text \<open>\<^verbatim>\<open>MAP_ANON\<close>, \<^verbatim>\<open>MAP_FIXED\<close>, \<^verbatim>\<open>MAP_SHARED\<close>, \<^verbatim>\<open>MAP_PRIVATE\<close>\<close>

definition map_tab :: "(u32 \<times> u32) list" where
  "map_tab = [(0x1000, 0x20), (0x10, 0x10), (1, 1), (2, 2)]"

text \<open>\<^verbatim>\<open>BSD_MS_ASYNC\<close>, \<^verbatim>\<open>BSD_MS_SYNC\<close>, \<^verbatim>\<open>BSD_MS_INVALIDATE\<close>\<close>

definition msync_tab :: "(u32 \<times> u32) list" where
  "msync_tab = [(1, 1), (0x10, 4), (2, 2)]"

definition msync_flags_bsd_to_linux :: "u32 \<Rightarrow> u32" where
  "msync_flags_bsd_to_linux flags = xlat msync_tab flags 0"

section \<open>System calls\<close>

definition sys_mmap ::
    "('w, 'z) mmcalls_scheme \<Rightarrow> u64 \<Rightarrow> u64 \<Rightarrow> u32 \<Rightarrow> u32 \<Rightarrow> int \<Rightarrow> int \<Rightarrow> 'w \<Rightarrow> u64 \<times> 'w" where
  "sys_mmap K start len prot flags fd pos w =
     (let (ret, w) = mm_mmap K start len (prot_bsd_to_linux prot) (xlat map_tab flags 0) fd pos w in
      (if ret > - 4096 then word_of_int (errno_linux_to_bsd (sint (ucast ret :: u32))) else ret, w))"

definition sys_munmap :: "('w, 'z) mmcalls_scheme \<Rightarrow> u64 \<Rightarrow> u64 \<Rightarrow> 'w \<Rightarrow> int \<times> 'w" where
  "sys_munmap K addr len w = (let (ret, w) = mm_munmap K addr len w in (ret_bsd ret, w))"

definition sys_mprotect :: "('w, 'z) mmcalls_scheme \<Rightarrow> u64 \<Rightarrow> u64 \<Rightarrow> u32 \<Rightarrow> 'w \<Rightarrow> int \<times> 'w" where
  "sys_mprotect K addr len prot w =
     (let (ret, w) = mm_mprotect K addr len (prot_bsd_to_linux prot) w in (ret_bsd ret, w))"

definition sys_mincore :: "('w, 'z) mmcalls_scheme \<Rightarrow> u64 \<Rightarrow> u64 \<Rightarrow> 'w \<Rightarrow> (int \<times> u8 list) \<times> 'w" where
  "sys_mincore K addr len w =
     (let ((ret, vec), w) = mm_mincore K addr len w in ((ret_bsd ret, vec), w))"

definition sys_msync_nocancel :: "('w, 'z) mmcalls_scheme \<Rightarrow> u64 \<Rightarrow> u64 \<Rightarrow> u32 \<Rightarrow> 'w \<Rightarrow> int \<times> 'w" where
  "sys_msync_nocancel K addr len flags w =
     (let (ret, w) = mm_msync K addr len (msync_flags_bsd_to_linux flags) w in (ret_bsd ret, w))"

text \<open>Advice from 5 on is accepted and ignored.\<close>

definition sys_madvise :: "('w, 'z) mmcalls_scheme \<Rightarrow> u64 \<Rightarrow> u64 \<Rightarrow> int \<Rightarrow> 'w \<Rightarrow> int \<times> 'w" where
  "sys_madvise K addr len advice w =
     (let advice = (if advice = 7 \<or> advice = 8 then 5 else advice) in
      if 5 \<le> advice then (0, w)
      else let (ret, w) = mm_madvise K addr len advice w in (ret_bsd ret, w))"

section \<open>Lemmas\<close>

interpretation prot: flag_codec prot_tab
  by unfold_locales (simp_all add: prot_tab_def single_bits)

interpretation map: flag_codec map_tab
  by unfold_locales (simp_all add: map_tab_def single_bits)

interpretation msync: flag_codec msync_tab
  by unfold_locales (simp_all add: msync_tab_def single_bits)

text \<open>An error number as the kernel encodes it in a pointer.\<close>

lemma errno_range: "0 < e \<Longrightarrow> e < 4096 \<Longrightarrow> 0 < errno_linux_to_bsd e \<and> errno_linux_to_bsd e < 4096"
proof -
  assume e: "0 < e" "e < 4096"
  have "switch linux_to_darwin_last e e < 4096"
    using switch_range [of linux_to_darwin_last e e] last_range e(2) by fastforce
  then show ?thesis using e errno_abs_bound [of e] by (simp add: errno_switch)
qed

lemma error_pointer:
  assumes "- 4096 < k" "k < 0"
  shows "(- 4096 :: u64) < word_of_int k" "sint (ucast (word_of_int k :: u64) :: u32) = k"
proof -
  have "k mod 2 ^ 64 = (k + 2 ^ 64) mod 2 ^ 64" by (simp only: mod_add_self2)
  also have "\<dots> = k + 2 ^ 64" using assms by (intro mod_pos_pos_trivial) auto
  finally have "uint (word_of_int k :: u64) = k + 2 ^ 64" by (simp add: unsigned_of_int take_bit_eq_mod)
  then show "(- 4096 :: u64) < word_of_int k" using assms by (simp add: word_less_def)
  have "signed_take_bit 31 (take_bit 64 k) = signed_take_bit 31 k"
    by (simp add: signed_take_bit_take_bit)
  then show "sint (ucast (word_of_int k :: u64) :: u32) = k"
    using assms by (simp add: unsigned_of_int signed_of_int signed_take_bit_int_eq_self)
qed

section \<open>Properties\<close>

text \<open>
  The result of \<^verbatim>\<open>sys_mmap\<close>. An address the kernel returns is returned as it is; an error is
  returned as the Darwin number of the error, still in the range of addresses a caller takes for an
  error; and the mapping is anonymous, fixed, shared or private exactly if it was asked for.
\<close>

lemma sys_mmap_result:
  assumes "mm_mmap K start len (prot_bsd_to_linux prot) (xlat map_tab flags 0) fd pos w = (ret, w')"
  shows "(ret \<le> - 4096 \<longrightarrow> sys_mmap K start len prot flags fd pos w = (ret, w')) \<and>
    (\<forall>e. 0 < e \<and> e < 4096 \<and> ret = word_of_int (- e) \<longrightarrow>
       sys_mmap K start len prot flags fd pos w = (word_of_int (- errno_linux_to_bsd e), w') \<and>
       word_of_int (- errno_linux_to_bsd e) > (- 4096 :: u64)) \<and>
    (\<forall>(b, l) \<in> set map_tab. (xlat map_tab flags 0 AND l \<noteq> 0) = (flags AND b \<noteq> 0))"
proof (intro conjI)
  show "ret \<le> - 4096 \<longrightarrow> sys_mmap K start len prot flags fd pos w = (ret, w')"
    using assms by (simp add: sys_mmap_def not_less [symmetric])
  show "\<forall>(b, l) \<in> set map_tab. (xlat map_tab flags 0 AND l \<noteq> 0) = (flags AND b \<noteq> 0)"
    using map.preserved by auto
  show "\<forall>e. 0 < e \<and> e < 4096 \<and> ret = word_of_int (- e) \<longrightarrow>
       sys_mmap K start len prot flags fd pos w = (word_of_int (- errno_linux_to_bsd e), w') \<and>
       word_of_int (- errno_linux_to_bsd e) > (- 4096 :: u64)"
  proof (intro allI impI)
    fix e :: int
    assume e: "0 < e \<and> e < 4096 \<and> ret = word_of_int (- e)"
    then have r: "0 < errno_linux_to_bsd e \<and> errno_linux_to_bsd e < 4096" using errno_range by blast
    have p: "(- 4096 :: u64) < word_of_int (- e)" "sint (ucast (word_of_int (- e) :: u64) :: u32) = - e"
      "(- 4096 :: u64) < word_of_int (- errno_linux_to_bsd e)"
      by (rule error_pointer; use e r in linarith)+
    then show "sys_mmap K start len prot flags fd pos w = (word_of_int (- errno_linux_to_bsd e), w') \<and>
       word_of_int (- errno_linux_to_bsd e) > (- 4096 :: u64)"
      using assms e errno.tr_odd [of e] by (simp add: sys_mmap_def del: of_int_minus)
  qed
qed

lemma sys_mmap_result_witness:
  "sys_mmap \<lparr>mm_mmap = (\<lambda>s l p f d q w. (word_of_int (- 11), w)), mm_munmap = (\<lambda>a l w. (0, w)),
     mm_mprotect = (\<lambda>a l p w. (0, w)), mm_mincore = (\<lambda>a l w. ((0, []), w)), mm_msync = (\<lambda>a l f w. (0, w)),
     mm_madvise = (\<lambda>a l d w. (0, w))\<rparr> 0 8192 3 0x1002 (- 1) 0 () = (word_of_int (- errno_linux_to_bsd 11), ())"
  using sys_mmap_result [of "\<lparr>mm_mmap = (\<lambda>s l p f d q w. (word_of_int (- 11), w)), mm_munmap = (\<lambda>a l w. (0, w)),
     mm_mprotect = (\<lambda>a l p w. (0, w)), mm_mincore = (\<lambda>a l w. ((0, []), w)), mm_msync = (\<lambda>a l f w. (0, w)),
     mm_madvise = (\<lambda>a l d w. (0, w))\<rparr>" 0 8192 3 "0x1002" "- 1" 0 "()" "word_of_int (- 11)" "()"]
  by simp

end
