(* ===== verification/Signals.thy ===== *)
theory Signals
  imports Mman
begin

text \<open>
  Signals: \<^verbatim>\<open>signal/\<close>. The two systems number signals, signal sets, and the flags of
  \<^verbatim>\<open>sigaction\<close> differently, and the machine context a handler receives is laid out differently.
  The process keeps its own table of handlers (\<^verbatim>\<open>sig_handlers\<close>, \<^verbatim>\<open>sig_flags\<close>, \<^verbatim>\<open>sig_masks\<close>);
  \<^verbatim>\<open>sigexc_handler\<close> is installed for almost every Linux signal, asks the kernel module what to do
  and dispatches to that table.

  The Linux calls and the kernel module are parameters, the fields of the record \<open>sigcalls\<close>; so is
  the application's handler, a function of the number, the two structures it is passed, the
  process state and the world. A pointer to a handler is its address, with 0 for \<^verbatim>\<open>SIG_DFL\<close> and 1 for
  \<^verbatim>\<open>SIG_IGN\<close>. The x86-64 layout is modelled.
\<close>

section \<open>Numbers and sets\<close>

text \<open>The Linux numbers of \<^verbatim>\<open>duct_signals.h\<close> and the Darwin numbers of \<^verbatim>\<open>siglist.c\<close>, by switch label.\<close>

definition signum_linux_to_bsd_tab :: "(int \<times> int) list" where
  "signum_linux_to_bsd_tab = [
     (1, 1), (2, 2), (3, 3), (4, 4), (5, 5), (6, 6), (8, 8), (9, 9),
     (7, 10), (11, 11), (31, 12), (13, 13), (14, 14), (15, 15), (23, 16), (19, 17),
     (20, 18), (18, 19), (17, 20), (21, 21), (22, 22), (29, 23), (24, 24), (25, 25),
     (26, 26), (27, 27), (28, 28), (10, 30), (12, 31), (16, 17)]"

definition signum_bsd_to_linux_tab :: "(int \<times> int) list" where
  "signum_bsd_to_linux_tab = [
     (1, 1), (2, 2), (3, 3), (4, 4), (5, 5), (6, 6), (8, 8), (9, 9),
     (10, 7), (11, 11), (12, 31), (13, 13), (14, 14), (15, 15), (16, 23), (17, 16),
     (18, 20), (19, 18), (20, 17), (21, 21), (22, 22), (23, 29), (24, 24), (25, 25),
     (26, 26), (27, 27), (28, 28), (30, 10), (31, 12), (29, 30)]"

definition signum_linux_to_bsd :: "int \<Rightarrow> int" where
  "signum_linux_to_bsd signum = switch signum_linux_to_bsd_tab 0 signum"

definition signum_bsd_to_linux :: "int \<Rightarrow> int" where
  "signum_bsd_to_linux signum = switch signum_bsd_to_linux_tab 0 signum"

text \<open>
  The loops over the 64 bits. The shift \<^verbatim>\<open>1 << (num-1)\<close> is one of the type \<^verbatim>\<open>int\<close>, which is
  enough: no result of the switches is above 31.
\<close>

fun sigset_loop :: "(int \<Rightarrow> int) \<Rightarrow> nat list \<Rightarrow> 'a::len word \<Rightarrow> 'b::len word \<Rightarrow> 'b word" where
  "sigset_loop conv [] src dst = dst"
| "sigset_loop conv (i # is) src dst =
     sigset_loop conv is src
       (if src AND push_bit i 1 \<noteq> 0
        then let num = conv (int i + 1) in
          if num \<noteq> 0 then dst OR push_bit (nat (num - 1)) 1 else dst
        else dst)"

definition sigset_linux_to_bsd :: "u64 \<Rightarrow> u32" where
  "sigset_linux_to_bsd linux = sigset_loop signum_linux_to_bsd [0..<64] linux 0"

definition sigset_bsd_to_linux :: "u32 \<Rightarrow> u64" where
  "sigset_bsd_to_linux bsd = sigset_loop signum_bsd_to_linux [0..<64] bsd 0"

section \<open>Flags of sigaction\<close>

abbreviation (input) LINUX_SA_SIGINFO :: u32 where "LINUX_SA_SIGINFO \<equiv> 4"
abbreviation (input) LINUX_SA_RESTORER :: u32 where "LINUX_SA_RESTORER \<equiv> 0x04000000"
abbreviation (input) LINUX_SA_ONSTACK :: u32 where "LINUX_SA_ONSTACK \<equiv> 0x08000000"
abbreviation (input) LINUX_SA_RESTART :: u32 where "LINUX_SA_RESTART \<equiv> 0x10000000"
abbreviation (input) LINUX_SA_NODEFER :: u32 where "LINUX_SA_NODEFER \<equiv> 0x40000000"
abbreviation (input) LINUX_SA_RESETHAND :: u32 where "LINUX_SA_RESETHAND \<equiv> 0x80000000"

abbreviation (input) BSD_SA_RESETHAND :: u32 where "BSD_SA_RESETHAND \<equiv> 4"
abbreviation (input) BSD_SA_NODEFER :: u32 where "BSD_SA_NODEFER \<equiv> 0x10"


text \<open>\<^verbatim>\<open>NOCLDSTOP\<close>, \<^verbatim>\<open>NOCLDWAIT\<close>, \<^verbatim>\<open>ONSTACK\<close>, \<^verbatim>\<open>NODEFER\<close>, \<^verbatim>\<open>RESETHAND\<close>, \<^verbatim>\<open>RESTART\<close>.\<close>

definition sigflags_tab :: "(u32 \<times> u32) list" where
  "sigflags_tab = [(8, 1), (0x20, 2), (1, 0x08000000), (0x10, 0x40000000), (4, 0x80000000),
     (2, 0x10000000)]"

definition sigflags_bsd_to_linux :: "u32 \<Rightarrow> u32" where
  "sigflags_bsd_to_linux flags = xlat sigflags_tab flags LINUX_SA_SIGINFO"

definition sigflags_linux_to_bsd :: "u32 \<Rightarrow> u32" where
  "sigflags_linux_to_bsd flags = xlat (map prod.swap sigflags_tab) flags 0"

section \<open>Machine contexts\<close>

record linux_gregset =
  lg_r8 :: u64 lg_r9 :: u64 lg_r10 :: u64 lg_r11 :: u64 lg_r12 :: u64 lg_r13 :: u64
  lg_r14 :: u64 lg_r15 :: u64 lg_rdi :: u64 lg_rsi :: u64 lg_rbp :: u64 lg_rbx :: u64
  lg_rdx :: u64 lg_rax :: u64 lg_rcx :: u64 lg_rsp :: u64 lg_rip :: u64 lg_efl :: u64
  lg_cs :: u16 lg_gs :: u16 lg_fs :: u16
  lg_err :: u64 lg_trapno :: u64

record bsd_thread_state =
  ss_rax :: u64 ss_rbx :: u64 ss_rcx :: u64 ss_rdx :: u64 ss_rdi :: u64 ss_rsi :: u64
  ss_rbp :: u64 ss_rsp :: u64 ss_r8 :: u64 ss_r9 :: u64 ss_r10 :: u64 ss_r11 :: u64
  ss_r12 :: u64 ss_r13 :: u64 ss_r14 :: u64 ss_r15 :: u64 ss_rip :: u64 ss_rflags :: u64
  ss_cs :: u64 ss_fs :: u64 ss_gs :: u64

record stack =
  sk_sp :: u64
  sk_size :: u64
  sk_flags :: u32

record linux_ucontext =
  lu_stack :: stack
  lu_gregs :: linux_gregset
  lu_sigmask :: u64

record bsd_mcontext =
  mc_trapno :: u16
  mc_cpu :: u16
  mc_err :: u32
  mc_faultvaddr :: u64
  mc_ss :: bsd_thread_state

record bsd_ucontext =
  bu_onstack :: int
  bu_sigmask :: u32
  bu_stack :: stack
  bu_mcsize :: u64
  bu_mcontext :: bsd_mcontext

text \<open>The register copies of \<^verbatim>\<open>ucontext_linux_to_bsd\<close> and \<^verbatim>\<open>mcontext_to_thread_state\<close>.\<close>

definition gregs_to_thread_state :: "linux_gregset \<Rightarrow> bsd_thread_state" where
  "gregs_to_thread_state g = \<lparr>
     ss_rax = lg_rax g, ss_rbx = lg_rbx g, ss_rcx = lg_rcx g, ss_rdx = lg_rdx g, ss_rdi = lg_rdi g,
     ss_rsi = lg_rsi g, ss_rbp = lg_rbp g, ss_rsp = lg_rsp g, ss_r8 = lg_r8 g, ss_r9 = lg_r9 g,
     ss_r10 = lg_r10 g, ss_r11 = lg_r11 g, ss_r12 = lg_r12 g, ss_r13 = lg_r13 g, ss_r14 = lg_r14 g,
     ss_r15 = lg_r15 g, ss_rip = lg_rip g, ss_rflags = lg_efl g,
     ss_cs = scast (lg_cs g), ss_fs = scast (lg_fs g), ss_gs = scast (lg_gs g)\<rparr>"

definition thread_state_to_gregs :: "bsd_thread_state \<Rightarrow> linux_gregset \<Rightarrow> linux_gregset" where
  "thread_state_to_gregs s g = g\<lparr>
     lg_rax := ss_rax s, lg_rbx := ss_rbx s, lg_rcx := ss_rcx s, lg_rdx := ss_rdx s, lg_rdi := ss_rdi s,
     lg_rsi := ss_rsi s, lg_rbp := ss_rbp s, lg_rsp := ss_rsp s, lg_r8 := ss_r8 s, lg_r9 := ss_r9 s,
     lg_r10 := ss_r10 s, lg_r11 := ss_r11 s, lg_r12 := ss_r12 s, lg_r13 := ss_r13 s, lg_r14 := ss_r14 s,
     lg_r15 := ss_r15 s, lg_rip := ss_rip s, lg_efl := ss_rflags s,
     lg_cs := ucast (ss_cs s), lg_fs := ucast (ss_fs s), lg_gs := ucast (ss_gs s)\<rparr>"

definition ucontext_linux_to_bsd :: "linux_ucontext \<Rightarrow> bsd_ucontext" where
  "ucontext_linux_to_bsd lc = \<lparr>
     bu_onstack = 1, bu_sigmask = sigset_linux_to_bsd (lu_sigmask lc), bu_stack = lu_stack lc,
     bu_mcsize = 184,
     bu_mcontext = \<lparr>mc_trapno = ucast (lg_trapno (lu_gregs lc)), mc_cpu = 0,
       mc_err = ucast (lg_err (lu_gregs lc)), mc_faultvaddr = lg_rip (lu_gregs lc),
       mc_ss = gregs_to_thread_state (lu_gregs lc)\<rparr>\<rparr>"

definition mcontext_bsd_to_linux :: "bsd_mcontext \<Rightarrow> linux_ucontext \<Rightarrow> linux_ucontext" where
  "mcontext_bsd_to_linux bm lc = lc\<lparr>lu_gregs := thread_state_to_gregs (mc_ss bm) (lu_gregs lc)\<rparr>"

text \<open>
  \<^verbatim>\<open>struct linux_siginfo\<close>: the process and user id share their eight bytes with the address.
\<close>

record linux_siginfo =
  li_signo :: int
  li_errno :: int
  li_code :: int
  li_union :: u64
  li_value :: u64

record bsd_siginfo =
  bi_signo :: int
  bi_errno :: int
  bi_code :: int
  bi_pid :: u32
  bi_uid :: u32
  bi_status :: int
  bi_addr :: u64
  bi_val_ptr :: u64
  bi_band :: int

definition siginfo_linux_to_bsd :: "linux_siginfo \<Rightarrow> bsd_siginfo" where
  "siginfo_linux_to_bsd info = \<lparr>
     bi_signo = signum_linux_to_bsd (li_signo info), bi_errno = errno_linux_to_bsd (li_errno info),
     bi_code = li_code info, bi_pid = ucast (li_union info), bi_uid = ucast (drop_bit 32 (li_union info)),
     bi_status = 0, bi_addr = li_union info, bi_val_ptr = li_value info, bi_band = 0\<rparr>"

section \<open>The handler table\<close>

abbreviation (input) SIG_DFL :: u64 where "SIG_DFL \<equiv> 0"
abbreviation (input) SIG_IGN :: u64 where "SIG_IGN \<equiv> 1"
abbreviation (input) SIG_ERR :: u64 where "SIG_ERR \<equiv> - 1"

abbreviation (input) LINUX_SIGCHLD :: int where "LINUX_SIGCHLD \<equiv> 17"
abbreviation (input) LINUX_SIGCONT :: int where "LINUX_SIGCONT \<equiv> 18"
abbreviation (input) LINUX_SIGTTOU :: int where "LINUX_SIGTTOU \<equiv> 22"
abbreviation (input) LINUX_SIGSTOP :: int where "LINUX_SIGSTOP \<equiv> 19"
abbreviation (input) LINUX_SIGKILL :: int where "LINUX_SIGKILL \<equiv> 9"

record sigstate =
  sa_tramp :: u64
  sig_handlers :: "u64 list"
  sig_flags :: "u32 list"
  sig_masks :: "u32 list"

definition sigstate_init :: sigstate where
  "sigstate_init = \<lparr>sa_tramp = 0,
     sig_handlers = (replicate 32 SIG_DFL)[28 := SIG_IGN, 17 := SIG_IGN, 23 := SIG_IGN],
     sig_flags = replicate 32 0, sig_masks = replicate 32 0\<rparr>"

record bsd_sigaction =
  sa_sigaction :: u64
  sa_mask :: u32
  sa_flags :: u32

record bsd_tsigaction = bsd_sigaction +
  sa_nsa_tramp :: u64

record linux_sigaction =
  lsa_sigaction :: u64
  lsa_flags :: u32
  lsa_restorer :: u64
  lsa_mask :: u64

record 'w sigcalls = "'w mmcalls" +
  rt_sigaction :: "int \<Rightarrow> linux_sigaction \<Rightarrow> 'w \<Rightarrow> (int \<times> linux_sigaction) \<times> 'w"
  rt_sigprocmask :: "int \<Rightarrow> u64 option \<Rightarrow> 'w \<Rightarrow> (int \<times> u64) \<times> 'w"
  rt_sigpending :: "u64 \<Rightarrow> 'w \<Rightarrow> int \<times> 'w"
  rt_sigsuspend :: "u64 \<Rightarrow> 'w \<Rightarrow> int \<times> 'w"
  rt_sigtimedwait :: "u64 \<Rightarrow> 'w \<Rightarrow> (int \<times> linux_siginfo) \<times> 'w"
  sc_sigaltstack :: "stack option \<Rightarrow> 'w \<Rightarrow> (int \<times> stack) \<times> 'w"
  sc_kill :: "int \<Rightarrow> int \<Rightarrow> 'w \<Rightarrow> int \<times> 'w"
  lkm_sigprocess :: "int \<Rightarrow> linux_siginfo \<Rightarrow> bsd_thread_state \<Rightarrow> 'w \<Rightarrow> (int \<times> bsd_thread_state) \<times> 'w"
  fn_sig_restorer :: u64
  fn_handler_linux_to_bsd :: u64
  fn_sigexc_handler :: u64

section \<open>System calls\<close>

definition save_action :: "int \<Rightarrow> bsd_tsigaction \<Rightarrow> sigstate \<Rightarrow> sigstate" where
  "save_action n nsa st = st\<lparr>
     sig_handlers := (sig_handlers st)[nat n := sa_sigaction nsa],
     sig_flags := (sig_flags st)[nat n := sa_flags nsa],
     sig_masks := (sig_masks st)[nat n := sa_mask nsa]\<rparr>"

text \<open>The action handed to the Linux kernel for the two signals that bypass \<^verbatim>\<open>sigexc_handler\<close>.\<close>

definition direct_action :: "'w sigcalls \<Rightarrow> bsd_tsigaction \<Rightarrow> linux_sigaction" where
  "direct_action K nsa = \<lparr>
     lsa_sigaction = (if sa_sigaction nsa \<noteq> SIG_DFL \<and> sa_sigaction nsa \<noteq> SIG_IGN \<and> sa_sigaction nsa \<noteq> SIG_ERR
                      then fn_handler_linux_to_bsd K else sa_sigaction nsa),
     lsa_flags = sigflags_bsd_to_linux (sa_flags nsa) OR LINUX_SA_RESTORER,
     lsa_restorer = fn_sig_restorer K, lsa_mask = sigset_bsd_to_linux (sa_mask nsa)\<rparr>"

text \<open>
  \<^verbatim>\<open>sys_sigaction\<close>: the result, what is stored at \<^verbatim>\<open>osa\<close> if the caller wants it, the table and
  the world. A signal unknown to Linux is accepted and ignored.
\<close>

definition sys_sigaction ::
    "'w sigcalls \<Rightarrow> int \<Rightarrow> bsd_tsigaction option \<Rightarrow> bool \<Rightarrow> sigstate \<Rightarrow> 'w \<Rightarrow>
     int \<times> bsd_sigaction option \<times> sigstate \<times> 'w" where
  "sys_sigaction K signum nsa want st w =
     (let n = signum_bsd_to_linux signum;
          osa = (\<lambda>a. if want then Some a else None);
          saved = \<lparr>sa_sigaction = sig_handlers st ! nat n, sa_mask = sig_masks st ! nat n,
                   sa_flags = sig_flags st ! nat n\<rparr>
      in if n = 0 then (0, osa \<lparr>sa_sigaction = 0, sa_mask = 0, sa_flags = 0\<rparr>, st, w)
      else case nsa of
        None \<Rightarrow> (0, osa saved, st, w)
      | Some a \<Rightarrow>
          if n = LINUX_SIGCHLD \<or> n = LINUX_SIGTTOU then
            let st' = st\<lparr>sa_tramp := sa_nsa_tramp a\<rparr>;
                ((ret, olsa), w) = rt_sigaction K n (direct_action K a) w
            in if ret < 0 then (errno_linux_to_bsd ret, None, st', w)
               else (0, osa \<lparr>sa_sigaction = (if lsa_sigaction olsa = fn_handler_linux_to_bsd K
                                            then sig_handlers st ! nat n else lsa_sigaction olsa),
                             sa_mask = sigset_linux_to_bsd (lsa_mask olsa),
                             sa_flags = sigflags_linux_to_bsd (lsa_flags olsa)\<rparr>,
                     save_action n a st', w)
          else (0, osa saved, save_action n a st, w))"

definition spchow_bsd_to_linux :: "int \<Rightarrow> int" where
  "spchow_bsd_to_linux how = how - 1"

definition sys_sigprocmask ::
    "'w sigcalls \<Rightarrow> int \<Rightarrow> u32 option \<Rightarrow> bool \<Rightarrow> 'w \<Rightarrow> int \<times> u32 option \<times> 'w" where
  "sys_sigprocmask K how sset want w =
     (let ((ret, out), w) = rt_sigprocmask K (spchow_bsd_to_linux how) (map_option sigset_bsd_to_linux sset) w in
      if ret < 0 then (errno_linux_to_bsd ret, None, w)
      else (ret, if want then Some (sigset_linux_to_bsd out) else None, w))"

definition sys_kill :: "'w sigcalls \<Rightarrow> int \<Rightarrow> int \<Rightarrow> 'w \<Rightarrow> int \<times> 'w" where
  "sys_kill K pid signum w =
     (let n = signum_bsd_to_linux signum in
      if signum \<noteq> 0 \<and> n = 0 then (- 22, w)
      else let (ret, w) = sc_kill K pid n w in (ret_bsd ret, w))"

definition sys_sigpending :: "'w sigcalls \<Rightarrow> u32 \<Rightarrow> 'w \<Rightarrow> int \<times> 'w" where
  "sys_sigpending K sset w =
     (let (ret, w) = rt_sigpending K (sigset_bsd_to_linux sset) w in (ret_bsd ret, w))"

definition sys_sigsuspend_nocancel :: "'w sigcalls \<Rightarrow> u32 \<Rightarrow> 'w \<Rightarrow> int \<times> 'w" where
  "sys_sigsuspend_nocancel K sset w =
     (let (ret, w) = rt_sigsuspend K (sigset_bsd_to_linux sset) w in (ret_bsd ret, w))"

definition sys_sigwait_nocancel :: "'w sigcalls \<Rightarrow> u32 \<Rightarrow> 'w \<Rightarrow> int \<times> int option \<times> 'w" where
  "sys_sigwait_nocancel K sset w =
     (let ((ret, si), w) = rt_sigtimedwait K (sigset_bsd_to_linux sset) w in
      if ret < 0 then (errno_linux_to_bsd ret, None, w)
      else (ret, Some (signum_linux_to_bsd (li_signo si)), w))"

definition sys_sigaltstack :: "'w sigcalls \<Rightarrow> stack option \<Rightarrow> 'w \<Rightarrow> int \<times> stack option \<times> 'w" where
  "sys_sigaltstack K ss w =
     (let ((ret, loss), w) = sc_sigaltstack K ss w in
      if ret < 0 then (errno_linux_to_bsd ret, None, w) else (0, Some loss, w))"

section \<open>Delivery\<close>

text \<open>
  The application's handler, called with the Darwin number, the two structures and the process
  state, may change the context it is passed, the table and the world.
\<close>

type_synonym 'w app = "u64 \<Rightarrow> int \<Rightarrow> bsd_siginfo option \<Rightarrow> bsd_ucontext option \<Rightarrow> sigstate \<Rightarrow> 'w \<Rightarrow>
  bsd_ucontext option \<times> sigstate \<times> 'w"

definition reset_handler :: "int \<Rightarrow> sigstate \<Rightarrow> sigstate" where
  "reset_handler n st =
     (if sig_flags st ! nat n AND LINUX_SA_RESETHAND \<noteq> 0
      then st\<lparr>sig_handlers := (sig_handlers st)[nat n := if n \<in> {28, 17, 23} then SIG_IGN else SIG_DFL]\<rparr>
      else st)"

definition handler_linux_to_bsd ::
    "'w app \<Rightarrow> int \<Rightarrow> linux_siginfo option \<Rightarrow> linux_ucontext option \<Rightarrow> sigstate \<Rightarrow> 'w \<Rightarrow>
     linux_ucontext option \<times> sigstate \<times> 'w" where
  "handler_linux_to_bsd app n info lc st w =
     (let handler = sig_handlers st ! nat n;
          (bc, st, w) = app handler (signum_linux_to_bsd n) (map_option siginfo_linux_to_bsd info)
            (map_option ucontext_linux_to_bsd lc) (reset_handler n st) w
      in (case (lc, bc) of
            (Some l, Some b) \<Rightarrow> Some (mcontext_bsd_to_linux (bu_mcontext b) l)
          | _ \<Rightarrow> lc, st, w))"

definition default_action :: "'w sigcalls \<Rightarrow> linux_sigaction" where
  "default_action K = \<lparr>lsa_sigaction = 0,
     lsa_flags = LINUX_SA_RESTORER OR LINUX_SA_SIGINFO OR LINUX_SA_RESTART OR LINUX_SA_ONSTACK,
     lsa_restorer = fn_sig_restorer K, lsa_mask = 0x7fffffff\<rparr>"

text \<open>The signal mask in force while the application's handler runs.\<close>

definition forward_mask :: "int \<Rightarrow> sigstate \<Rightarrow> u64" where
  "forward_mask n st =
     (let sset = ucast (sig_masks st ! nat n) in
      if sig_flags st ! nat n AND LINUX_SA_NODEFER = 0 then sset OR push_bit (nat (n - 1)) 1 else sset)"

definition sigexc_dispatch ::
    "'w sigcalls \<Rightarrow> 'w app \<Rightarrow> int \<Rightarrow> linux_siginfo \<Rightarrow> linux_ucontext \<Rightarrow> sigstate \<Rightarrow> 'w \<Rightarrow>
     linux_ucontext \<times> sigstate \<times> 'w" where
  "sigexc_dispatch K app signum info ctxt st w =
     (let n = signum_bsd_to_linux signum;
          handler = sig_handlers st ! nat n
      in if handler = SIG_IGN then (ctxt, st, w)
         else if handler \<noteq> SIG_DFL then
           let w = snd (rt_sigprocmask K 2 (Some (forward_mask n st)) w);
               (lc, st, w) = handler_linux_to_bsd app n (Some info) (Some ctxt) st w
           in (case lc of Some c \<Rightarrow> c | None \<Rightarrow> ctxt, st, w)
         else if signum = 18 \<or> signum = 17 then (ctxt, st, snd (sc_kill K 0 LINUX_SIGSTOP w))
         else (ctxt, st, snd (sc_kill K 0 n (snd (rt_sigaction K n (default_action K) w)))))"

definition sigexc_handler ::
    "'w sigcalls \<Rightarrow> 'w app \<Rightarrow> int \<Rightarrow> linux_siginfo \<Rightarrow> linux_ucontext \<Rightarrow> sigstate \<Rightarrow> 'w \<Rightarrow>
     linux_ucontext \<times> sigstate \<times> 'w" where
  "sigexc_handler K app n info ctxt st w =
     (if n = LINUX_SIGCONT \<or> signum_linux_to_bsd n \<le> 0 then (ctxt, st, w)
      else
        let ((signum, tstate), w) =
              lkm_sigprocess K (signum_linux_to_bsd n) info (gregs_to_thread_state (lu_gregs ctxt)) w;
            ctxt = ctxt\<lparr>lu_gregs := thread_state_to_gregs tstate (lu_gregs ctxt)\<rparr>
        in if signum = 0 then (ctxt, st, w) else sigexc_dispatch K app signum info ctxt st w)"

text \<open>\<^verbatim>\<open>darling_sigexc_self\<close>: installing the handler for the signals 1 to 31, with three exceptions.\<close>

definition sigexc_action :: "'w sigcalls \<Rightarrow> nat \<Rightarrow> linux_sigaction" where
  "sigexc_action K rtmin = \<lparr>lsa_sigaction = fn_sigexc_handler K,
     lsa_flags = LINUX_SA_RESTORER OR LINUX_SA_SIGINFO OR LINUX_SA_RESTART OR LINUX_SA_ONSTACK,
     lsa_restorer = fn_sig_restorer K, lsa_mask = 0x7fffffff OR push_bit (rtmin - 1) 1\<rparr>"

fun sigexc_install :: "'w sigcalls \<Rightarrow> nat \<Rightarrow> int list \<Rightarrow> 'w \<Rightarrow> 'w" where
  "sigexc_install K rtmin [] w = w"
| "sigexc_install K rtmin (i # is) w =
     sigexc_install K rtmin is
       (if i = LINUX_SIGSTOP \<or> i = LINUX_SIGKILL \<or> i = LINUX_SIGCHLD then w
        else snd (rt_sigaction K i (sigexc_action K rtmin) w))"

definition darling_sigexc_self :: "'w sigcalls \<Rightarrow> nat \<Rightarrow> u64 \<Rightarrow> 'w \<Rightarrow> 'w" where
  "darling_sigexc_self K rtmin altstack w =
     snd (snd (sys_sigaltstack K (Some \<lparr>sk_sp = altstack, sk_size = 8192, sk_flags = 0\<rparr>)
       (sigexc_install K rtmin [1..31] w)))"

text \<open>The alternate stack of a thread; the exit passes \<^verbatim>\<open>ss_flags\<close> for the length.\<close>

definition sigexc_thread_setup :: "'w sigcalls \<Rightarrow> 'w \<Rightarrow> 'w" where
  "sigexc_thread_setup K w =
     (let (sp, w) = sys_mmap K 0 8192 3 0x1002 (- 1) 0 w in
      snd (snd (sys_sigaltstack K (Some \<lparr>sk_sp = sp, sk_size = 8192, sk_flags = 0\<rparr>) w)))"

definition sigexc_thread_exit :: "'w sigcalls \<Rightarrow> stack \<Rightarrow> 'w \<Rightarrow> 'w" where
  "sigexc_thread_exit K uninit w =
     (let (ret, oss, w) = sys_sigaltstack K None w;
          old = (case oss of Some s \<Rightarrow> s | None \<Rightarrow> uninit)
      in snd (sys_munmap K (sk_sp old) (scast (sk_flags old)) w))"

section \<open>Lemmas on numbers, sets and flags\<close>

text \<open>The signals that have a counterpart: all but \<^verbatim>\<open>SIGEMT\<close> (7) and \<^verbatim>\<open>SIGINFO\<close> (29).\<close>

definition sig_tab :: "(int \<times> int) list" where
  "sig_tab = filter (\<lambda>(b, l). b \<noteq> 29) signum_bsd_to_linux_tab"

interpretation sig: switch_codec sig_tab
  by unfold_locales (code_simp, code_simp)

lemma sig_back: "l \<noteq> 19 \<Longrightarrow> signum_linux_to_bsd l = switch (map prod.swap sig_tab) 0 l"
  by (simp add: signum_linux_to_bsd_def signum_linux_to_bsd_tab_def sig_tab_def signum_bsd_to_linux_tab_def)

lemma sig_forward: "s \<noteq> 29 \<Longrightarrow> signum_bsd_to_linux s = switch sig_tab 0 s"
  by (simp add: signum_bsd_to_linux_def sig_tab_def signum_bsd_to_linux_tab_def)

lemma sig_keys: "s \<in> fst ` set sig_tab \<longleftrightarrow> s \<in> {1..31} - {7, 29}"
proof -
  have "set [1..31] - {7, 29} \<subseteq> fst ` set sig_tab" "fst ` set sig_tab \<subseteq> set [1..31] - {7, 29}"
    by code_simp+
  then show ?thesis by auto
qed

lemma sig_range: "signum_bsd_to_linux s \<in> {0..31} - {19}" "signum_linux_to_bsd l \<in> {0..31}"
proof -
  have "set (map snd signum_bsd_to_linux_tab) \<subseteq> set [0..31] - {19}"
    "set (map snd signum_linux_to_bsd_tab) \<subseteq> set [0..31]" by code_simp+
  then show "signum_bsd_to_linux s \<in> {0..31} - {19}" "signum_linux_to_bsd l \<in> {0..31}"
    using switch_range [of signum_bsd_to_linux_tab 0 s] switch_range [of signum_linux_to_bsd_tab 0 l]
    by (auto simp: signum_bsd_to_linux_def signum_linux_to_bsd_def)
qed

lemma sig_roundtrip:
  assumes "s \<in> {1..31} - {7, 29}"
  shows "signum_linux_to_bsd (signum_bsd_to_linux s) = s"
proof -
  have "s \<in> fst ` set sig_tab" using assms sig_keys by blast
  then show ?thesis
    using sig.forward_backward [of s 0 0] sig_back [of "signum_bsd_to_linux s"] sig_forward [of s] assms
      sig_range(1) [of s]
    by auto
qed

lemma sig_unmapped: "s \<notin> {1..31} - {7, 29} \<Longrightarrow> signum_linux_to_bsd (signum_bsd_to_linux s) = 0"
proof (cases "s = 29")
  case True
  have "signum_linux_to_bsd (signum_bsd_to_linux 29) = 0" by code_simp
  then show ?thesis using True by simp
next
  case False
  assume "s \<notin> {1..31} - {7, 29}"
  then have "signum_bsd_to_linux s = 0"
    using sig_keys [of s] sig_forward [OF False] switch_default [of s sig_tab 0] by auto
  moreover have "signum_linux_to_bsd 0 = 0" by code_simp
  ultimately show ?thesis by simp
qed

lemma bit_sigset_loop:
  "bit (sigset_loop conv is (src :: 'a::len word) (dst :: 'b::len word)) n \<longleftrightarrow> bit dst n \<or>
     (\<exists>i \<in> set is. bit src i \<and> conv (int i + 1) \<noteq> 0 \<and> nat (conv (int i + 1) - 1) = n \<and> n < LENGTH('b))"
proof (induction "is" arbitrary: dst)
  case (Cons i "is")
  have "bit (push_bit k 1 :: 'b word) n \<longleftrightarrow> k = n \<and> n < LENGTH('b)" for k
    by (auto simp: bit_exp_iff)
  then show ?case unfolding sigset_loop.simps Cons and_push_bit_1
    by (auto simp: Let_def bit_or_iff)
qed simp

lemma bit_sigset_bsd_to_linux:
  "bit (sigset_bsd_to_linux s) n \<longleftrightarrow> (\<exists>i < 64. bit s i \<and> signum_bsd_to_linux (int i + 1) = int n + 1)"
proof -
  have "(signum_bsd_to_linux k \<noteq> 0 \<and> nat (signum_bsd_to_linux k - 1) = n \<and> n < 64) = (signum_bsd_to_linux k = int n + 1)" for k
    using sig_range(1) [of k] by auto
  then show ?thesis by (auto simp: sigset_bsd_to_linux_def bit_sigset_loop)
qed

lemma bit_sigset_linux_to_bsd:
  "bit (sigset_linux_to_bsd s) n \<longleftrightarrow> (\<exists>i < 64. bit s i \<and> signum_linux_to_bsd (int i + 1) = int n + 1)"
proof -
  have "(signum_linux_to_bsd k \<noteq> 0 \<and> nat (signum_linux_to_bsd k - 1) = n \<and> n < 32) = (signum_linux_to_bsd k = int n + 1)" for k
    using sig_range(2) [of k] by auto
  then show ?thesis by (auto simp: sigset_linux_to_bsd_def bit_sigset_loop)
qed

interpretation sigflags: flag_codec sigflags_tab
  by unfold_locales (simp_all add: sigflags_tab_def single_bits)

lemma sigflags_back:
  "sigflags_linux_to_bsd (sigflags_bsd_to_linux f OR LINUX_SA_RESTORER) = f AND 0x3F"
proof -
  have "sigflags_bsd_to_linux f OR LINUX_SA_RESTORER =
      xlat sigflags_tab f 0 OR (LINUX_SA_SIGINFO OR LINUX_SA_RESTORER)"
    by (simp add: sigflags_bsd_to_linux_def xlat_out [of sigflags_tab f LINUX_SA_SIGINFO] or.assoc or.commute or.left_commute)
  moreover have "list_all (\<lambda>(s, d). (LINUX_SA_SIGINFO OR LINUX_SA_RESTORER) AND s = 0) (map prod.swap sigflags_tab)"
    by code_simp
  moreover have "or_all (map fst sigflags_tab) = 0x3F" by code_simp
  ultimately show ?thesis
    using sigflags.roundtrip [of f] by (simp add: sigflags_linux_to_bsd_def xlat_ignore)
qed

lemma ucast_scast_u16: "ucast (scast (w :: u16) :: u64) = w"
  by (rule bit_word_eqI) (simp add: bit_simps min_absorb2)

lemma gregs_roundtrip: "thread_state_to_gregs (gregs_to_thread_state g) g = g"
  by (simp add: thread_state_to_gregs_def gregs_to_thread_state_def ucast_scast_u16)

text \<open>The tables have an entry for every number the switches return.\<close>

definition sigstate_wf :: "sigstate \<Rightarrow> bool" where
  "sigstate_wf st \<longleftrightarrow> length (sig_handlers st) = 32 \<and> length (sig_flags st) = 32 \<and> length (sig_masks st) = 32"

lemma sig_index: "nat (signum_bsd_to_linux s) < 32"
  using sig_range(1) [of s] by auto

lemma sigstate_wf_init: "sigstate_wf sigstate_init"
  by (simp add: sigstate_wf_def sigstate_init_def)

lemma save_action_wf: "sigstate_wf st \<Longrightarrow> sigstate_wf (save_action n a st)"
  by (simp add: sigstate_wf_def save_action_def)

lemma sigaction_saves:
  assumes "sys_sigaction K s (Some a) want st w = (0, osa, st', w')" "sigstate_wf st" "signum_bsd_to_linux s \<noteq> 0"
  shows "sigstate_wf st'" "sig_handlers st' ! nat (signum_bsd_to_linux s) = sa_sigaction a"
    "sig_flags st' ! nat (signum_bsd_to_linux s) = sa_flags a"
    "sig_masks st' ! nat (signum_bsd_to_linux s) = sa_mask a"
proof -
  let ?n = "signum_bsd_to_linux s"
  have "st' = save_action ?n a st \<or> st' = save_action ?n a (st\<lparr>sa_tramp := sa_nsa_tramp a\<rparr>)"
    using assms(1,3) errno.tr_neg
    by (auto simp: sys_sigaction_def Let_def split: if_splits prod.splits) (metis less_irrefl)+
  then show "sigstate_wf st'" "sig_handlers st' ! nat ?n = sa_sigaction a"
    "sig_flags st' ! nat ?n = sa_flags a" "sig_masks st' ! nat ?n = sa_mask a"
    using assms(2) sig_index [of s] by (auto simp: save_action_def sigstate_wf_def)
qed

section \<open>Properties\<close>

text \<open>
  C6: signal numbers. Every Darwin signal but \<^verbatim>\<open>SIGEMT\<close> (7) and \<^verbatim>\<open>SIGINFO\<close> (29) survives the way
  to Linux and back, among them \<^verbatim>\<open>SIGSTOP\<close>, which travels as \<^verbatim>\<open>SIGSTKFLT\<close>; any other number
  comes back as 0, the value the callers take for ``no such signal''. The Linux number is an index
  of the handler table in either case.
\<close>

theorem signum_roundtrip:
  "signum_linux_to_bsd (signum_bsd_to_linux s) = (if s \<in> {1..31} - {7, 29} then s else 0) \<and>
   nat (signum_bsd_to_linux s) < 32"
  using sig_roundtrip sig_unmapped sig_index by simp

text \<open>
  C8: signal sets. A Darwin signal mask translated to Linux and back is the mask without the bits of
  the signals that have no counterpart.
\<close>

theorem sigset_roundtrip: "sigset_linux_to_bsd (sigset_bsd_to_linux s) = s AND 0x6FFFFFBF"
proof (rule bit_word_eqI)
  fix n
  assume n: "n < LENGTH(32)"
  have m: "bit (0x6FFFFFBF :: u32) n \<longleftrightarrow> int n + 1 \<in> {1..31} - {7, 29}"
  proof -
    have "list_all (\<lambda>n. bit (0x6FFFFFBF :: u32) n = (n \<le> 30 \<and> n \<noteq> 6 \<and> n \<noteq> 28)) [0..<32]" by code_simp
    then have "bit (0x6FFFFFBF :: u32) n = (n \<le> 30 \<and> n \<noteq> 6 \<and> n \<noteq> 28)" using n by (simp add: list_all_iff)
    then show ?thesis by auto
  qed
  have comp: "(\<exists>j < 64. signum_bsd_to_linux (int i + 1) = int j + 1 \<and> signum_linux_to_bsd (int j + 1) = int n + 1) \<longleftrightarrow>
      i = n \<and> int n + 1 \<in> {1..31} - {7, 29}" for i
  proof
    assume "\<exists>j < 64. signum_bsd_to_linux (int i + 1) = int j + 1 \<and> signum_linux_to_bsd (int j + 1) = int n + 1"
    then have "signum_linux_to_bsd (signum_bsd_to_linux (int i + 1)) = int n + 1" by auto
    then show "i = n \<and> int n + 1 \<in> {1..31} - {7, 29}"
      using sig_roundtrip [of "int i + 1"] sig_unmapped [of "int i + 1"] by (cases "int i + 1 \<in> {1..31} - {7, 29}") auto
  next
    assume a: "i = n \<and> int n + 1 \<in> {1..31} - {7, 29}"
    then have r: "signum_linux_to_bsd (signum_bsd_to_linux (int n + 1)) = int n + 1" using sig_roundtrip by blast
    have "signum_bsd_to_linux (int n + 1) \<noteq> 0"
    proof
      assume "signum_bsd_to_linux (int n + 1) = 0"
      moreover have "signum_linux_to_bsd 0 = 0" by code_simp
      ultimately show False using r by simp
    qed
    then show "\<exists>j < 64. signum_bsd_to_linux (int i + 1) = int j + 1 \<and> signum_linux_to_bsd (int j + 1) = int n + 1"
      using sig_range(1) [of "int n + 1"] r a
      by (intro exI [of _ "nat (signum_bsd_to_linux (int n + 1) - 1)"]) auto
  qed
  have "bit (sigset_linux_to_bsd (sigset_bsd_to_linux s)) n \<longleftrightarrow>
      (\<exists>i < 64. bit s i \<and> (\<exists>j < 64. signum_bsd_to_linux (int i + 1) = int j + 1 \<and> signum_linux_to_bsd (int j + 1) = int n + 1))"
    unfolding bit_sigset_linux_to_bsd bit_sigset_bsd_to_linux by blast
  also have "\<dots> \<longleftrightarrow> bit (s AND 0x6FFFFFBF) n"
    unfolding comp bit_and_iff m using n by auto
  finally show "bit (sigset_linux_to_bsd (sigset_bsd_to_linux s)) n \<longleftrightarrow> bit (s AND 0x6FFFFFBF) n" .
qed

text \<open>For the witnesses: a kernel that accepts everything, and an action for \<^verbatim>\<open>SIGINT\<close>.\<close>

definition quiet_calls :: "'w sigcalls" where
  "quiet_calls = \<lparr>mm_mmap = (\<lambda>s l p f d q w. (4096, w)), mm_munmap = (\<lambda>a l w. (0, w)),
     mm_mprotect = (\<lambda>a l p w. (0, w)), mm_mincore = (\<lambda>a l w. ((0, []), w)),
     mm_msync = (\<lambda>a l f w. (0, w)), mm_madvise = (\<lambda>a l d w. (0, w)), rt_sigaction = (\<lambda>n a w. ((0, a), w)), rt_sigprocmask = (\<lambda>h s w. ((0, 0), w)),
     rt_sigpending = (\<lambda>s w. (0, w)), rt_sigsuspend = (\<lambda>s w. (- 4, w)),
     rt_sigtimedwait = (\<lambda>s w. ((2, \<lparr>li_signo = 2, li_errno = 0, li_code = 0, li_union = 0, li_value = 0\<rparr>), w)),
     sc_sigaltstack = (\<lambda>s w. ((0, \<lparr>sk_sp = 0, sk_size = 0, sk_flags = 0\<rparr>), w)), sc_kill = (\<lambda>p s w. (0, w)),
     lkm_sigprocess = (\<lambda>n i t w. ((n, t), w)),
     fn_sig_restorer = 16, fn_handler_linux_to_bsd = 32, fn_sigexc_handler = 48\<rparr>"

definition sample_gregs :: linux_gregset where
  "sample_gregs = \<lparr>lg_r8 = 8, lg_r9 = 9, lg_r10 = 10, lg_r11 = 11, lg_r12 = 12, lg_r13 = 13, lg_r14 = 14,
     lg_r15 = 15, lg_rdi = 1, lg_rsi = 2, lg_rbp = 3, lg_rbx = 4, lg_rdx = 5, lg_rax = 6, lg_rcx = 7, lg_rsp = 0x7FFF0000,
     lg_rip = 0x400000, lg_efl = 0x246, lg_cs = 0x33, lg_gs = 0, lg_fs = 0xFFFF, lg_err = 0, lg_trapno = 14\<rparr>"

definition int_action :: "u32 \<Rightarrow> bsd_tsigaction" where
  "int_action f = \<lparr>sa_sigaction = 0x1000, sa_mask = 6, sa_flags = f, sa_nsa_tramp = 0x2000\<rparr>"

lemma int_action_set:
  "signum_bsd_to_linux 2 = 2"
  "\<exists>osa. sys_sigaction quiet_calls 2 (Some (int_action f)) False sigstate_init () =
     (0, osa, save_action 2 (int_action f) sigstate_init, ())"
proof -
  show s: "signum_bsd_to_linux 2 = 2" by code_simp
  show "\<exists>osa. sys_sigaction quiet_calls 2 (Some (int_action f)) False sigstate_init () =
     (0, osa, save_action 2 (int_action f) sigstate_init, ())"
    by (simp add: sys_sigaction_def s)
qed

text \<open>
  C10: what is set is what is found. After a successful \<^verbatim>\<open>sys_sigaction\<close> that installs an action for a
  signal Linux knows, asking for the action returns exactly the handler, the mask and the flags
  that were given, without changing the table, whatever the kernel did; the table keeps its shape.
\<close>

theorem sigaction_set_get:
  assumes "sys_sigaction K s (Some a) want st w = (0, osa, st', w')" "sigstate_wf st"
    "signum_bsd_to_linux s \<noteq> 0"
  shows "sys_sigaction K s None True st' v =
     (0, Some \<lparr>sa_sigaction = sa_sigaction a, sa_mask = sa_mask a, sa_flags = sa_flags a\<rparr>, st', v) \<and>
   sigstate_wf st'"
  using sigaction_saves [OF assms] assms(3) by (simp add: sys_sigaction_def Let_def)

theorem sigaction_set_get_witness:
  "\<exists>st'. sys_sigaction quiet_calls 2 None True st' () =
     (0, Some \<lparr>sa_sigaction = 0x1000, sa_mask = 6, sa_flags = 2\<rparr>, st', ())"
proof -
  obtain osa where "sys_sigaction quiet_calls 2 (Some (int_action 2)) False sigstate_init () =
     (0, osa, save_action 2 (int_action 2) sigstate_init, ())" using int_action_set(2) by blast
  from sigaction_set_get [OF this sigstate_wf_init, of "()"] show ?thesis
    by (auto simp: int_action_set(1) int_action_def)
qed

text \<open>
  C29: the machine context. If the application's handler leaves the context it is passed alone, the
  interrupted program is resumed with every register as it was: the copies to the Darwin layout and
  back lose nothing, the segment registers with their 16 bits included.
\<close>

theorem handler_context_kept:
  assumes "\<And>h n i b s v. fst (app h n i b s v) = b"
  shows "fst (handler_linux_to_bsd app n info (Some lc) st w) = Some lc"
proof -
  obtain b s v where a: "app (sig_handlers st ! nat n) (signum_linux_to_bsd n)
      (map_option siginfo_linux_to_bsd info) (map_option ucontext_linux_to_bsd (Some lc)) (reset_handler n st) w = (b, s, v)"
    by (metis surj_pair)
  then have "b = Some (ucontext_linux_to_bsd lc)"
    using assms [of "sig_handlers st ! nat n" "signum_linux_to_bsd n" "map_option siginfo_linux_to_bsd info"
        "map_option ucontext_linux_to_bsd (Some lc)" "reset_handler n st" w] by simp
  then show ?thesis using a
    by (simp add: handler_linux_to_bsd_def mcontext_bsd_to_linux_def ucontext_linux_to_bsd_def gregs_roundtrip)
qed

theorem handler_context_kept_witness:
  "fst (handler_linux_to_bsd (\<lambda>h n i b s v. (b, s, v)) 10 None
     (Some \<lparr>lu_stack = \<lparr>sk_sp = 1, sk_size = 2, sk_flags = 3\<rparr>, lu_gregs = sample_gregs, lu_sigmask = 0\<rparr>) sigstate_init ()) =
   Some \<lparr>lu_stack = \<lparr>sk_sp = 1, sk_size = 2, sk_flags = 3\<rparr>, lu_gregs = sample_gregs, lu_sigmask = 0\<rparr>"
  by (rule handler_context_kept) simp

text \<open>
  Two flags are not honoured. The table stores the Darwin flags of the caller, but delivery tests
  them with the Linux constants: an action with \<^verbatim>\<open>SA_RESETHAND\<close> stays installed, and with
  \<^verbatim>\<open>SA_NODEFER\<close> the signal is blocked while its handler runs.
\<close>

lemma sa_flags_not_honoured:
  assumes "sys_sigaction K s (Some a) want st w = (0, osa, st', w')" "sigstate_wf st"
    "signum_bsd_to_linux s \<noteq> 0" "sa_flags a = BSD_SA_RESETHAND OR BSD_SA_NODEFER"
  shows "reset_handler (signum_bsd_to_linux s) st' = st' \<and>
    bit (forward_mask (signum_bsd_to_linux s) st') (nat (signum_bsd_to_linux s - 1))"
proof -
  have f: "sig_flags st' ! nat (signum_bsd_to_linux s) = 0x14"
    using sigaction_saves [OF assms(1-3)] assms(4) by simp
  have "bit (push_bit k (1 :: u64)) k" if "k < 64" for k using that by (simp add: bit_exp_iff)
  then show ?thesis using f sig_index [of s]
    by (auto simp: reset_handler_def forward_mask_def Let_def bit_or_iff)
qed

theorem sa_flags_not_honoured_witness:
  "\<exists>st'. sig_handlers st' ! 2 = 0x1000 \<and> sig_flags st' ! 2 = BSD_SA_RESETHAND OR BSD_SA_NODEFER \<and>
     reset_handler 2 st' = st' \<and> bit (forward_mask 2 st') 1"
proof -
  let ?a = "int_action (BSD_SA_RESETHAND OR BSD_SA_NODEFER)"
  obtain osa where "sys_sigaction quiet_calls 2 (Some ?a) False sigstate_init () =
     (0, osa, save_action 2 ?a sigstate_init, ())" using int_action_set(2) by blast
  from sa_flags_not_honoured [OF this sigstate_wf_init] show ?thesis
    by (intro exI [of _ "save_action 2 ?a sigstate_init"])
      (simp add: int_action_set(1), simp add: save_action_def int_action_def sigstate_init_def)
qed

end
