(* ===== verification/Fcntl.thy ===== *)
theory Fcntl
  imports VChroot Mman
begin

text \<open>
  Opening files and \<^verbatim>\<open>fcntl\<close>: \<^verbatim>\<open>fcntl/\<close>, \<^verbatim>\<open>common_at.c\<close> and \<^verbatim>\<open>bsdthread/per_thread_wd.h\<close>. An open
  translates the flags, replaces two device names, expands the path and calls Linux; \<^verbatim>\<open>fcntl\<close>
  translates the command, its argument and its result.

  The Linux calls of this component are the fields of \<open>filecalls\<close>; path expansion is the one of
  the theory \<open>VChroot\<close>, with its own calls.
\<close>

section \<open>Directory descriptors\<close>

text \<open>The two thread-specific slots: whether a working directory is set, and its descriptor.\<close>

record tsd =
  tsd_100 :: bool
  tsd_101 :: int

abbreviation (input) LINUX_AT_FDCWD :: int where "LINUX_AT_FDCWD \<equiv> - 100"
abbreviation (input) BSD_AT_FDCWD :: int where "BSD_AT_FDCWD \<equiv> - 2"

definition get_perthread_wd :: "tsd \<Rightarrow> int" where
  "get_perthread_wd t = (if tsd_100 t then tsd_101 t else LINUX_AT_FDCWD)"

definition set_perthread_wd :: "int \<Rightarrow> tsd \<Rightarrow> tsd" where
  "set_perthread_wd fd t = t\<lparr>tsd_100 := True, tsd_101 := fd\<rparr>"

definition atfd :: "tsd \<Rightarrow> int \<Rightarrow> int" where
  "atfd t fd = (if fd = BSD_AT_FDCWD then get_perthread_wd t else fd)"

text \<open>\<^verbatim>\<open>SYMLINK_NOFOLLOW\<close>, \<^verbatim>\<open>REMOVEDIR\<close>, \<^verbatim>\<open>SYMLINK_FOLLOW\<close>\<close>

definition atflags_tab :: "(u32 \<times> u32) list" where
  "atflags_tab = [(0x20, 0x100), (0x80, 0x200), (0x40, 0x400)]"

definition atflags_bsd_to_linux :: "u32 \<Rightarrow> u32" where
  "atflags_bsd_to_linux flags = xlat atflags_tab flags 0"

section \<open>Flags of open\<close>

abbreviation (input) BSD_O_NOFOLLOW :: u32 where "BSD_O_NOFOLLOW \<equiv> 0x100"
abbreviation (input) BSD_O_SYMLINK :: u32 where "BSD_O_SYMLINK \<equiv> 0x200000"

text \<open>
  The tests in the order of the source: \<^verbatim>\<open>RDONLY\<close> (never true), \<^verbatim>\<open>WRONLY\<close>, \<^verbatim>\<open>RDWR\<close>,
  \<^verbatim>\<open>NONBLOCK\<close>, \<^verbatim>\<open>APPEND\<close>, \<^verbatim>\<open>CREAT\<close>, \<^verbatim>\<open>TRUNC\<close>, \<^verbatim>\<open>EXCL\<close>, \<^verbatim>\<open>CLOEXEC\<close>, \<^verbatim>\<open>NOFOLLOW\<close> or
  \<^verbatim>\<open>SYMLINK\<close>, \<^verbatim>\<open>DIRECTORY\<close>, \<^verbatim>\<open>CLOEXEC\<close> again, \<^verbatim>\<open>NOCTTY\<close>, and \<^verbatim>\<open>SYMLINK\<close> for \<^verbatim>\<open>O_PATH\<close>.
\<close>

definition oflags_tab :: "(u32 \<times> u32) list" where
  "oflags_tab = [(0, 0), (1, 1), (2, 2), (4, 0x800), (8, 0x400), (0x200, 0x40), (0x400, 0x200),
     (0x800, 0x80), (0x1000000, 0x80000), (0x200100, 0x20000), (0x100000, 0x10000),
     (0x1000000, 0x80000), (0x20000, 0x100), (0x200000, 0x200000)]"

definition oflags_bsd_to_linux :: "u32 \<Rightarrow> u32" where
  "oflags_bsd_to_linux flags = xlat oflags_tab flags 0"

definition oflags_back_tab :: "(u32 \<times> u32) list" where
  "oflags_back_tab = [(0, 0), (1, 1), (2, 2), (0x800, 4), (0x400, 8), (0x40, 0x200), (0x200, 0x400),
     (0x80, 0x800), (0x80000, 0x1000000), (0x20000, 0x100), (0x10000, 0x100000),
     (0x80000, 0x1000000), (0x100, 0x20000)]"

definition oflags_linux_to_bsd :: "u32 \<Rightarrow> u32" where
  "oflags_linux_to_bsd flags = xlat oflags_back_tab flags 0"

section \<open>Opening\<close>

record bsd_flock =
  bf_start :: u64
  bf_len :: u64
  bf_pid :: int
  bf_type :: int
  bf_whence :: int

record linux_flock =
  lf_type :: int
  lf_whence :: int
  lf_start :: u64
  lf_len :: u64
  lf_pid :: int

text \<open>The argument of \<^verbatim>\<open>fcntl\<close>: a number, or a pointer to a lock.\<close>

datatype larg = LNum u64 | LFlock linux_flock
datatype barg = BNum u64 | BFlock bsd_flock

record 'w filecalls =
  fc_openat :: "int \<Rightarrow> string \<Rightarrow> u32 \<Rightarrow> u32 \<Rightarrow> 'w \<Rightarrow> int \<times> 'w"
  fc_fcntl :: "int \<Rightarrow> int \<Rightarrow> larg \<Rightarrow> 'w \<Rightarrow> (int \<times> larg) \<times> 'w"
  fc_fsync :: "int \<Rightarrow> 'w \<Rightarrow> int \<times> 'w"

definition device_name :: "string \<Rightarrow> string" where
  "device_name filename =
     (if filename = ''/dev/random'' then ''/dev/urandom''
      else if filename = ''/dev/autofs_nowait'' then ''/dev/null'' else filename)"

text \<open>
  What every call on a path does first: copy the name into an array of 4096 bytes, without a test
  of its length, and expand it. The result is the translated error or the path for Linux.
\<close>

definition expand_path ::
    "'w vfs \<Rightarrow> int \<Rightarrow> string \<Rightarrow> bool \<Rightarrow> string option \<Rightarrow> 'w \<Rightarrow> ((int + string) \<times> string option \<times> 'w) option" where
  "expand_path V dfd path fol st w =
     (if PATH_SIZE \<le> length path then None
      else do {
        (ret, path', st', w') \<leftarrow> vchroot_expand V \<lparr>ea_path = path, ea_dfd = dfd, ea_follow = fol\<rparr> st w;
        Some (if ret < 0 then Inl (errno_linux_to_bsd ret) else Inr path', st', w') })"

text \<open>\<^verbatim>\<open>sys_openat_nocancel\<close> on a 64-bit system.\<close>

definition sys_openat_nocancel ::
    "'w vfs \<Rightarrow> 'w filecalls \<Rightarrow> tsd \<Rightarrow> int \<Rightarrow> string option \<Rightarrow> u32 \<Rightarrow> u32 \<Rightarrow> string option \<Rightarrow> 'w \<Rightarrow>
     (int \<times> string option \<times> 'w) option" where
  "sys_openat_nocancel V K t fd filename flags mode st w =
     (case filename of
        None \<Rightarrow> Some (- 14, st, w)
      | Some name \<Rightarrow>
          let path = device_name name; dfd = atfd t fd in do {
            (r, st, w) \<leftarrow> expand_path V dfd path (flags AND BSD_O_SYMLINK = 0 \<and> flags AND BSD_O_NOFOLLOW = 0) st w;
            case r of
              Inl e \<Rightarrow> Some (e, st, w)
            | Inr path' \<Rightarrow>
                let (ret, w) = fc_openat K dfd path' (oflags_bsd_to_linux flags) mode w
                in Some (ret_bsd ret, st, w) })"

definition sys_open_nocancel ::
    "'w vfs \<Rightarrow> 'w filecalls \<Rightarrow> tsd \<Rightarrow> string option \<Rightarrow> u32 \<Rightarrow> u32 \<Rightarrow> string option \<Rightarrow> 'w \<Rightarrow>
     (int \<times> string option \<times> 'w) option" where
  "sys_open_nocancel V K t filename flags mode st w =
     sys_openat_nocancel V K t (get_perthread_wd t) filename flags mode st w"

section \<open>The call fcntl\<close>

definition flock_tab :: "(int \<times> int) list" where
  "flock_tab = [(1, 0), (3, 1), (2, 2)]"

definition flock_type_bsd_to_linux :: "int \<Rightarrow> int" where
  "flock_type_bsd_to_linux bsd = switch flock_tab (- 1) bsd"

definition flock_type_linux_to_bsd :: "int \<Rightarrow> int" where
  "flock_type_linux_to_bsd linux = switch (map prod.swap flock_tab) (- 1) linux"

abbreviation (input) F_SETFD :: int where "F_SETFD \<equiv> 2"
abbreviation (input) F_GETFL :: int where "F_GETFL \<equiv> 3"
abbreviation (input) F_SETFL :: int where "F_SETFL \<equiv> 4"
abbreviation (input) F_GETLK :: int where "F_GETLK \<equiv> 7"
abbreviation (input) F_SETLK :: int where "F_SETLK \<equiv> 8"
abbreviation (input) F_SETLKW :: int where "F_SETLKW \<equiv> 9"
abbreviation (input) F_GETPATH :: int where "F_GETPATH \<equiv> 50"
abbreviation (input) F_FULLFSYNC :: int where "F_FULLFSYNC \<equiv> 51"
abbreviation (input) F_CHECK_LV :: int where "F_CHECK_LV \<equiv> 98"


definition cmd_tab :: "(int \<times> int) list" where
  "cmd_tab = [(0, 0), (1, 1), (2, 2), (3, 3), (4, 4), (5, 9), (6, 8), (8, 6), (9, 7), (7, 5), (67, 1030)]"

definition cmd_bsd_to_linux :: "int \<Rightarrow> int" where
  "cmd_bsd_to_linux bsd = switch cmd_tab (- 1) bsd"

definition flock_bsd_to_linux :: "bsd_flock \<Rightarrow> linux_flock" where
  "flock_bsd_to_linux b = \<lparr>lf_type = flock_type_bsd_to_linux (bf_type b), lf_whence = bf_whence b,
     lf_start = bf_start b, lf_len = bf_len b, lf_pid = bf_pid b\<rparr>"

definition flock_linux_to_bsd :: "linux_flock \<Rightarrow> bsd_flock" where
  "flock_linux_to_bsd l = \<lparr>bf_start = lf_start l, bf_len = lf_len l, bf_pid = lf_pid l,
     bf_type = flock_type_linux_to_bsd (lf_type l), bf_whence = lf_whence l\<rparr>"

text \<open>What the call leaves in the caller's memory besides its result.\<close>

datatype fout = ONothing | OPath string | OFlock bsd_flock

text \<open>
  The translation of the argument before the call: an early return, or the argument for Linux.
  A lock command whose argument is no pointer to a lock is undefined.
\<close>

definition fcntl_arg :: "int \<Rightarrow> barg \<Rightarrow> (int + larg) option" where
  "fcntl_arg cmd arg =
     (if cmd \<in> {F_SETLK, F_SETLKW, F_GETLK} then
        (case arg of BFlock b \<Rightarrow> Some (Inr (LFlock (flock_bsd_to_linux b))) | BNum _ \<Rightarrow> None)
      else case arg of
        BFlock _ \<Rightarrow> None
      | BNum n \<Rightarrow>
          if cmd = F_SETFD then if n AND NOT 1 \<noteq> 0 then Some (Inl (- 22)) else Some (Inr (LNum n))
          else if cmd = F_SETFL then Some (Inr (LNum (scast (oflags_bsd_to_linux (ucast n)))))
          else if cmd_bsd_to_linux cmd = - 1 then Some (Inl (- 22))
          else Some (Inr (LNum n)))"

definition fcntl_result :: "int \<Rightarrow> int \<Rightarrow> larg \<Rightarrow> int \<times> fout" where
  "fcntl_result cmd ret arg =
     (if ret < 0 then (errno_linux_to_bsd ret, ONothing)
      else if cmd = F_GETFL then (sint (oflags_linux_to_bsd (word_of_int ret)), ONothing)
      else if cmd \<in> {F_SETLK, F_SETLKW, F_GETLK} then
        (ret, case arg of LFlock l \<Rightarrow> OFlock (flock_linux_to_bsd l) | LNum _ \<Rightarrow> ONothing)
      else (ret, ONothing))"

definition sys_fcntl_nocancel ::
    "'w vfs \<Rightarrow> 'w filecalls \<Rightarrow> int \<Rightarrow> int \<Rightarrow> barg \<Rightarrow> string option \<Rightarrow> 'w \<Rightarrow>
     ((int \<times> fout) \<times> string option \<times> 'w) option" where
  "sys_fcntl_nocancel V K fd cmd arg st w =
     (if cmd = F_CHECK_LV then Some ((0, ONothing), st, w)
      else if cmd = F_GETPATH then
        (case vchroot_fdpath V fd 1024 st w of
           None \<Rightarrow> None
         | Some (ret, path, st', w') \<Rightarrow>
             Some (if ret < 0 then (errno_linux_to_bsd ret, ONothing) else (0, OPath path), st', w'))
      else if cmd = F_FULLFSYNC then Some ((0, ONothing), st, snd (fc_fsync K fd w))
      else case fcntl_arg cmd arg of
        None \<Rightarrow> None
      | Some (Inl e) \<Rightarrow> Some ((e, ONothing), st, w)
      | Some (Inr a) \<Rightarrow>
          let ((ret, a'), w') = fc_fcntl K fd (cmd_bsd_to_linux cmd) a w
          in Some (fcntl_result cmd ret a', st, w'))"

section \<open>Lemmas\<close>

interpretation atflags: flag_codec atflags_tab
  by unfold_locales (simp_all add: atflags_tab_def single_bits)

interpretation flock: switch_codec flock_tab
  by unfold_locales (simp_all add: flock_tab_def)

interpretation cmd: switch_codec cmd_tab
  by unfold_locales (simp_all add: cmd_tab_def)

text \<open>
  The pairs of flags that correspond one to one. \<^verbatim>\<open>O_SYMLINK\<close> is translated to two flags besides.
\<close>

definition oflags_pairs :: "(u32 \<times> u32) list" where
  "oflags_pairs = [(1, 1), (2, 2), (4, 0x800), (8, 0x400), (0x200, 0x40), (0x400, 0x200), (0x800, 0x80),
     (0x1000000, 0x80000), (0x100, 0x20000), (0x100000, 0x10000), (0x20000, 0x100)]"

interpretation oflags: flag_codec oflags_pairs
  by unfold_locales (simp_all add: oflags_pairs_def single_bits)

lemma oflags_split:
  "oflags_bsd_to_linux f = xlat oflags_pairs f 0 OR pick f BSD_O_SYMLINK 0x220000"
proof -
  have "pick f 0x200100 d = pick f 0x100 d OR pick f 0x200000 d" for d :: u32
    using pick_or [of f "0x100" "0x200000" d] by simp
  moreover have "pick f 0x200000 (0x220000 :: u32) = pick f 0x200000 0x20000 OR pick f 0x200000 0x200000"
    using pick_simps(3) [of f "0x200000" "0x20000 :: u32" "0x200000"] by simp
  ultimately show ?thesis
    by (simp add: oflags_bsd_to_linux_def oflags_tab_def oflags_pairs_def xlat_pick pick_simps(1)
        or_ac or.left_idem del: xlat.simps(2))
qed

lemma oflags_back_split: "oflags_linux_to_bsd g = xlat (map prod.swap oflags_pairs) g 0"
  by (simp add: oflags_linux_to_bsd_def oflags_back_tab_def oflags_pairs_def xlat_pick pick_simps(1)
      or_ac or.left_idem del: xlat.simps(2))

lemma flock_type_roundtrip: "ty \<in> {1, 2, 3} \<Longrightarrow> flock_type_linux_to_bsd (flock_type_bsd_to_linux ty) = ty"
  using flock.forward_backward [of ty "- 1" "- 1"]
  by (auto simp: flock_type_linux_to_bsd_def flock_type_bsd_to_linux_def flock_tab_def)

text \<open>Setting \<^verbatim>\<open>O_NONBLOCK\<close> (4, and 0x800 for Linux) in flags that were read from Linux.\<close>

interpretation oflags_back: flag_codec "map prod.swap oflags_pairs"
  by unfold_locales (simp_all add: oflags_pairs_def single_bits)

lemma oflags_back_bits: "oflags_linux_to_bsd g AND NOT 0x1120F0F = 0"
proof -
  have "or_all (map snd (map prod.swap oflags_pairs)) = 0x1120F0F" by code_simp
  moreover have "xlat tab f 0 AND NOT (or_all (map snd tab)) = 0" for tab :: "(u32 \<times> u32) list" and f
    by (rule bit_eqI) (force simp: bit_and_iff bit_not_iff bit_xlat bit_or_all)
  ultimately show ?thesis by (metis oflags_back_split)
qed

lemma oflags_set_nonblock:
  "oflags_bsd_to_linux (oflags_linux_to_bsd g OR 4) = (g AND 0xB0FC3) OR 0x800"
proof -
  let ?x = "oflags_linux_to_bsd g"
  have "?x AND BSD_O_SYMLINK = (?x AND NOT 0x1120F0F) AND BSD_O_SYMLINK"
    by (simp add: and.assoc)
  then have "?x AND BSD_O_SYMLINK = 0" by (simp only: oflags_back_bits zero_and_eq)
  moreover have "4 AND BSD_O_SYMLINK = 0" by simp
  ultimately have "(?x OR 4) AND BSD_O_SYMLINK = 0" by (simp add: bit.conj_disj_distrib2)
  then have "pick (oflags_linux_to_bsd g OR 4) BSD_O_SYMLINK d = 0" for d :: u32
    by (simp add: pick_def)
  moreover have "or_all (map fst (map prod.swap oflags_pairs)) = 0xB0FC3" by code_simp
  moreover have "xlat oflags_pairs 4 0 = 0x800" by code_simp
  ultimately show ?thesis
    using oflags_back.roundtrip [of g] by (simp add: oflags_split xlat_or oflags_back_split comp_def)
qed

lemma sint_small: "(x :: u32) AND NOT 0x1120F0F = 0 \<Longrightarrow> sint x = uint x"
proof -
  assume "x AND NOT 0x1120F0F = 0"
  then have "\<not> bit x 31" by (auto simp: bit_eq_iff bit_and_iff bit_not_iff dest!: spec [of _ 31])
  then show ?thesis by (intro bit_eqI) (auto simp: bit_sint_iff bit_uint_iff dest: bit_imp_le_length)
qed

lemma fcntl_getfl:
  assumes "fc_fcntl F fd 3 (LNum 0) w = ((g, a), w')"
  shows "sys_fcntl_nocancel V F fd F_GETFL (BNum 0) st w =
    Some ((if g < 0 then errno_linux_to_bsd g else uint (oflags_linux_to_bsd (word_of_int g)), ONothing), st, w')"
  using assms sint_small [OF oflags_back_bits]
  by (simp add: sys_fcntl_nocancel_def fcntl_arg_def fcntl_result_def cmd_bsd_to_linux_def cmd_tab_def)

lemma fcntl_setfl_nonblock:
  "sys_fcntl_nocancel V F fd F_SETFL (BNum (word_of_int (uint (oflags_linux_to_bsd g) OR 4))) st w =
    (let ((ret, a), w') = fc_fcntl F fd 4 (LNum (scast ((g AND 0xB0FC3) OR 0x800 :: u32))) w in
     Some ((ret_bsd ret, ONothing), st, w'))"
proof -
  have "(ucast (word_of_int (uint x OR 4) :: u64) :: u32) = x OR 4" for x :: u32
    by (rule bit_word_eqI) (simp add: bit_simps)
  then show ?thesis
    by (simp add: sys_fcntl_nocancel_def fcntl_arg_def fcntl_result_def cmd_bsd_to_linux_def
        cmd_tab_def oflags_set_nonblock ret_bsd_def split: prod.splits)
qed

section \<open>Properties\<close>

text \<open>
  Flags of open. Translated to Linux and back, the flags are those of the eleven that both
  systems have, with \<^verbatim>\<open>O_SYMLINK\<close> read back as \<^verbatim>\<open>O_NOFOLLOW\<close>: no other flag appears or is lost.
\<close>

lemma oflags_roundtrip:
  "oflags_linux_to_bsd (oflags_bsd_to_linux f) =
     f AND 0x1120F0F OR (if f AND BSD_O_SYMLINK \<noteq> 0 then BSD_O_NOFOLLOW else 0)"
proof -
  have "or_all (map fst oflags_pairs) = 0x1120F0F" by code_simp
  then have "oflags_linux_to_bsd (xlat oflags_pairs f 0) = f AND 0x1120F0F"
    using oflags.roundtrip [of f] by (simp add: oflags_back_split)
  moreover have "oflags_linux_to_bsd 0x220000 = 0x100" "oflags_linux_to_bsd 0 = 0" by code_simp+
  ultimately show ?thesis
    by (simp add: oflags_split oflags_back_split xlat_or pick_def)
qed



end
