(* ===== verification/Bytes.thy ===== *)
theory Bytes
  imports Emu_Prelude
begin

text \<open>
  Memory as the sources address it: an array of bytes, loads and stores of little-endian
  integers at an offset, and copies of a range. An access outside the array is the result
  \<open>None\<close>; the operations of the option monad chain such accesses.
\<close>

section \<open>Integers as bytes\<close>

fun le_val :: "u8 list \<Rightarrow> nat" where
  "le_val [] = 0"
| "le_val (b # bs) = unat b + 256 * le_val bs"

fun le_enc :: "nat \<Rightarrow> nat \<Rightarrow> u8 list" where
  "le_enc 0 v = []"
| "le_enc (Suc n) v = of_nat v # le_enc n (v div 256)"

lemma length_le_enc [simp]: "length (le_enc n v) = n"
  by (induction n arbitrary: v) auto

lemma le_val_enc: "le_val (le_enc n v) = v mod 256 ^ n"
proof (induction n arbitrary: v)
  case (Suc n)
  have "unat (of_nat v :: u8) = v mod 256" by (simp add: unsigned_of_nat take_bit_eq_mod)
  then show ?case using Suc by (simp add: mod_mult2_eq)
qed simp

lemma le_val_enc_id [simp]: "v < 256 ^ n \<Longrightarrow> le_val (le_enc n v) = v"
  by (simp add: le_val_enc)

lemma le_val_less: "le_val bs < 256 ^ length bs"
proof (induction bs)
  case (Cons b bs)
  have "unat b < 256" using unat_less [of b] by simp
  then show ?case using Cons by simp
qed simp

lemma le_enc_val [simp]: "le_enc (length bs) (le_val bs) = bs"
proof (induction bs)
  case (Cons b bs)
  have "unat b < 256" using unat_less [of b] by simp
  moreover have "(of_nat (256 * le_val bs) :: u8) = 0" by (simp only: word_of_nat_eq_0_iff) simp
  then have "(of_nat (unat b + 256 * le_val bs) :: u8) = b" by (simp only: of_nat_add) simp
  ultimately show ?case using Cons by (simp add: div_add1_eq)
qed simp

section \<open>Accesses\<close>

definition load_bytes :: "nat \<Rightarrow> nat \<Rightarrow> 'a list \<Rightarrow> 'a list option" where
  "load_bytes n pos m = (if pos + n \<le> length m then Some (take n (drop pos m)) else None)"

definition load :: "nat \<Rightarrow> nat \<Rightarrow> u8 list \<Rightarrow> nat option" where
  "load n pos m = map_option le_val (load_bytes n pos m)"

definition store :: "nat \<Rightarrow> 'a list \<Rightarrow> 'a list \<Rightarrow> 'a list option" where
  "store pos bs m =
     (if pos + length bs \<le> length m then Some (take pos m @ bs @ drop (pos + length bs) m) else None)"

lemma take_drop_drop: "m \<le> n \<Longrightarrow> take (n - m) (drop m xs) @ drop n xs = drop m xs"
  by (metis append_take_drop_id drop_drop le_add_diff_inverse2)

lemma load_bytes_append [simp]:
  "length b = n \<Longrightarrow> load_bytes n (length a) (a @ b @ c) = Some b"
  by (simp add: load_bytes_def)

lemma load_append: "length b = n \<Longrightarrow> load n (length a) (a @ b @ c) = Some (le_val b)"
  by (simp add: load_def)

lemma store_append:
  "length b = length b' \<Longrightarrow> store (length a) b (a @ b' @ c) = Some (a @ b @ c)"
  by (simp add: store_def)

lemma store_front: "length b \<le> length old \<Longrightarrow> store (length a) b (a @ old) = Some (a @ b @ drop (length b) old)"
  by (simp add: store_def)

lemma store_length: "store pos bs m = Some m' \<Longrightarrow> length m' = length m"
  by (auto simp: store_def split: if_splits)

lemma load_bytes_store:
  "store pos bs m = Some m' \<Longrightarrow> load_bytes (length bs) pos m' = Some bs"
  by (auto simp: store_def load_bytes_def min_def split: if_splits)

text \<open>Rounding up to a multiple, the macro \<^verbatim>\<open>ALIGN\<close> of the sources for a power of two.\<close>

definition align :: "nat \<Rightarrow> nat \<Rightarrow> nat" where
  "align how what = (what + how - 1) div how * how"

lemma align_ge: "0 < how \<Longrightarrow> what \<le> align how what"
  using div_mult_mod_eq [of "what + how - 1" how] mod_less_divisor [of how "what + how - 1"]
  unfolding align_def by linarith

lemma align_dvd: "how dvd align how what"
  by (simp add: align_def)

lemma align_add: "0 < how \<Longrightarrow> align how (how * k + n) = how * k + align how n"
proof -
  assume how: "0 < how"
  then have "how * k + n + how - 1 = (n + how - 1) + k * how" by (simp add: algebra_simps)
  moreover have "((n + how - 1) + k * how) div how = k + (n + how - 1) div how"
    using how by (intro div_mult_self1) simp
  ultimately show ?thesis unfolding align_def by (simp only: distrib_right) (simp add: mult.commute)
qed

lemma align_less: "0 < how \<Longrightarrow> align how n < n + how"
  using div_mult_mod_eq [of "n + how - 1" how] unfolding align_def by linarith

section \<open>Signed integers\<close>

text \<open>An object of type \<^verbatim>\<open>int\<close>: four bytes in two's complement.\<close>

definition int_val :: "nat \<Rightarrow> int" where
  "int_val n = sint (of_nat n :: u32)"

definition int_enc :: "int \<Rightarrow> u8 list" where
  "int_enc i = le_enc 4 (unat (word_of_int i :: u32))"

definition int_ok :: "int \<Rightarrow> bool" where
  "int_ok i \<longleftrightarrow> - (2 ^ 31) \<le> i \<and> i < 2 ^ 31"

lemma length_int_enc [simp]: "length (int_enc i) = 4"
  by (simp add: int_enc_def)

lemma int_val_enc [simp]: "int_ok i \<Longrightarrow> int_val (le_val (int_enc i)) = i"
proof -
  assume "int_ok i"
  moreover have "unat (word_of_int i :: u32) < 256 ^ 4" using unat_less [of "word_of_int i :: u32"] by simp
  then have "le_val (int_enc i) = unat (word_of_int i :: u32)" by (simp add: int_enc_def)
  ultimately show ?thesis by (simp add: int_val_def int_ok_def signed_of_int signed_take_bit_int_eq_self)
qed

text \<open>A character goes through a byte unchanged.\<close>

lemma char_of_byte [simp]: "char_of (unat (of_char c :: u8)) = c"
proof -
  have "unat (of_nat (of_char c) :: u8) = of_char c"
    by (simp add: unsigned_of_nat take_bit_nat_eq_self del: of_nat_of_char)
  then show ?thesis by (simp add: of_nat_of_char)
qed

end
