(* ===== verification/Network.thy ===== *)
theory Network
  imports Fcntl Bytes "HOL-Library.Signed_Division"
begin

text \<open>
  Sockets: \<^verbatim>\<open>network/\<close>. Address families, message flags and socket options are translated by
  tables; an address of the local family carries a path, which is expanded on the way to Linux
  and brought back on the way to the process; control messages are moved between the two layouts
  of \<^verbatim>\<open>struct cmsghdr\<close>.

  A socket address is its first two bytes, which are one 16-bit family for Linux and a length and
  a family for the process, and the bytes that follow. Control data are bytes. The Linux calls and
  \<^verbatim>\<open>malloc\<close> are parameters, the fields of \<open>netcalls\<close>; uninitialised memory is an argument.
\<close>

section \<open>Families, flags and levels\<close>

text \<open>\<^verbatim>\<open>PF_LOCAL\<close>, \<^verbatim>\<open>PF_INET\<close>, \<^verbatim>\<open>PF_IPX\<close>, \<^verbatim>\<open>PF_INET6\<close>\<close>

definition family_tab :: "(int \<times> int) list" where
  "family_tab = [(1, 1), (2, 2), (23, 4), (30, 10)]"

definition sfamily_linux_to_bsd :: "int \<Rightarrow> int" where
  "sfamily_linux_to_bsd family = switch (map prod.swap family_tab) family family"

definition sfamily_bsd_to_linux :: "int \<Rightarrow> int" where
  "sfamily_bsd_to_linux family = switch family_tab family family"

text \<open>\<^verbatim>\<open>MSG_OOB\<close>, \<^verbatim>\<open>PEEK\<close>, \<^verbatim>\<open>DONTROUTE\<close>, \<^verbatim>\<open>EOR\<close>, \<^verbatim>\<open>TRUNC\<close>, \<^verbatim>\<open>CTRUNC\<close>, \<^verbatim>\<open>WAITALL\<close>, \<^verbatim>\<open>DONTWAIT\<close>\<close>

definition msgflags_tab :: "(u32 \<times> u32) list" where
  "msgflags_tab = [(1, 1), (2, 2), (4, 4), (8, 0x80), (0x10, 0x20), (0x20, 8), (0x40, 0x100), (0x80, 0x40)]"

definition msgflags_bsd_to_linux :: "u32 \<Rightarrow> u32" where
  "msgflags_bsd_to_linux flags = xlat msgflags_tab flags 0"

definition msgflags_linux_to_bsd :: "u32 \<Rightarrow> u32" where
  "msgflags_linux_to_bsd flags = xlat (map prod.swap msgflags_tab) flags 0"

abbreviation (input) LINUX_SOL_SOCKET :: nat where "LINUX_SOL_SOCKET \<equiv> 1"
abbreviation (input) BSD_SOL_SOCKET :: nat where "BSD_SOL_SOCKET \<equiv> 0xffff"

definition socket_level_bsd_to_linux :: "nat \<Rightarrow> nat" where
  "socket_level_bsd_to_linux level = (if level = BSD_SOL_SOCKET then LINUX_SOL_SOCKET else level)"

definition socket_level_linux_to_bsd :: "nat \<Rightarrow> nat" where
  "socket_level_linux_to_bsd level = (if level = LINUX_SOL_SOCKET then BSD_SOL_SOCKET else level)"

section \<open>Addresses\<close>

record sockaddr_fixup =
  bsd_length :: u8
  bsd_family :: u8
  sun_path :: "char list"

definition linux_family :: "sockaddr_fixup \<Rightarrow> int" where
  "linux_family a = uint (bsd_length a) + 256 * uint (bsd_family a)"

definition set_linux_family :: "int \<Rightarrow> sockaddr_fixup \<Rightarrow> sockaddr_fixup" where
  "set_linux_family f a = a\<lparr>bsd_length := word_of_int f, bsd_family := word_of_int (f div 256)\<rparr>"

text \<open>The sizes of the structure, of its path, and of an object that holds an address.\<close>

abbreviation (input) SUN_PATH_SIZE :: nat where "SUN_PATH_SIZE \<equiv> 104"

definition object_size :: "sockaddr_fixup \<Rightarrow> nat" where
  "object_size a = 2 + length (sun_path a)"

definition sockaddr_fixup_size_from_bsd :: "sockaddr_fixup \<Rightarrow> int \<Rightarrow> nat" where
  "sockaddr_fixup_size_from_bsd name len =
     (if uint (bsd_family name) = 1 then 2 + SUN_PATH_SIZE else nat len)"

text \<open>\<^verbatim>\<open>memcpy\<close> of the first \<open>n\<close> bytes of one object to another.\<close>

definition copy_address :: "nat \<Rightarrow> sockaddr_fixup \<Rightarrow> sockaddr_fixup \<Rightarrow> sockaddr_fixup option" where
  "copy_address n src out =
     (if 2 \<le> n \<and> n \<le> object_size src \<and> n \<le> object_size out
      then Some (src\<lparr>sun_path := take (n - 2) (sun_path src) @ drop (n - 2) (sun_path out)\<rparr>)
      else None)"

text \<open>\<^verbatim>\<open>strncpy(out->sun_path, path, 103); out->sun_path[103] = 0\<close>\<close>

definition set_sun_path :: "string \<Rightarrow> sockaddr_fixup \<Rightarrow> sockaddr_fixup option" where
  "set_sun_path path a =
     (if SUN_PATH_SIZE \<le> length (sun_path a)
      then Some (a\<lparr>sun_path := take (SUN_PATH_SIZE - 1) path @
             replicate (SUN_PATH_SIZE - length (take (SUN_PATH_SIZE - 1) path)) NUL @
             drop SUN_PATH_SIZE (sun_path a)\<rparr>)
      else None)"

text \<open>Reading the path as a string runs out of the object if no NUL is in it.\<close>

definition get_sun_path :: "sockaddr_fixup \<Rightarrow> string option" where
  "get_sun_path a = (if NUL \<in> set (sun_path a) then Some (cstr (sun_path a)) else None)"

definition sockaddr_fixup_from_bsd ::
    "'w vfs \<Rightarrow> tsd \<Rightarrow> sockaddr_fixup \<Rightarrow> sockaddr_fixup \<Rightarrow> int \<Rightarrow> string option \<Rightarrow> 'w \<Rightarrow>
     ((int \<times> sockaddr_fixup) \<times> string option \<times> 'w) option" where
  "sockaddr_fixup_from_bsd V t out name len st w = do {
     _ \<leftarrow> (if 0 \<le> len then Some () else None);
     out \<leftarrow> copy_address (nat len) name out;
     out \<leftarrow> Some (set_linux_family (sfamily_bsd_to_linux (uint (bsd_family out))) out);
     if linux_family out = 1 then do {
       path \<leftarrow> get_sun_path out;
       (ret, path, st, w) \<leftarrow> vchroot_expand V \<lparr>ea_path = path, ea_dfd = get_perthread_wd t, ea_follow = True\<rparr> st w;
       if ret < 0 then Some ((errno_linux_to_bsd ret, out), st, w)
       else do {
         out \<leftarrow> set_sun_path path out;
         path \<leftarrow> get_sun_path out;
         Some ((2 + int (length path), out), st, w) } }
     else Some ((len, out), st, w) }"

text \<open>
  The way back, in place: the object is both source and destination, so the copy of the first
  \<open>len\<close> bytes changes nothing.
\<close>

definition sockaddr_fixup_from_linux ::
    "sockaddr_fixup \<Rightarrow> int \<Rightarrow> string option \<Rightarrow> (int \<times> sockaddr_fixup) option" where
  "sockaddr_fixup_from_linux a len st = do {
     _ \<leftarrow> (if 0 \<le> len \<and> nat len \<le> object_size a then Some () else None);
     a \<leftarrow> Some (a\<lparr>bsd_family := word_of_int (sfamily_linux_to_bsd (linux_family a))\<rparr>);
     (ret, a) \<leftarrow>
       (if uint (bsd_family a) = 1 then do {
          path \<leftarrow> get_sun_path a;
          (ret, path) \<leftarrow> vchroot_unexpand st path;
          if ret < 0 then Some (errno_linux_to_bsd ret, a)
          else do {
            a \<leftarrow> set_sun_path path a;
            path \<leftarrow> get_sun_path a;
            Some (2 + int (length path) + 1, a) } }
        else Some (len, a));
     Some (ret, if 0 \<le> ret then a\<lparr>bsd_length := word_of_int ret\<rparr> else a) }"

section \<open>Messages\<close>

record bsd_msghdr =
  msg_name :: "sockaddr_fixup option"
  msg_namelen :: u32
  msg_iov :: u64
  msg_iovlen :: int
  msg_control :: "u8 list option"
  msg_controllen :: u32
  msg_flags :: u32

record linux_msghdr =
  lmsg_name :: "sockaddr_fixup option"
  lmsg_namelen :: u32
  lmsg_iov :: u64
  lmsg_iovlen :: int
  lmsg_control :: "u8 list option"
  lmsg_controllen :: nat
  lmsg_flags :: u32

text \<open>
  The calls of Linux, \<^verbatim>\<open>malloc\<close> (a block of bytes with any content, or nothing) and the memory that
  \<^verbatim>\<open>__builtin_alloca\<close> gives for an address.
\<close>

record 'w netcalls =
  nc_socket :: "int \<Rightarrow> int \<Rightarrow> int \<Rightarrow> 'w \<Rightarrow> int \<times> 'w"
  nc_socketpair :: "int \<Rightarrow> int \<Rightarrow> int \<Rightarrow> 'w \<Rightarrow> (int \<times> int \<times> int) \<times> 'w"
  nc_listen :: "int \<Rightarrow> int \<Rightarrow> 'w \<Rightarrow> int \<times> 'w"
  nc_shutdown :: "int \<Rightarrow> int \<Rightarrow> 'w \<Rightarrow> int \<times> 'w"
  nc_bind :: "int \<Rightarrow> sockaddr_fixup \<Rightarrow> int \<Rightarrow> 'w \<Rightarrow> int \<times> 'w"
  nc_connect :: "int \<Rightarrow> sockaddr_fixup \<Rightarrow> int \<Rightarrow> 'w \<Rightarrow> int \<times> 'w"
  nc_accept :: "int \<Rightarrow> (sockaddr_fixup \<times> int) option \<Rightarrow> 'w \<Rightarrow> (int \<times> (sockaddr_fixup \<times> int) option) \<times> 'w"
  nc_getsockname :: "int \<Rightarrow> sockaddr_fixup \<Rightarrow> int \<Rightarrow> 'w \<Rightarrow> (int \<times> sockaddr_fixup \<times> int) \<times> 'w"
  nc_getpeername :: "int \<Rightarrow> sockaddr_fixup \<Rightarrow> int \<Rightarrow> 'w \<Rightarrow> (int \<times> sockaddr_fixup \<times> int) \<times> 'w"
  nc_sendto :: "int \<Rightarrow> u8 list \<Rightarrow> u32 \<Rightarrow> (sockaddr_fixup \<times> int) option \<Rightarrow> 'w \<Rightarrow> int \<times> 'w"
  nc_recvfrom :: "int \<Rightarrow> nat \<Rightarrow> u32 \<Rightarrow> (sockaddr_fixup \<times> int) option \<Rightarrow> 'w \<Rightarrow>
    (int \<times> u8 list \<times> (sockaddr_fixup \<times> int) option) \<times> 'w"
  nc_sendmsg :: "int \<Rightarrow> linux_msghdr \<Rightarrow> u32 \<Rightarrow> 'w \<Rightarrow> int \<times> 'w"
  nc_recvmsg :: "int \<Rightarrow> linux_msghdr \<Rightarrow> u32 \<Rightarrow> 'w \<Rightarrow> (int \<times> linux_msghdr) \<times> 'w"
  nc_getsockopt :: "int \<Rightarrow> int \<Rightarrow> int \<Rightarrow> u8 list \<Rightarrow> int \<Rightarrow> 'w \<Rightarrow> (int \<times> u8 list \<times> int) \<times> 'w"
  nc_setsockopt :: "int \<Rightarrow> int \<Rightarrow> int \<Rightarrow> u8 list \<Rightarrow> int \<Rightarrow> 'w \<Rightarrow> int \<times> 'w"
  nc_malloc :: "nat \<Rightarrow> u8 list option"
  nc_alloca :: "nat \<Rightarrow> sockaddr_fixup"

section \<open>Sockets and addresses\<close>

definition sys_socket :: "'w netcalls \<Rightarrow> int \<Rightarrow> int \<Rightarrow> int \<Rightarrow> 'w \<Rightarrow> int \<times> 'w" where
  "sys_socket K domain type protocol w =
     (case map_of family_tab domain of
        None \<Rightarrow> (- 22, w)
      | Some linux_domain \<Rightarrow>
          let (ret, w) = nc_socket K linux_domain type protocol w in (ret_bsd ret, w))"

definition sys_socketpair :: "'w netcalls \<Rightarrow> int \<Rightarrow> int \<Rightarrow> int \<Rightarrow> int \<times> int \<Rightarrow> 'w \<Rightarrow> (int \<times> int \<times> int) \<times> 'w" where
  "sys_socketpair K domain type protocol sv w =
     (case map_of family_tab domain of
        None \<Rightarrow> ((- 22, sv), w)
      | Some linux_domain \<Rightarrow>
          let ((ret, sv), w) = nc_socketpair K linux_domain type protocol w in ((ret_bsd ret, sv), w))"

definition sys_listen :: "'w netcalls \<Rightarrow> int \<Rightarrow> int \<Rightarrow> 'w \<Rightarrow> int \<times> 'w" where
  "sys_listen K fd backlog w = (let (ret, w) = nc_listen K fd backlog w in (ret_bsd ret, w))"

definition sys_shutdown :: "'w netcalls \<Rightarrow> int \<Rightarrow> int \<Rightarrow> 'w \<Rightarrow> int \<times> 'w" where
  "sys_shutdown K fd how w = (let (ret, w) = nc_shutdown K fd how w in (ret_bsd ret, w))"

definition sys_bind ::
    "'w vfs \<Rightarrow> 'w netcalls \<Rightarrow> tsd \<Rightarrow> int \<Rightarrow> sockaddr_fixup \<Rightarrow> int \<Rightarrow> string option \<Rightarrow> 'w \<Rightarrow>
     (int \<times> string option \<times> 'w) option" where
  "sys_bind V K t fd name socklen st w =
     (if 512 < socklen then Some (- 22, st, w)
      else do {
        ((ret, fixed), st, w) \<leftarrow> sockaddr_fixup_from_bsd V t
          (nc_alloca K (sockaddr_fixup_size_from_bsd name socklen)) name socklen st w;
        if ret < 0 then Some (ret, st, w)
        else let (r, w) = nc_bind K fd fixed ret w in Some (ret_bsd r, st, w) })"

definition sys_connect_nocancel ::
    "'w vfs \<Rightarrow> 'w netcalls \<Rightarrow> tsd \<Rightarrow> int \<Rightarrow> sockaddr_fixup \<Rightarrow> int \<Rightarrow> string option \<Rightarrow> 'w \<Rightarrow>
     (int \<times> string option \<times> 'w) option" where
  "sys_connect_nocancel V K t fd name socklen st w =
     (if 512 < socklen then Some (- 22, st, w)
      else do {
        ((ret, fixed), st, w) \<leftarrow> sockaddr_fixup_from_bsd V t
          (nc_alloca K (sockaddr_fixup_size_from_bsd name socklen)) name socklen st w;
        if ret < 0 then Some (ret, st, w)
        else let (r, w) = nc_connect K fd fixed ret w in Some (ret_bsd r, st, w) })"

text \<open>
  After a successful call the address is rewritten in place and the length set; the result is 0.
  Null pointers, which Linux refuses, are not represented.
\<close>

definition returned_address ::
    "(int \<times> sockaddr_fixup \<times> int) \<Rightarrow> string option \<Rightarrow> (int \<times> sockaddr_fixup \<times> int) option" where
  "returned_address r st = (case r of (ret, asa, socklen) \<Rightarrow>
     if ret < 0 then Some (errno_linux_to_bsd ret, asa, socklen)
     else do {
       (ret, asa) \<leftarrow> sockaddr_fixup_from_linux asa socklen st;
       Some (if 0 < ret then 0 else ret, asa, ret) })"

definition sys_getsockname ::
    "'w netcalls \<Rightarrow> int \<Rightarrow> sockaddr_fixup \<Rightarrow> int \<Rightarrow> string option \<Rightarrow> 'w \<Rightarrow>
     ((int \<times> sockaddr_fixup \<times> int) \<times> 'w) option" where
  "sys_getsockname K fd asa socklen st w =
     (let (r, w) = nc_getsockname K fd asa socklen w in map_option (\<lambda>r. (r, w)) (returned_address r st))"

definition sys_getpeername ::
    "'w netcalls \<Rightarrow> int \<Rightarrow> sockaddr_fixup \<Rightarrow> int \<Rightarrow> string option \<Rightarrow> 'w \<Rightarrow>
     ((int \<times> sockaddr_fixup \<times> int) \<times> 'w) option" where
  "sys_getpeername K fd asa socklen st w =
     (let (r, w) = nc_getpeername K fd asa socklen w in map_option (\<lambda>r. (r, w)) (returned_address r st))"

text \<open>
  \<^verbatim>\<open>accept\<close> rewrites the family and the length of the address through its pointer, also when that
  is null, and lets the new socket inherit \<^verbatim>\<open>O_NONBLOCK\<close> (4).
\<close>

definition inherit_nonblock ::
    "'w vfs \<Rightarrow> 'w filecalls \<Rightarrow> int \<Rightarrow> int \<Rightarrow> string option \<Rightarrow> 'w \<Rightarrow> (string option \<times> 'w) option" where
  "inherit_nonblock V F fd child st w = do {
     ((parent_flags, _), st, w) \<leftarrow> sys_fcntl_nocancel V F fd F_GETFL (BNum 0) st w;
     ((child_flags, _), st, w) \<leftarrow> sys_fcntl_nocancel V F child F_GETFL (BNum 0) st w;
     if 0 \<le> parent_flags \<and> 0 \<le> child_flags \<and> parent_flags AND 4 \<noteq> 0
     then do {
       (_, st, w) \<leftarrow> sys_fcntl_nocancel V F child F_SETFL (BNum (word_of_int (child_flags OR 4))) st w;
       Some (st, w) }
     else Some (st, w) }"

definition sys_accept_nocancel ::
    "'w vfs \<Rightarrow> 'w filecalls \<Rightarrow> 'w netcalls \<Rightarrow> int \<Rightarrow> (sockaddr_fixup \<times> int) option \<Rightarrow> string option \<Rightarrow> 'w \<Rightarrow>
     ((int \<times> (sockaddr_fixup \<times> int) option) \<times> string option \<times> 'w) option" where
  "sys_accept_nocancel V F K fd from st w =
     (let ((ret, from), w) = nc_accept K fd from w in
      if ret < 0 then Some ((errno_linux_to_bsd ret, from), st, w)
      else do {
        (a, socklen) \<leftarrow> from;
        a \<leftarrow> Some (a\<lparr>bsd_family := word_of_int (sfamily_linux_to_bsd (linux_family a))\<rparr>);
        a \<leftarrow> Some (a\<lparr>bsd_length := word_of_int socklen\<rparr>);
        (st, w) \<leftarrow> inherit_nonblock V F fd ret st w;
        Some ((ret, Some (a, socklen)), st, w) })"

section \<open>Data\<close>

definition sys_sendto_nocancel ::
    "'w vfs \<Rightarrow> 'w netcalls \<Rightarrow> tsd \<Rightarrow> int \<Rightarrow> u8 list \<Rightarrow> u32 \<Rightarrow> sockaddr_fixup option \<Rightarrow> int \<Rightarrow>
     string option \<Rightarrow> 'w \<Rightarrow> (int \<times> string option \<times> 'w) option" where
  "sys_sendto_nocancel V K t fd buffer flags sockaddr socklen st w =
     (if 512 < socklen then Some (- 22, st, w)
      else case sockaddr of
        None \<Rightarrow> let (r, w) = nc_sendto K fd buffer (msgflags_bsd_to_linux flags) None w
          in Some (ret_bsd r, st, w)
      | Some name \<Rightarrow> do {
          ((ret, fixed), st, w) \<leftarrow> sockaddr_fixup_from_bsd V t
            (nc_alloca K (sockaddr_fixup_size_from_bsd name socklen)) name socklen st w;
          if ret < 0 then Some (ret, st, w)
          else let (r, w) = nc_sendto K fd buffer (msgflags_bsd_to_linux flags) (Some (fixed, ret)) w
            in Some (ret_bsd r, st, w) })"

text \<open>\<^verbatim>\<open>recvfrom\<close> translates the flags and then passes the untranslated ones.\<close>

definition sys_recvfrom_nocancel ::
    "'w netcalls \<Rightarrow> int \<Rightarrow> nat \<Rightarrow> u32 \<Rightarrow> (sockaddr_fixup \<times> int) option \<Rightarrow> string option \<Rightarrow> 'w \<Rightarrow>
     ((int \<times> u8 list \<times> (sockaddr_fixup \<times> int) option) \<times> 'w) option" where
  "sys_recvfrom_nocancel K fd len flags from st w =
     (let ((ret, buf, from), w) = nc_recvfrom K fd len flags from w in
      if ret < 0 then Some ((errno_linux_to_bsd ret, buf, from), w)
      else case from of
        None \<Rightarrow> Some ((ret, buf, None), w)
      | Some (a, socklen) \<Rightarrow> do {
          (r, a) \<leftarrow> sockaddr_fixup_from_linux a socklen st;
          Some ((if r < 0 then r else ret, buf, Some (a, r)), w) })"

section \<open>Control messages\<close>

text \<open>The headers take 12 bytes for the process and 16 for Linux, aligned to 4 and to 8.\<close>

definition BSD_CMSG_SPACE :: "nat \<Rightarrow> nat" where
  "BSD_CMSG_SPACE len = align 4 12 + align 4 len"

definition LINUX_CMSG_SPACE :: "nat \<Rightarrow> nat" where
  "LINUX_CMSG_SPACE len = align 8 16 + align 8 len"

definition LINUX_BSD_CMSGHDR_SIZE_DIFFERENCE :: nat where
  "LINUX_BSD_CMSGHDR_SIZE_DIFFERENCE = 4"

text \<open>The size of the buffer allocated for Linux.\<close>

definition linux_controllen :: "u32 \<Rightarrow> nat" where
  "linux_controllen len = align 8 (unat len + LINUX_BSD_CMSGHDR_SIZE_DIFFERENCE)"

lemma align8_progress: "16 \<le> n \<Longrightarrow> 0 < align 8 n"
  using align_ge [of 8 n] by simp

text \<open>
  The loop of \<^verbatim>\<open>sys_recvmsg_nocancel\<close> over the messages that Linux left in its buffer \<open>L\<close>, the
  first \<open>n\<close> bytes of it, writing to the control buffer \<open>B\<close> of the process and counting down
  \<^verbatim>\<open>msg_controllen\<close>. A length below the size of the header makes the size of the copy wrap around.
\<close>

function recv_cmsgs :: "u8 list \<Rightarrow> nat \<Rightarrow> nat \<Rightarrow> nat \<Rightarrow> u8 list \<Rightarrow> u32 \<Rightarrow> (u8 list \<times> u32) option" where
  "recv_cmsgs L n lpos bpos B controllen =
     (if lpos < n then do {
        cmsg_len \<leftarrow> load 8 lpos L;
        level \<leftarrow> load 4 (lpos + 8) L;
        type \<leftarrow> load 4 (lpos + 12) L;
        bsd_len \<leftarrow> Some ((cmsg_len - LINUX_BSD_CMSGHDR_SIZE_DIFFERENCE) mod 2 ^ 32);
        if cmsg_len < 16 then None
        else do {
          B \<leftarrow> store bpos (le_enc 4 bsd_len) B;
          B \<leftarrow> store (bpos + 4) (le_enc 4 (socket_level_linux_to_bsd level)) B;
          B \<leftarrow> store (bpos + 8) (le_enc 4 type) B;
          dat \<leftarrow> load_bytes (cmsg_len - 16) (lpos + 16) L;
          B \<leftarrow> store (bpos + 12) dat B;
          recv_cmsgs L n (lpos + align 8 cmsg_len) (bpos + align 4 bsd_len) B
            (controllen - of_nat (LINUX_CMSG_SPACE (cmsg_len - 16) - BSD_CMSG_SPACE (cmsg_len - 16))) } }
      else Some (B, controllen))"
  by pat_completeness auto

termination
  by (relation "measure (\<lambda>(L, n, lpos, bpos, B, c). n - lpos)") (auto simp: not_less dest: align8_progress)

declare recv_cmsgs.simps [simp del]

definition recv_header :: "'w netcalls \<Rightarrow> bsd_msghdr \<Rightarrow> linux_msghdr" where
  "recv_header K msg =
     (let clen = (if msg_control msg \<noteq> None \<and> 0 < msg_controllen msg then linux_controllen (msg_controllen msg) else 0)
      in \<lparr>lmsg_name = msg_name msg, lmsg_namelen = msg_namelen msg, lmsg_iov = msg_iov msg,
          lmsg_iovlen = msg_iovlen msg, lmsg_control = (if clen = 0 then None else nc_malloc K clen),
          lmsg_controllen = clen, lmsg_flags = 0\<rparr>)"

definition sys_recvmsg_nocancel ::
    "'w netcalls \<Rightarrow> int \<Rightarrow> bsd_msghdr \<Rightarrow> u32 \<Rightarrow> 'w \<Rightarrow> ((int \<times> bsd_msghdr) \<times> 'w) option" where
  "sys_recvmsg_nocancel K socket msg flags w =
     (let ((ret, lmsg), w) = nc_recvmsg K socket (recv_header K msg) (msgflags_bsd_to_linux flags) w
      in if ret < 0 then Some ((errno_linux_to_bsd ret, msg), w)
      else do {
        msg \<leftarrow> Some (msg\<lparr>msg_flags := msgflags_linux_to_bsd (lmsg_flags lmsg)\<rparr>);
        msg \<leftarrow> (case msg_control msg of
            None \<Rightarrow> Some msg
          | Some B \<Rightarrow> do {
              (B, controllen) \<leftarrow> recv_cmsgs (case lmsg_control lmsg of None \<Rightarrow> [] | Some L \<Rightarrow> L)
                (lmsg_controllen lmsg) 0 0 B (of_nat (lmsg_controllen lmsg));
              Some (msg\<lparr>msg_control := Some B, msg_controllen := controllen\<rparr>) });
        name \<leftarrow> Some (if 0 < lmsg_namelen lmsg
          then map_option (\<lambda>a. a\<lparr>bsd_family := word_of_int (sfamily_linux_to_bsd (linux_family a))\<rparr>) (lmsg_name lmsg)
          else lmsg_name lmsg);
        Some ((ret, msg\<lparr>msg_name := name, msg_namelen := lmsg_namelen lmsg\<rparr>), w) })"

text \<open>
  \<^verbatim>\<open>sendmsg\<close> translates the first control message only; the rest of the block for Linux stays as
  \<^verbatim>\<open>malloc\<close> left it, and so does \<^verbatim>\<open>msg_name\<close> (the argument \<open>junk\<close>) when there is no address.
\<close>

definition send_cmsg :: "u8 list \<Rightarrow> u8 list \<Rightarrow> u8 list option" where
  "send_cmsg B L = do {
     cmsg_len \<leftarrow> load 4 0 B;
     level \<leftarrow> load 4 4 B;
     type \<leftarrow> load 4 8 B;
     L \<leftarrow> store 0 (le_enc 8 ((cmsg_len + LINUX_BSD_CMSGHDR_SIZE_DIFFERENCE))) L;
     L \<leftarrow> store 8 (le_enc 4 (socket_level_bsd_to_linux level)) L;
     L \<leftarrow> store 12 (le_enc 4 type) L;
     if cmsg_len < 12 then None
     else do {
       dat \<leftarrow> load_bytes (cmsg_len - 12) 12 B;
       store 16 dat L } }"

definition send_name :: "sockaddr_fixup option \<Rightarrow> bsd_msghdr \<Rightarrow> sockaddr_fixup option option" where
  "send_name junk msg = (case msg_name msg of
     None \<Rightarrow> Some junk
   | Some a \<Rightarrow>
       if 0 < msg_namelen msg then
         (if 2 \<le> unat (msg_namelen msg) \<and> unat (msg_namelen msg) \<le> object_size a
          then Some (Some (set_linux_family (sfamily_bsd_to_linux (uint (bsd_family a)))
            (a\<lparr>sun_path := take (unat (msg_namelen msg) - 2) (sun_path a)\<rparr>)))
          else None)
       else Some junk)"

definition sys_sendmsg_nocancel ::
    "'w netcalls \<Rightarrow> sockaddr_fixup option \<Rightarrow> int \<Rightarrow> bsd_msghdr \<Rightarrow> u32 \<Rightarrow> 'w \<Rightarrow> (int \<times> 'w) option" where
  "sys_sendmsg_nocancel K junk socket msg flags w = do {
     name \<leftarrow> send_name junk msg;
     (clen, control) \<leftarrow> (case msg_control msg of
         None \<Rightarrow> Some (0, None)
       | Some B \<Rightarrow>
           if 0 < msg_controllen msg then do {
             clen \<leftarrow> Some (linux_controllen (msg_controllen msg));
             L \<leftarrow> nc_malloc K clen;
             L \<leftarrow> send_cmsg B L;
             Some (clen, Some L) }
           else Some (0, None));
     (ret, w) \<leftarrow> Some (nc_sendmsg K socket
       \<lparr>lmsg_name = name, lmsg_namelen = msg_namelen msg, lmsg_iov = msg_iov msg, lmsg_iovlen = msg_iovlen msg,
        lmsg_control = control, lmsg_controllen = clen, lmsg_flags = 0\<rparr> (msgflags_bsd_to_linux flags) w);
     Some (ret_bsd ret, w) }"

section \<open>Options\<close>

text \<open>
  The option names of the levels \<^verbatim>\<open>SOL_SOCKET\<close>, \<^verbatim>\<open>IPPROTO_TCP\<close>, \<^verbatim>\<open>IPPROTO_IP\<close> and
  \<^verbatim>\<open>IPPROTO_IPV6\<close>, in the order of the labels.
\<close>

definition so_tab :: "(int \<times> int) list" where
  "so_tab = [(1, 1), (2, 30), (4, 2), (8, 9), (0x10, 5), (0x20, 6), (0x400, 22), (0x80, 13), (0x100, 10),
     (0x200, 15), (0x1001, 7), (0x1002, 8), (0x1003, 19), (0x1004, 18), (0x1005, 21), (0x1006, 20),
     (0x1007, 4), (0x1008, 3), (0x1080, 13), (0x1022, 0)]"

definition tcp_tab :: "(int \<times> int) list" where
  "tcp_tab = [(1, 1), (2, 2), (0x10, 4), (0x101, 5), (0x102, 6)]"

definition ip_tab :: "(int \<times> int) list" where
  "ip_tab = [(1, 4), (2, 3), (3, 1), (4, 2), (5, 6), (6, 6), (7, 7), (8, 32), (9, 33), (10, 34), (11, 35),
     (12, 36), (24, 12)]"

definition ipv6_tab :: "(int \<times> int) list" where
  "ipv6_tab = [(4, 16), (9, 17), (10, 18), (11, 19), (12, 20), (13, 21), (19, 2), (20, 8), (21, 9), (22, 3),
     (23, 4), (24, 5), (27, 26)]"

abbreviation (input) SOL_SOCKET :: int where "SOL_SOCKET \<equiv> 0xffff"
abbreviation (input) SO_USELOOPBACK :: int where "SO_USELOOPBACK \<equiv> 0x40"
abbreviation (input) SO_LINGER_TICKS :: int where "SO_LINGER_TICKS \<equiv> 0x80"
abbreviation (input) SO_ERROR :: int where "SO_ERROR \<equiv> 0x1007"
abbreviation (input) SO_RCVTIMEO :: int where "SO_RCVTIMEO \<equiv> 0x1006"
abbreviation (input) LINGER_TICKS_PER_SEC :: int where "LINGER_TICKS_PER_SEC \<equiv> 100"


text \<open>The table of a level, with the error for an option that is not in it.\<close>

definition level_tab :: "int \<Rightarrow> ((int \<times> int) list \<times> int) option" where
  "level_tab level = (if level = SOL_SOCKET then Some (so_tab, - 22)
     else if level = 6 then Some (tcp_tab, - 45)
     else if level = 0 then Some (ip_tab, - 45)
     else if level = 41 then Some (ipv6_tab, - 45) else None)"

text \<open>\<^verbatim>\<open>struct linger\<close> with the time in ticks, rewritten to seconds in the buffer.\<close>

definition linger_to_seconds :: "u8 list \<Rightarrow> u8 list \<Rightarrow> u8 list option" where
  "linger_to_seconds optval optbuf = do {
     onoff \<leftarrow> load 4 0 optval;
     ticks \<leftarrow> load 4 4 optval;
     n \<leftarrow> Some (int_val ticks + LINGER_TICKS_PER_SEC - 1);
     if \<not> int_ok n then None
     else do {
       optbuf \<leftarrow> store 0 (le_enc 4 onoff) optbuf;
       store 4 (int_enc (n sdiv LINGER_TICKS_PER_SEC)) optbuf } }"

text \<open>
  \<^verbatim>\<open>sockopt_bsd_to_linux\<close>: result, level, name, and the memory at \<^verbatim>\<open>*optval\<close> (absent for
  \<^verbatim>\<open>getsockopt\<close>) and at \<^verbatim>\<open>optbuf\<close>. The first test is \<^verbatim>\<open>LOCAL_PEERCRED\<close> at \<^verbatim>\<open>IPPROTO_IP\<close>: it
  clears a \<^verbatim>\<open>struct xucred\<close> of 76 bytes and sets the name to 0.
\<close>

definition sockopt_bsd_to_linux ::
    "int \<Rightarrow> int \<Rightarrow> u8 list option \<Rightarrow> u8 list \<Rightarrow> (int \<times> int \<times> int \<times> u8 list option \<times> u8 list) option" where
  "sockopt_bsd_to_linux level optname optval optbuf =
     (if optname = 1 \<and> level = 0 then do {
        optbuf \<leftarrow> store 0 (replicate 76 0) optbuf;
        Some (0, level, 0, optval, optbuf) }
      else case level_tab level of
        None \<Rightarrow> Some (0, level, optname, optval, optbuf)
      | Some (tab, err) \<Rightarrow>
          let linux_level = (if level = SOL_SOCKET then 1 else level) in
          if level = SOL_SOCKET \<and> optname = SO_USELOOPBACK then Some (- 45, linux_level, optname, optval, optbuf)
          else case map_of tab optname of
            None \<Rightarrow> Some (err, linux_level, optname, optval, optbuf)
          | Some linux_optname \<Rightarrow>
              (case (level = SOL_SOCKET \<and> optname = SO_LINGER_TICKS, optval) of
                 (True, Some v) \<Rightarrow> do {
                   optbuf \<leftarrow> linger_to_seconds v optbuf;
                   Some (0, linux_level, linux_optname, Some optbuf, optbuf) }
               | _ \<Rightarrow> Some (0, linux_level, linux_optname, optval, optbuf)))"

text \<open>What \<^verbatim>\<open>getsockopt\<close> changes in the value that Linux returned.\<close>

definition sockopt_linux_to_bsd :: "int \<Rightarrow> int \<Rightarrow> u8 list \<Rightarrow> u8 list option" where
  "sockopt_linux_to_bsd level optname optval =
     (if level \<noteq> SOL_SOCKET then Some optval
      else if optname = SO_LINGER_TICKS then do {
        secs \<leftarrow> load 4 4 optval;
        n \<leftarrow> Some (int_val secs * LINGER_TICKS_PER_SEC);
        if int_ok n then store 4 (int_enc n) optval else None }
      else if optname = SO_ERROR then do {
        err \<leftarrow> load 4 0 optval;
        if int_val err \<noteq> 0 then store 0 (int_enc (errno_linux_to_bsd (int_val err))) optval else Some optval }
      else if optname = SO_RCVTIMEO then do {
        sec \<leftarrow> load 8 0 optval;
        usec \<leftarrow> load 8 8 optval;
        optval \<leftarrow> store 0 (le_enc 8 sec) optval;
        store 8 (le_enc 4 usec) optval }
      else Some optval)"

definition sys_getsockopt ::
    "'w netcalls \<Rightarrow> int \<Rightarrow> int \<Rightarrow> int \<Rightarrow> u8 list \<Rightarrow> int \<Rightarrow> 'w \<Rightarrow> ((int \<times> u8 list \<times> int) \<times> 'w) option" where
  "sys_getsockopt K fd level optname optval optlen w = do {
     (ret, linux_level, linux_optname, _, optval) \<leftarrow> sockopt_bsd_to_linux level optname None optval;
     if ret \<noteq> 0 \<or> linux_optname = 0 then Some ((ret, optval, optlen), w)
     else let ((ret, optval, optlen), w) = nc_getsockopt K fd linux_level linux_optname optval optlen w in
       if ret < 0 then Some ((errno_linux_to_bsd ret, optval, optlen), w)
       else do {
         optval \<leftarrow> sockopt_linux_to_bsd level optname optval;
         Some ((ret, optval, optlen), w) } }"

text \<open>
  \<^verbatim>\<open>setsockopt\<close>, with the content of its local array \<^verbatim>\<open>buf\<close>. The time of \<^verbatim>\<open>SO_RCVTIMEO\<close> is widened
  to the structure of Linux.
\<close>

definition sys_setsockopt ::
    "'w netcalls \<Rightarrow> u8 list \<Rightarrow> int \<Rightarrow> int \<Rightarrow> int \<Rightarrow> u8 list \<Rightarrow> int \<Rightarrow> 'w \<Rightarrow> (int \<times> 'w) option" where
  "sys_setsockopt K buf fd level optname optval optlen w = do {
     (ret, linux_level, linux_optname, optval, _) \<leftarrow> sockopt_bsd_to_linux level optname (Some optval) buf;
     if ret \<noteq> 0 \<or> linux_optname = 0 then Some (ret, w)
     else do {
       optval \<leftarrow> optval;
       (optval, optlen) \<leftarrow>
         (if level = SOL_SOCKET \<and> optname = SO_RCVTIMEO then do {
            sec \<leftarrow> load 8 0 optval;
            usec \<leftarrow> load 4 8 optval;
            Some (le_enc 8 sec @ le_enc 8 (unat (word_of_int (int_val usec) :: u64)), 16) }
          else Some (optval, optlen));
       (ret, w) \<leftarrow> Some (nc_setsockopt K fd linux_level linux_optname optval optlen w);
       Some (ret_bsd ret, w) } }"

section \<open>Tables\<close>

interpretation family: switch_codec family_tab
  by unfold_locales (simp_all add: family_tab_def)

interpretation msgflags: flag_codec msgflags_tab
  by unfold_locales (simp_all add: msgflags_tab_def single_bits)

interpretation tcp: switch_codec tcp_tab
  by unfold_locales (simp_all add: tcp_tab_def)

interpretation ipv6: switch_codec ipv6_tab
  by unfold_locales (simp_all add: ipv6_tab_def)

section \<open>Layout of control messages\<close>

text \<open>
  A control message is its level, its type, its data and the bytes that pad it. The two layouts of
  a list of messages: as Linux puts them in a buffer, and as the process finds them in a buffer
  whose padding keeps what was there.
\<close>

type_synonym cmsg = "nat \<times> nat \<times> u8 list \<times> u8 list"

fun linux_layout :: "cmsg list \<Rightarrow> u8 list" where
  "linux_layout [] = []"
| "linux_layout ((level, type, dat, pad) # ms) =
     le_enc 8 (16 + length dat) @ le_enc 4 level @ le_enc 4 type @ dat @ pad @ linux_layout ms"

fun bsd_layout :: "cmsg list \<Rightarrow> u8 list \<Rightarrow> u8 list" where
  "bsd_layout [] old = old"
| "bsd_layout ((level, type, dat, pad) # ms) old =
     le_enc 4 (12 + length dat) @ le_enc 4 (socket_level_linux_to_bsd level) @ le_enc 4 type @ dat @
     take (align 4 (length dat) - length dat) (drop (12 + length dat) old) @
     bsd_layout ms (drop (BSD_CMSG_SPACE (length dat)) old)"

fun bsd_space :: "cmsg list \<Rightarrow> nat" where
  "bsd_space [] = 0"
| "bsd_space ((level, type, dat, pad) # ms) = BSD_CMSG_SPACE (length dat) + bsd_space ms"

definition wf_cmsg :: "cmsg \<Rightarrow> bool" where
  "wf_cmsg = (\<lambda>(level, type, dat, pad). level < 2 ^ 32 \<and> type < 2 ^ 32 \<and> length dat < 2 ^ 31 \<and>
     length pad = align 8 (length dat) - length dat)"

lemma align_hdr: "align 4 12 = 12" "align 8 16 = 16"
  by (simp_all add: align_def)

lemma align_hdr_add: "align 8 (16 + n) = 16 + align 8 n" "align 4 (12 + n) = 12 + align 4 n"
  using align_add [of 8 2 n] align_add [of 4 3 n] by simp_all

lemma align_4_8: "align 4 n \<le> align 8 n"
proof -
  have "align 8 n = 4 * (2 * ((n + 7) div 8))" by (simp add: align_def)
  moreover have "n \<le> align 8 n" by (simp add: align_ge)
  ultimately show ?thesis by (simp add: align_def)
qed

lemma length_linux_layout:
  "wf_cmsg (level, type, dat, pad) \<Longrightarrow>
   length (linux_layout ((level, type, dat, pad) # ms)) = LINUX_CMSG_SPACE (length dat) + length (linux_layout ms)"
  using align_ge [of 8 "length dat"] by (simp add: wf_cmsg_def LINUX_CMSG_SPACE_def align_hdr)

lemma bsd_space_le: "list_all wf_cmsg ms \<Longrightarrow> bsd_space ms \<le> length (linux_layout ms)"
proof (induction ms rule: bsd_space.induct)
  case (2 level type dat pad ms)
  then have "length (linux_layout ((level, type, dat, pad) # ms)) =
      LINUX_CMSG_SPACE (length dat) + length (linux_layout ms)" by (intro length_linux_layout) simp
  then show ?case using 2 align_4_8 [of "length dat"]
    by (simp add: BSD_CMSG_SPACE_def LINUX_CMSG_SPACE_def align_hdr)
qed simp

text \<open>One round of the loop, and the whole loop.\<close>

lemma bsd_layout_single:
  "bsd_layout [(level, type, dat, pad)] old =
     le_enc 4 (12 + length dat) @ le_enc 4 (socket_level_linux_to_bsd level) @ le_enc 4 type @ dat @
     drop (12 + length dat) old"
proof -
  have "take k (drop m old) @ drop (m + k) old = drop m old" for k m
    by (metis append_take_drop_id drop_drop add.commute)
  from this [of "align 4 (length dat) - length dat" "12 + length dat"]
  show ?thesis using align_ge [of 4 "length dat"] by (simp add: BSD_CMSG_SPACE_def align_hdr)
qed

lemma recv_cmsgs_step:
  assumes wf: "wf_cmsg (level, type, dat, pad)" and fits: "BSD_CMSG_SPACE (length dat) \<le> length old"
    and n: "length L < n"
  shows "recv_cmsgs (L @ linux_layout ((level, type, dat, pad) # ms) @ L') n (length L) (length B) (B @ old) c =
    recv_cmsgs (L @ linux_layout ((level, type, dat, pad) # ms) @ L') n
       (length L + LINUX_CMSG_SPACE (length dat)) (length B + BSD_CMSG_SPACE (length dat))
       (B @ bsd_layout [(level, type, dat, pad)] old)
       (c - of_nat (LINUX_CMSG_SPACE (length dat) - BSD_CMSG_SPACE (length dat)))"
proof -
  let ?e8 = "le_enc 8 (16 + length dat)" and ?e4 = "le_enc 4 level" and ?t4 = "le_enc 4 type"
  let ?l = "le_enc 4 (12 + length dat)" and ?v = "le_enc 4 (socket_level_linux_to_bsd level)"
  define M where "M = L @ linux_layout ((level, type, dat, pad) # ms) @ L'"
  have b: "16 + length dat < 256 ^ 8" "level < 256 ^ 4" "type < 256 ^ 4" "12 + length dat < 2 ^ 32"
    using wf by (auto simp: wf_cmsg_def)
  have "load 8 (length L) M = Some (16 + length dat)"
    using load_append [of ?e8 8 L] b(1) by (simp add: M_def)
  moreover have "load 4 (length L + 8) M = Some level"
    using load_append [of ?e4 4 "L @ ?e8"] b(2) by (simp add: M_def)
  moreover have "load 4 (length L + 12) M = Some type"
    using load_append [of ?t4 4 "L @ ?e8 @ ?e4"] b(3) by (simp add: M_def)
  moreover have "load_bytes (length dat) (length L + 16) M = Some dat"
    using load_bytes_append [of dat "length dat" "L @ ?e8 @ ?e4 @ ?t4"] by (simp add: M_def)
  moreover have len: "12 + length dat \<le> length old"
    using fits align_ge [of 4 "length dat"] by (simp add: BSD_CMSG_SPACE_def align_hdr)
  then have "store (length B) ?l (B @ old) = Some (B @ ?l @ drop 4 old)"
    using store_front [of ?l old B] by simp
  moreover have "store (length B + 4) ?v (B @ ?l @ drop 4 old) = Some (B @ ?l @ ?v @ drop 8 old)"
    using store_front [of ?v "drop 4 old" "B @ ?l"] len by simp
  moreover have "store (length B + 8) ?t4 (B @ ?l @ ?v @ drop 8 old) = Some (B @ ?l @ ?v @ ?t4 @ drop 12 old)"
    using store_front [of ?t4 "drop 8 old" "B @ ?l @ ?v"] len by simp
  moreover have "store (length B + 12) dat (B @ ?l @ ?v @ ?t4 @ drop 12 old) =
      Some (B @ ?l @ ?v @ ?t4 @ dat @ drop (12 + length dat) old)"
    using store_front [of dat "drop 12 old" "B @ ?l @ ?v @ ?t4"] len by (simp add: add.commute)
  ultimately show ?thesis using n b(4) unfolding M_def [symmetric] bsd_layout_single
    by (subst recv_cmsgs.simps)
      (simp add: LINUX_BSD_CMSGHDR_SIZE_DIFFERENCE_def align_hdr_add LINUX_CMSG_SPACE_def BSD_CMSG_SPACE_def align_hdr
        del: linux_layout.simps)
qed

lemma recv_cmsgs_layout:
  assumes "list_all wf_cmsg ms" "bsd_space ms \<le> length old"
  shows "recv_cmsgs (L @ linux_layout ms @ L') (length L + length (linux_layout ms)) (length L) (length B) (B @ old) c =
    Some (B @ bsd_layout ms old, c - of_nat (length (linux_layout ms) - bsd_space ms))"
  using assms
proof (induction ms arbitrary: L B old c rule: linux_layout.induct)
  case 1
  then show ?case by (subst recv_cmsgs.simps) simp
next
  case (2 level type dat pad ms)
  let ?m = "(level, type, dat, pad)" and ?d = "length dat"
  have wf: "wf_cmsg ?m" "list_all wf_cmsg ms" using 2(2) by auto
  have fits: "BSD_CMSG_SPACE ?d \<le> length old" "bsd_space ms \<le> length (drop (BSD_CMSG_SPACE ?d) old)"
    using 2(3) by simp_all
  define b where "b = take (BSD_CMSG_SPACE ?d) (bsd_layout [?m] old)"
  have lay: "bsd_layout [?m] old = b @ drop (BSD_CMSG_SPACE ?d) old"
    "bsd_layout (?m # ms) old = b @ bsd_layout ms (drop (BSD_CMSG_SPACE ?d) old)" "length b = BSD_CMSG_SPACE ?d"
    using fits(1) align_ge [of 4 ?d] by (simp_all add: b_def BSD_CMSG_SPACE_def align_hdr)
  define e where "e = linux_layout [?m]"
  have e: "linux_layout (?m # ms) = e @ linux_layout ms" by (simp add: e_def)
  have le: "length e = LINUX_CMSG_SPACE ?d" unfolding e_def using length_linux_layout [OF wf(1), of "[]"] by simp
  have sp: "BSD_CMSG_SPACE ?d \<le> LINUX_CMSG_SPACE ?d"
    using align_4_8 [of ?d] by (simp add: BSD_CMSG_SPACE_def LINUX_CMSG_SPACE_def align_hdr)
  have "recv_cmsgs (L @ linux_layout (?m # ms) @ L') (length L + length (linux_layout (?m # ms))) (length L)
      (length B) (B @ old) c =
    recv_cmsgs ((L @ e) @ linux_layout ms @ L') (length (L @ e) + length (linux_layout ms)) (length (L @ e))
      (length (B @ b)) ((B @ b) @ drop (BSD_CMSG_SPACE ?d) old) (c - of_nat (LINUX_CMSG_SPACE ?d - BSD_CMSG_SPACE ?d))"
    using recv_cmsgs_step [OF wf(1) fits(1), of L "length L + length (linux_layout (?m # ms))" ms L' B c]
    unfolding lay(1) e using le lay(3)
    by (simp add: LINUX_CMSG_SPACE_def align_hdr add.assoc del: linux_layout.simps)
  also have "\<dots> = Some ((B @ b) @ bsd_layout ms (drop (BSD_CMSG_SPACE ?d) old),
      c - of_nat (LINUX_CMSG_SPACE ?d - BSD_CMSG_SPACE ?d) - of_nat (length (linux_layout ms) - bsd_space ms))"
    using 2(1) [OF wf(2) fits(2)] .
  finally show ?case unfolding e lay(2) using le sp bsd_space_le [OF wf(2)]
    by (simp add: diff_diff_eq algebra_simps)
qed

section \<open>Local addresses\<close>

lemma set_get_sun_path:
  assumes "is_cstr path" "length path < SUN_PATH_SIZE" "SUN_PATH_SIZE \<le> length (sun_path a)"
  shows "\<exists>r. set_sun_path path a = Some (a\<lparr>sun_path := path @ NUL # r\<rparr>) \<and>
    get_sun_path (a\<lparr>sun_path := path @ NUL # r\<rparr>) = Some path \<and> length (path @ NUL # r) = length (sun_path a)"
proof -
  let ?r = "replicate (SUN_PATH_SIZE - Suc (length path)) NUL @ drop SUN_PATH_SIZE (sun_path a)"
  have "replicate (SUN_PATH_SIZE - length path) NUL = NUL # replicate (SUN_PATH_SIZE - Suc (length path)) NUL"
    using assms(2) by (simp add: Suc_diff_Suc flip: replicate_Suc)
  then show ?thesis using assms by (intro exI [of _ ?r]) (simp add: set_sun_path_def get_sun_path_def cstr_terminated)
qed

lemma linux_family_local: "linux_family (set_linux_family 1 a) = 1"
  by (simp add: linux_family_def set_linux_family_def)

lemma from_bsd_local:
  assumes "bsd_family name = 1" "sun_path name = path @ [NUL]" "is_cstr path" "length path < SUN_PATH_SIZE"
    "length (sun_path out) = SUN_PATH_SIZE"
    "vchroot_expand V \<lparr>ea_path = path, ea_dfd = get_perthread_wd t, ea_follow = True\<rparr> st w = Some (0, path', st', w')"
    "is_cstr path'" "length path' < SUN_PATH_SIZE"
  shows "\<exists>a. sockaddr_fixup_from_bsd V t out name (3 + int (length path)) st w =
      Some ((2 + int (length path'), a), st', w') \<and> linux_family a = 1 \<and> get_sun_path a = Some path' \<and>
    length (sun_path a) = SUN_PATH_SIZE \<and> bsd_length a = 1 \<and> bsd_family a = 0"
proof -
  let ?c = "name\<lparr>sun_path := path @ NUL # drop (Suc (length path)) (sun_path out)\<rparr>"
  let ?l = "set_linux_family 1 ?c"
  have copy: "copy_address (nat (3 + int (length path))) name out = Some ?c"
    using assms(2,4,5) by (simp add: copy_address_def object_size_def nat_add_distrib)
  have get: "get_sun_path ?l = Some path"
    using assms(3) by (simp add: get_sun_path_def set_linux_family_def cstr_terminated)
  have len: "length (sun_path ?l) = SUN_PATH_SIZE" using assms(4,5) by (simp add: set_linux_family_def)
  then obtain r where r: "set_sun_path path' ?l = Some (?l\<lparr>sun_path := path' @ NUL # r\<rparr>)"
      "get_sun_path (?l\<lparr>sun_path := path' @ NUL # r\<rparr>) = Some path'" "length (path' @ NUL # r) = SUN_PATH_SIZE"
    using set_get_sun_path [OF assms(7,8), of ?l] by auto
  have "sfamily_bsd_to_linux (uint (bsd_family ?c)) = 1"
    using assms(1) by (simp add: sfamily_bsd_to_linux_def family_tab_def)
  then show ?thesis
    using copy get r assms(6) linux_family_local [of ?c]
    by (intro exI [of _ "?l\<lparr>sun_path := path' @ NUL # r\<rparr>"])
      (simp add: sockaddr_fixup_from_bsd_def linux_family_def set_linux_family_def)
qed

lemma from_linux_local:
  assumes "linux_family a = 1" "get_sun_path a = Some (p @ path)" "length (sun_path a) = SUN_PATH_SIZE"
    "path \<noteq> []" "is_cstr path" "length path < SUN_PATH_SIZE" "len = 2 + int (length (p @ path))" "length (p @ path) < SUN_PATH_SIZE"
  shows "\<exists>b. sockaddr_fixup_from_linux a len (Some p) = Some (3 + int (length path), b) \<and>
    bsd_family b = 1 \<and> uint (bsd_length b) = 3 + int (length path) \<and> get_sun_path b = Some path"
proof -
  let ?a = "a\<lparr>bsd_family := 1\<rparr>"
  obtain r where r: "set_sun_path path ?a = Some (?a\<lparr>sun_path := path @ NUL # r\<rparr>)"
      "get_sun_path (?a\<lparr>sun_path := path @ NUL # r\<rparr>) = Some path"
    using set_get_sun_path [OF assms(5,6), of ?a] assms(3) by auto
  have "0 \<le> k \<Longrightarrow> k < 256 \<Longrightarrow> uint (word_of_int k :: u8) = k" for k
    by (simp add: unsigned_of_int take_bit_int_eq_self)
  from this [of "3 + int (length path)"]
  have "uint (word_of_int (3 + int (length path)) :: u8) = 3 + int (length path)"
    using assms(6) by (simp del: of_int_add)
  moreover have "vchroot_unexpand (Some p) (p @ path) = Some (0, path)"
    using assms(4) by (simp add: vchroot_unexpand_def)
  moreover have "get_sun_path ?a = Some (p @ path)" using assms(2) by (simp add: get_sun_path_def cong: if_cong)
  moreover have "sfamily_linux_to_bsd (linux_family a) = 1"
    using assms(1) by (simp add: sfamily_linux_to_bsd_def family_tab_def)
  ultimately show ?thesis using r assms(3,7,8)
    by (simp add: sockaddr_fixup_from_linux_def object_size_def get_sun_path_def add.commute cong: if_cong)
qed

lemma socket_level_roundtrip: "level \<noteq> 1 \<Longrightarrow> socket_level_linux_to_bsd (socket_level_bsd_to_linux level) = level"
  by (auto simp: socket_level_linux_to_bsd_def socket_level_bsd_to_linux_def)

lemma align_8_4: "align 8 (12 + align 4 n + 4) = 16 + align 8 n"
proof -
  have "(23 + 4 * ((n + 3) div 4)) div 8 = 2 + (n + 7) div 8" by presburger
  then show ?thesis by (simp add: align_def mult.commute add.commute)
qed

text \<open>The control buffer of the process with one message.\<close>

definition one_cmsg :: "nat \<Rightarrow> nat \<Rightarrow> u8 list \<Rightarrow> u8 list \<Rightarrow> u8 list" where
  "one_cmsg level type dat pad = le_enc 4 (12 + length dat) @ le_enc 4 level @ le_enc 4 type @ dat @ pad"

lemma send_one:
  assumes "level < 2 ^ 32" "type < 2 ^ 32" "length dat < 2 ^ 31" "length L = LINUX_CMSG_SPACE (length dat)"
  shows "send_cmsg (one_cmsg level type dat pad) L =
    Some (linux_layout [(socket_level_bsd_to_linux level, type, dat, drop (16 + length dat) L)])"
proof -
  let ?b = "one_cmsg level type dat pad"
  let ?e8 = "le_enc 8 (16 + length dat)" and ?e4 = "le_enc 4 (socket_level_bsd_to_linux level)" and ?t4 = "le_enc 4 type"
  let ?l = "le_enc 4 (12 + length dat)" and ?v = "le_enc 4 level"
  have b: "12 + length dat < 256 ^ 4" "level < 256 ^ 4" "type < 256 ^ 4" using assms(1-3) by simp_all
  have "load 4 0 ?b = Some (12 + length dat)" using load_append [of ?l 4 "[]"] b(1) by (simp add: one_cmsg_def)
  moreover have "load 4 4 ?b = Some level" using load_append [of ?v 4 ?l] b(2) by (simp add: one_cmsg_def)
  moreover have "load 4 8 ?b = Some type" using load_append [of ?t4 4 "?l @ ?v"] b(3) by (simp add: one_cmsg_def)
  moreover have "load_bytes (length dat) 12 ?b = Some dat"
    using load_bytes_append [of dat "length dat" "?l @ ?v @ ?t4" pad] by (simp add: one_cmsg_def)
  moreover have len: "16 + length dat \<le> length L"
    using assms(4) align_ge [of 8 "length dat"] by (simp add: LINUX_CMSG_SPACE_def align_hdr)
  then have "store 0 ?e8 L = Some (?e8 @ drop 8 L)" using store_front [of ?e8 L "[]"] by simp
  moreover have "store 8 ?e4 (?e8 @ drop 8 L) = Some (?e8 @ ?e4 @ drop 12 L)"
    using store_front [of ?e4 "drop 8 L" ?e8] len by simp
  moreover have "store 12 ?t4 (?e8 @ ?e4 @ drop 12 L) = Some (?e8 @ ?e4 @ ?t4 @ drop 16 L)"
    using store_front [of ?t4 "drop 12 L" "?e8 @ ?e4"] len by simp
  moreover have "store 16 dat (?e8 @ ?e4 @ ?t4 @ drop 16 L) = Some (?e8 @ ?e4 @ ?t4 @ dat @ drop (16 + length dat) L)"
    using store_front [of dat "drop 16 L" "?e8 @ ?e4 @ ?t4"] len by (simp add: add.commute)
  ultimately show ?thesis by (simp add: send_cmsg_def LINUX_BSD_CMSGHDR_SIZE_DIFFERENCE_def)
qed

lemma recv_overflow:
  assumes "length dat = 8" "length B = 16" "level < 2 ^ 32" "type < 2 ^ 32"
  shows "recv_cmsgs (linux_layout [(level, type, dat, [])]) 24 0 0 B 24 = None"
proof -
  let ?m = "linux_layout [(level, type, dat, [])]"
  let ?e8 = "le_enc 8 24" and ?e4 = "le_enc 4 level" and ?t4 = "le_enc 4 type"
  have b: "level < 256 ^ 4" "type < 256 ^ 4" using assms(3,4) by simp_all
  have "load 8 0 ?m = Some 24" using load_append [of ?e8 8 "[]"] assms(1) by simp
  moreover have "load 4 8 ?m = Some level" using load_append [of ?e4 4 ?e8] b(1) assms(1) by simp
  moreover have "load 4 12 ?m = Some type" using load_append [of ?t4 4 "?e8 @ ?e4"] b(2) assms(1) by simp
  moreover have "load_bytes 8 16 ?m = Some dat"
    using load_bytes_append [of dat 8 "?e8 @ ?e4 @ ?t4" "[]"] assms(1) by simp
  ultimately show ?thesis
    using assms(1,2) by (subst recv_cmsgs.simps) (simp add: store_def del: linux_layout.simps split: bind_splits)
qed

section \<open>Properties\<close>

text \<open>Calls for the witnesses: nothing happens.\<close>

definition quiet_net :: "'w netcalls" where
  "quiet_net = \<lparr>nc_socket = (\<lambda>d t p w. (3, w)), nc_socketpair = (\<lambda>d t p w. ((0, 3, 4), w)), nc_listen = (\<lambda>d b w. (0, w)),
     nc_shutdown = (\<lambda>d h w. (0, w)), nc_bind = (\<lambda>d a l w. (0, w)), nc_connect = (\<lambda>d a l w. (0, w)),
     nc_accept = (\<lambda>d a w. ((5, a), w)), nc_getsockname = (\<lambda>d a l w. ((0, a, l), w)),
     nc_getpeername = (\<lambda>d a l w. ((0, a, l), w)), nc_sendto = (\<lambda>d b f a w. (0, w)),
     nc_recvfrom = (\<lambda>d n f a w. ((0, [], a), w)), nc_sendmsg = (\<lambda>d m f w. (0, w)), nc_recvmsg = (\<lambda>d m f w. ((0, m), w)),
     nc_getsockopt = (\<lambda>d l n b k w. ((0, b, k), w)), nc_setsockopt = (\<lambda>d l n b k w. (0, w)),
     nc_malloc = (\<lambda>n. Some (replicate n 0)), nc_alloca = (\<lambda>n. \<lparr>bsd_length = 0, bsd_family = 0, sun_path = replicate (n - 2) CHR ''x''\<rparr>)\<rparr>"


definition control_msg :: "u8 list \<Rightarrow> bsd_msghdr" where
  "control_msg B = \<lparr>msg_name = None, msg_namelen = 0, msg_iov = 0, msg_iovlen = 0, msg_control = Some B,
     msg_controllen = of_nat (length B), msg_flags = 0\<rparr>"

definition control_reply :: "u8 list \<Rightarrow> linux_msghdr" where
  "control_reply L = \<lparr>lmsg_name = None, lmsg_namelen = 0, lmsg_iov = 0, lmsg_iovlen = 0, lmsg_control = Some L,
     lmsg_controllen = length L, lmsg_flags = 8\<rparr>"

definition descriptor_msg :: "cmsg list" where
  "descriptor_msg = [(1, 1, [3, 0, 0, 0], [0, 0, 0, 0])]"




text \<open>
  The buffer for Linux is rounded up, so that Linux may return more than the process has room
  for. With room for one descriptor (16 bytes) Linux is given 24 bytes; when it puts a message with
  two descriptors there, the copy leaves the control buffer of the process.
\<close>

lemma recvmsg_overflow:
  assumes "msg_control msg = Some B" "length B = 16" "msg_controllen msg = 16" "length dat = 8"
    "level < 2 ^ 32" "type < 2 ^ 32"
    "nc_recvmsg K s (recv_header K msg) (msgflags_bsd_to_linux flags) w = ((ret, lmsg), w')" "0 \<le> ret"
    "lmsg_control lmsg = Some (linux_layout [(level, type, dat, [])])" "lmsg_controllen lmsg = lmsg_controllen (recv_header K msg)"
  shows "length (linux_layout [(level, type, dat, [])]) = lmsg_controllen (recv_header K msg) \<and>
    sys_recvmsg_nocancel K s msg flags w = None"
proof -
  have "lmsg_controllen (recv_header K msg) = 24" using assms(1,3)
    by (simp add: recv_header_def linux_controllen_def LINUX_BSD_CMSGHDR_SIZE_DIFFERENCE_def align_def)
  then show ?thesis using assms recv_overflow [OF assms(4,2,5,6)] by (simp add: sys_recvmsg_nocancel_def)
qed

lemma recvmsg_overflow_witness:
  "sys_recvmsg_nocancel (quiet_net\<lparr>nc_recvmsg := \<lambda>d m f w.
     ((0, control_reply (linux_layout [(1, 1, replicate 8 0, [])])), w)\<rparr>) 4 (control_msg (replicate 16 0)) 0 () = None"
  using recvmsg_overflow [of "control_msg (replicate 16 0)" "replicate 16 0" "replicate 8 0" 1 1
      "quiet_net\<lparr>nc_recvmsg := \<lambda>d m f w. ((0, control_reply (linux_layout [(1, 1, replicate 8 0, [])])), w)\<rparr>"
      4 0 "()" 0 "control_reply (linux_layout [(1, 1, replicate 8 0, [])])" "()"]
  by (simp add: control_msg_def control_reply_def recv_header_def linux_controllen_def
      LINUX_BSD_CMSGHDR_SIZE_DIFFERENCE_def align_def)

text \<open>
  Accepted sockets inherit \<^verbatim>\<open>O_NONBLOCK\<close>. If the listening socket has the flag, the new socket
  is given the flags it has among those both systems know, and the flag; otherwise its flags are
  left alone. The address gets the family of the process and its length.
\<close>

lemma accept_inherits_nonblock:
  assumes "nc_accept K fd from w = ((child, Some (a, len)), w0)" "0 \<le> child"
    "fc_fcntl F fd 3 (LNum 0) w0 = ((p, x), w1)" "0 \<le> p"
    "fc_fcntl F child 3 (LNum 0) w1 = ((c, y), w2)" "0 \<le> c"
  shows "sys_accept_nocancel V F K fd from st w =
    Some ((child, Some (a\<lparr>bsd_length := word_of_int len,
        bsd_family := word_of_int (sfamily_linux_to_bsd (linux_family a))\<rparr>, len)), st,
      if word_of_int p AND 0x800 \<noteq> (0 :: u32)
      then snd (fc_fcntl F child 4 (LNum (scast ((word_of_int c AND 0xB0FC3) OR 0x800 :: u32))) w2) else w2)"
proof -
  let ?p = "oflags_linux_to_bsd (word_of_int p)"
  have "(0x800, 4) \<in> set (map prod.swap oflags_pairs)" by (simp add: oflags_pairs_def)
  from oflags_back.preserved [OF this, of "word_of_int p"]
  have "?p AND 4 \<noteq> 0 \<longleftrightarrow> word_of_int p AND 0x800 \<noteq> (0 :: u32)" by (simp add: oflags_back_split)
  moreover have "uint ?p AND 4 = uint (?p AND 4)" by (simp add: unsigned_and_eq)
  ultimately have "uint ?p AND 4 \<noteq> 0 \<longleftrightarrow> word_of_int p AND 0x800 \<noteq> (0 :: u32)" by (simp add: unsigned_eq_0_iff)
  then show ?thesis using assms
    by (auto simp: sys_accept_nocancel_def inherit_nonblock_def fcntl_getfl fcntl_setfl_nonblock split: prod.splits)
qed

text \<open>Calls on files for the witness; the state is the list of the calls.\<close>

definition nonblocking_files :: "(int \<times> int \<times> larg) list filecalls" where
  "nonblocking_files = \<lparr>fc_openat = (\<lambda>d p f m w. (3, w)), fc_fcntl = (\<lambda>d c a w. ((if d = 3 then 0x802 else 2, a), w @ [(d, c, a)])),
     fc_fsync = (\<lambda>d w. (0, w))\<rparr>"

theorem accept_inherits_nonblock_witness:
  "sys_accept_nocancel plain_fs nonblocking_files
      (quiet_net\<lparr>nc_accept := \<lambda>d a w. ((5, Some (\<lparr>bsd_length = 2, bsd_family = 0, sun_path = []\<rparr>, 16)), w)\<rparr>) 3 None None [] =
    Some ((5, Some (\<lparr>bsd_length = 16, bsd_family = 2, sun_path = []\<rparr>, 16)), None,
      [(3, 3, LNum 0), (5, 3, LNum 0), (5, 4, LNum 0x802)])"
  using accept_inherits_nonblock [of
      "quiet_net\<lparr>nc_accept := \<lambda>d a w. ((5, Some (\<lparr>bsd_length = 2, bsd_family = 0, sun_path = []\<rparr>, 16)), w)\<rparr>"
      3 None "[]" 5 "\<lparr>bsd_length = 2, bsd_family = 0, sun_path = []\<rparr>" 16 "[]" nonblocking_files "0x802" "LNum 0"
      "[(3, 3, LNum 0)]" 2 "LNum 0" "[(3, 3, LNum 0), (5, 3, LNum 0)]" plain_fs None]
  by (simp add: nonblocking_files_def linux_family_def sfamily_linux_to_bsd_def family_tab_def)

text \<open>
  Lingering is never shortened. The time in ticks becomes the least number of seconds that is not
  below it, and read back it is that number of seconds in ticks: less than a second more.
\<close>

lemma linger_bounds:
  assumes "0 \<le> ticks" "ticks < 2 ^ 31 - 99" "8 \<le> length buf"
  shows "\<exists>s rest. sockopt_bsd_to_linux SOL_SOCKET SO_LINGER_TICKS (Some (le_enc 4 onoff @ int_enc ticks)) buf =
      Some (0, 1, 13, Some (le_enc 4 onoff @ int_enc s @ rest), le_enc 4 onoff @ int_enc s @ rest) \<and>
    ticks \<le> 100 * s \<and> 100 * s < ticks + 100 \<and>
    sockopt_linux_to_bsd SOL_SOCKET SO_LINGER_TICKS (le_enc 4 onoff @ int_enc s @ rest) =
      Some (le_enc 4 onoff @ int_enc (100 * s) @ rest)"
proof -
  let ?s = "(99 + ticks) div 100" and ?o = "le_enc 4 onoff"
  let ?rest = "drop 8 buf"
  have ok: "int_ok ticks" "int_ok (99 + ticks)" "int_ok (100 * ?s)" "int_ok ?s"
    using assms(1,2) by (auto simp: int_ok_def)
  have sd: "(99 + ticks) sdiv 100 = ?s" using assms(1) by (simp add: signed_divide_int_def)
  have "load 4 0 (?o @ int_enc ticks) = Some (le_val ?o)" using load_append [of ?o 4 "[]"] by simp
  moreover have "load 4 4 (?o @ int_enc t @ r) = Some (le_val (int_enc t))" for t r
    using load_append [of "int_enc t" 4 ?o] by simp
  moreover from this [of ticks "[]"] have "load 4 4 (?o @ int_enc ticks) = Some (le_val (int_enc ticks))" by simp
  moreover have "store 0 ?o buf = Some (?o @ drop 4 buf)" using store_front [of ?o buf "[]"] assms(3) by simp
  moreover have "store 4 (int_enc ?s) (?o @ drop 4 buf) = Some (?o @ int_enc ?s @ ?rest)"
    using store_front [of "int_enc ?s" "drop 4 buf" ?o] assms(3) by simp
  moreover have "store 4 (int_enc u) (?o @ int_enc t @ ?rest) = Some (?o @ int_enc u @ ?rest)" for t u
    using store_append [of "int_enc u" "int_enc t" ?o ?rest] by simp
  moreover have "le_enc 4 (le_val ?o) = ?o" using le_enc_val [of ?o] by simp
  moreover have "ticks \<le> 100 * ?s" "100 * ?s < ticks + 100" by presburger+
  ultimately show ?thesis using ok sd
    by (intro exI [of _ ?s] exI [of _ ?rest])
      (simp add: sockopt_bsd_to_linux_def level_tab_def so_tab_def linger_to_seconds_def
        sockopt_linux_to_bsd_def mult.commute)
qed

theorem linger_bounds_witness:
  "\<exists>s rest. sockopt_bsd_to_linux SOL_SOCKET SO_LINGER_TICKS (Some (le_enc 4 1 @ int_enc 250)) (replicate 100 0) =
      Some (0, 1, 13, Some (le_enc 4 1 @ int_enc s @ rest), le_enc 4 1 @ int_enc s @ rest) \<and>
    250 \<le> 100 * s \<and> 100 * s < 350"
  using linger_bounds [of 250 "replicate 100 0" 1] by auto

definition alloca_ok :: "'w netcalls \<Rightarrow> bool" where
  "alloca_ok K \<longleftrightarrow> (\<forall>n. length (sun_path (nc_alloca K n)) = n - 2)"

text \<open>
  C11: addresses of the local family. For a plain absolute path that fits with the prefix, \<^verbatim>\<open>connect\<close>
  hands Linux the address whose path is the prefix followed by the path, with the family and the
  length of Linux; and when Linux reports that address, the process sees the path it named.
\<close>

theorem connect_local_address:
  assumes "no_links V" "ns \<noteq> []" "list_all plain ns" "\<not> strcasecmp_eq (hd ns) ''Volumes''"
    "is_cstr (p @ abs_path ns)" "length (p @ abs_path ns) < SUN_PATH_SIZE" "alloca_ok K"
    "bsd_family name = 1" "sun_path name = abs_path ns @ [NUL]"
  shows "\<exists>a b w'. sys_connect_nocancel V K t fd name (3 + int (length (abs_path ns))) (Some p) w =
      (let (r, w'') = nc_connect K fd a (2 + int (length (p @ abs_path ns))) w' in Some (ret_bsd r, Some p, w'')) \<and>
    linux_family a = 1 \<and> get_sun_path a = Some (p @ abs_path ns) \<and>
    returned_address (0, a, 2 + int (length (p @ abs_path ns))) (Some p) = Some (0, b, 3 + int (length (abs_path ns))) \<and>
    bsd_family b = 1 \<and> get_sun_path b = Some (abs_path ns)"
proof -
  let ?q = "abs_path ns"
  let ?out = "nc_alloca K (sockaddr_fixup_size_from_bsd name (3 + int (length ?q)))"
  have len: "length ?q < SUN_PATH_SIZE" "length p + length ?q + 2 \<le> PATH_SIZE"
    using assms(6) by (simp_all add: PATH_SIZE_def)
  have out: "length (sun_path ?out) = SUN_PATH_SIZE"
    using assms(7,8) by (simp add: alloca_ok_def sockaddr_fixup_size_from_bsd_def)
  obtain w' where x: "vchroot_expand V \<lparr>ea_path = ?q, ea_dfd = get_perthread_wd t, ea_follow = True\<rparr> (Some p) w =
      Some (0, p @ ?q, Some p, w')"
    using expand_plain [OF assms(1-4) len(2), of "get_perthread_wd t" True w] by blast
  have "is_cstr ?q" using assms(5) by simp
  then obtain a where a: "sockaddr_fixup_from_bsd V t ?out name (3 + int (length ?q)) (Some p) w =
      Some ((2 + int (length (p @ ?q)), a), Some p, w')" "linux_family a = 1" "get_sun_path a = Some (p @ ?q)"
      "length (sun_path a) = SUN_PATH_SIZE"
    using from_bsd_local [OF assms(8,9) _ len(1) out x assms(5,6)] by blast
  have "?q \<noteq> []" using assms(2) by (cases ns) auto
  then obtain b where "sockaddr_fixup_from_linux a (2 + int (length (p @ ?q))) (Some p) = Some (3 + int (length ?q), b)"
      "bsd_family b = 1" "get_sun_path b = Some ?q"
    using from_linux_local [OF a(2,3,4) _ _ len(1) refl assms(6)] assms(5) by auto
  then show ?thesis using a len(1)
    by (intro exI [of _ a] exI [of _ b] exI [of _ w'])
      (simp add: sys_connect_nocancel_def returned_address_def)
qed

theorem connect_local_address_witness:
  "\<exists>a b w'. sys_connect_nocancel plain_fs quiet_net \<lparr>tsd_100 = False, tsd_101 = 0\<rparr> 3
      \<lparr>bsd_length = 9, bsd_family = 1, sun_path = ''/tmp/s'' @ [NUL]\<rparr> 9 (Some ''/pfx'') () =
      (let (r, w'') = nc_connect quiet_net 3 a 12 w' in Some (ret_bsd r, Some ''/pfx'', w'')) \<and>
    get_sun_path a = Some ''/pfx/tmp/s'' \<and> returned_address (0, a, 12) (Some ''/pfx'') = Some (0, b, 9)"
proof -
  have "\<not> strcasecmp_eq ''tmp'' ''Volumes''" by (auto dest: strcasecmp_eq_length)
  then show ?thesis
    using connect_local_address [of plain_fs "[''tmp'', ''s'']" "''/pfx''" quiet_net
      "\<lparr>bsd_length = 9, bsd_family = 1, sun_path = ''/tmp/s'' @ [NUL]\<rparr>" "\<lparr>tsd_100 = False, tsd_101 = 0\<rparr>" 3 "()"]
    by (simp add: no_links_def plain_fs_def is_symlink_def plain_def alloca_ok_def quiet_net_def)
      blast
qed

end
