(* ===== verification/Unistd.thy ===== *)
theory Unistd
  imports Fcntl Bytes
begin

text \<open>
  The calls of \<^verbatim>\<open>unistd/\<close>: paths, descriptors, identities, input and output, and the resource
  limits of \<^verbatim>\<open>misc/getrlimit.c\<close> and \<^verbatim>\<open>misc/setrlimit.c\<close> that one of them needs. Most calls expand
  a path, call Linux and translate the error; the locale \<open>path_syscall\<close> states that contract and
  what follows from it for every such call.

  A Linux call is its name and its arguments, as in \<^verbatim>\<open>LINUX_SYSCALL(nr, ...)\<close>. The calls that fill a
  structure or a buffer have fields of their own in \<open>kernel\<close>, and so have the calls of the Darling
  kernel module, \<^verbatim>\<open>lkm_call\<close>.
\<close>

section \<open>The kernel\<close>

datatype sarg = AInt int | AWord u64 | AStr string | ABuf "u8 list"

record linux_stat =
  st_dev :: u64
  st_ino :: u64
  st_nlink :: u64
  st_mode :: u32
  st_uid :: u32
  st_gid :: u32
  st_rdev :: u64
  st_size :: u64
  st_blksize :: u64
  st_blocks :: u64
  st_atime :: u64
  st_atime_nsec :: u64
  st_mtime :: u64
  st_mtime_nsec :: u64
  st_ctime :: u64
  st_ctime_nsec :: u64

record 'w kernel =
  sysc :: "string \<Rightarrow> sarg list \<Rightarrow> 'w \<Rightarrow> int \<times> 'w"
  sysc_stat :: "string \<Rightarrow> sarg list \<Rightarrow> 'w \<Rightarrow> (int \<times> linux_stat) \<times> 'w"
  sysc_buf :: "string \<Rightarrow> sarg list \<Rightarrow> 'w \<Rightarrow> (int \<times> u8 list) \<times> 'w"
  sysc_ints :: "string \<Rightarrow> sarg list \<Rightarrow> 'w \<Rightarrow> (int \<times> int list) \<times> 'w"
  lkm_closing_descriptor :: "int \<Rightarrow> 'w \<Rightarrow> 'w"
  lkm_getuidgid :: "'w \<Rightarrow> (int \<times> int) \<times> 'w"
  lkm_setuidgid :: "int \<Rightarrow> int \<Rightarrow> 'w \<Rightarrow> int \<times> 'w"
  mach_driver_get_fd :: int
  fake_setgid_root :: bool

text \<open>A call of Linux followed by the translation of its error.\<close>

definition linux_call :: "'w kernel \<Rightarrow> string \<Rightarrow> sarg list \<Rightarrow> 'w \<Rightarrow> int \<times> 'w" where
  "linux_call K nr args w = (let (ret, w) = sysc K nr args w in (ret_bsd ret, w))"

text \<open>The same after the expansion of a path, from which the arguments are built.\<close>

definition path_call ::
    "'w vfs \<Rightarrow> 'w kernel \<Rightarrow> int \<Rightarrow> string \<Rightarrow> bool \<Rightarrow> string \<Rightarrow> (string \<Rightarrow> sarg list) \<Rightarrow> string option \<Rightarrow> 'w \<Rightarrow>
     (int \<times> string option \<times> 'w) option" where
  "path_call V K dfd path fol nr args st w = do {
     (r, st, w) \<leftarrow> expand_path V dfd path fol st w;
     case r of
       Inl e \<Rightarrow> Some (e, st, w)
     | Inr p \<Rightarrow> let (ret, w) = linux_call K nr (args p) w in Some (ret, st, w) }"

abbreviation (input) BSD_AT_SYMLINK_NOFOLLOW :: u32 where "BSD_AT_SYMLINK_NOFOLLOW \<equiv> 0x20"
abbreviation (input) BSD_AT_SYMLINK_FOLLOW :: u32 where "BSD_AT_SYMLINK_FOLLOW \<equiv> 0x40"
abbreviation (input) LINUX_AT_SYMLINK_NOFOLLOW :: u32 where "LINUX_AT_SYMLINK_NOFOLLOW \<equiv> 0x100"
abbreviation (input) LINUX_AT_EMPTY_PATH :: u32 where "LINUX_AT_EMPTY_PATH \<equiv> 0x1000"

section \<open>Calls on one path\<close>

definition sys_chdir where
  "sys_chdir V K t path st w =
     path_call V K (get_perthread_wd t) path True ''chdir'' (\<lambda>p. [AStr p]) st w"

definition sys_faccessat where
  "sys_faccessat V K t fd filename amode flag st w =
     path_call V K (atfd t fd) filename (flag AND BSD_AT_SYMLINK_NOFOLLOW = 0) ''faccessat''
       (\<lambda>p. [AInt (atfd t fd), AStr p, AInt amode, AInt (uint (atflags_bsd_to_linux flag))]) st w"

definition sys_access where
  "sys_access V K t filename amode st w = sys_faccessat V K t (get_perthread_wd t) filename amode 0 st w"

text \<open>Linux does not change the mode of a link: \<^verbatim>\<open>do_linux_fchmodat\<close> reports success for one.\<close>

definition do_linux_fchmodat :: "'w kernel \<Rightarrow> int \<Rightarrow> string \<Rightarrow> int \<Rightarrow> u32 \<Rightarrow> 'w \<Rightarrow> int \<times> 'w" where
  "do_linux_fchmodat K fd path mode flag w =
     (if flag = 0 then sysc K ''fchmodat'' [AInt fd, AStr path, AInt mode] w
      else let ((ret, s), w) = sysc_stat K ''newfstatat''
             [AInt fd, AStr path, AInt (uint (LINUX_AT_EMPTY_PATH OR LINUX_AT_SYMLINK_NOFOLLOW))] w in
        if ret \<noteq> 0 then (- 1, w)
        else if is_symlink (st_mode s) then (0, w)
        else sysc K ''fchmodat'' [AInt fd, AStr path, AInt mode] w)"

definition sys_fchmodat where
  "sys_fchmodat V K t fd path mode flag st w = do {
     (r, st, w) \<leftarrow> expand_path V (atfd t fd) path (flag AND BSD_AT_SYMLINK_NOFOLLOW = 0) st w;
     case r of
       Inl e \<Rightarrow> Some (e, st, w)
     | Inr p \<Rightarrow> let (ret, w) = do_linux_fchmodat K (atfd t fd) p mode (atflags_bsd_to_linux flag) w
         in Some (ret_bsd ret, st, w) }"

definition sys_chmod where
  "sys_chmod V K t path mode st w = sys_fchmodat V K t (get_perthread_wd t) path mode 0 st w"

definition sys_chmod_extended where
  "sys_chmod_extended V K t path uid gid mode st w = do {
     (r, st, w) \<leftarrow> expand_path V (get_perthread_wd t) path True st w;
     case r of
       Inl e \<Rightarrow> Some (e, st, w)
     | Inr p \<Rightarrow>
         let (ret, w) = sysc K ''chmod'' [AStr p, AInt mode] w in
         if ret < 0 then Some (errno_linux_to_bsd ret, st, w)
         else let (ret, w) = linux_call K ''chown'' [AStr p, AInt uid, AInt gid] w in Some (ret, st, w) }"

definition sys_mknod where
  "sys_mknod V K t path mode dev st w =
     path_call V K (get_perthread_wd t) path False ''mknod'' (\<lambda>p. [AStr p, AInt mode, AInt dev]) st w"

definition sys_truncate where
  "sys_truncate V K t path len st w =
     path_call V K (get_perthread_wd t) path True ''truncate'' (\<lambda>p. [AStr p, AInt len]) st w"

definition sys_unlinkat where
  "sys_unlinkat V K t fd path flag st w =
     path_call V K (atfd t fd) path False ''unlinkat''
       (\<lambda>p. [AInt (atfd t fd), AStr p, AInt (uint (atflags_bsd_to_linux flag))]) st w"

definition sys_unlink where
  "sys_unlink V K t path st w = sys_unlinkat V K t (get_perthread_wd t) path 0 st w"

text \<open>The descriptor \<^verbatim>\<open>fd\<close> of \<^verbatim>\<open>symlinkat\<close> is not used.\<close>

definition sys_symlinkat where
  "sys_symlinkat V K t path fd link st w =
     path_call V K (get_perthread_wd t) link False ''symlinkat''
       (\<lambda>p. [AStr path, AInt (get_perthread_wd t), AStr p]) st w"

definition sys_symlink where
  "sys_symlink V K t path link st w = sys_symlinkat V K t path (get_perthread_wd t) link st w"

definition sys_readlinkat where
  "sys_readlinkat V K t fd path count st w = do {
     (r, st, w) \<leftarrow> expand_path V (atfd t fd) path False st w;
     case r of
       Inl e \<Rightarrow> Some ((e, []), st, w)
     | Inr p \<Rightarrow> let ((ret, buf), w) = sysc_buf K ''readlinkat'' [AInt (atfd t fd), AStr p, AInt count] w
         in Some ((ret_bsd ret, buf), st, w) }"

definition sys_readlink where
  "sys_readlink V K t path count st w = sys_readlinkat V K t (get_perthread_wd t) path count st w"

text \<open>\<^verbatim>\<open>chroot\<close> passes the path as it is; ownership and file flags are not kept.\<close>

definition sys_chroot :: "'w kernel \<Rightarrow> string \<Rightarrow> 'w \<Rightarrow> int \<times> 'w" where
  "sys_chroot K path w = linux_call K ''chroot'' [AStr path] w"

definition sys_fchownat :: "int \<Rightarrow> string \<Rightarrow> int \<Rightarrow> int \<Rightarrow> u32 \<Rightarrow> int" where
  "sys_fchownat fd path uid gid flag = 0"

definition sys_chown :: "tsd \<Rightarrow> string \<Rightarrow> int \<Rightarrow> int \<Rightarrow> int" where
  "sys_chown t path uid gid = sys_fchownat (get_perthread_wd t) path uid gid 0"

definition sys_lchown :: "string \<Rightarrow> int \<Rightarrow> int \<Rightarrow> int" where
  "sys_lchown path uid gid = 0"

definition sys_fchown :: "int \<Rightarrow> int \<Rightarrow> int \<Rightarrow> int" where
  "sys_fchown fd uid gid = 0"

definition sys_chflags :: "string \<Rightarrow> int \<Rightarrow> int" where
  "sys_chflags file flags = - 45"

definition sys_fchflags :: "int \<Rightarrow> int \<Rightarrow> int" where
  "sys_fchflags fd flags = - 45"

section \<open>Calls on two paths\<close>

definition sys_linkat where
  "sys_linkat V K t fd path fdlink link flag st w =
     (if PATH_SIZE \<le> length link then None
      else do {
        (r, st, w) \<leftarrow> expand_path V (atfd t fd) path (flag AND BSD_AT_SYMLINK_FOLLOW \<noteq> 0) st w;
        case r of
          Inl e \<Rightarrow> Some (e, st, w)
        | Inr p \<Rightarrow> path_call V K (atfd t fdlink) link False ''linkat''
            (\<lambda>q. [AInt (atfd t fd), AStr p, AInt (atfd t fdlink), AStr q, AInt (uint (atflags_bsd_to_linux flag))]) st w })"

definition sys_link where
  "sys_link V K t path link st w = sys_linkat V K t (get_perthread_wd t) path (get_perthread_wd t) link 0 st w"

definition sys_renameat where
  "sys_renameat V K t oldfd oldpath newfd newpath st w =
     (if PATH_SIZE \<le> length newpath then None
      else do {
        (r, st, w) \<leftarrow> expand_path V (atfd t oldfd) oldpath False st w;
        case r of
          Inl e \<Rightarrow> Some (e, st, w)
        | Inr p \<Rightarrow> do {
            (ret, st, w) \<leftarrow> path_call V K (atfd t newfd) newpath False ''renameat''
              (\<lambda>q. [AInt (atfd t oldfd), AStr p, AInt (atfd t newfd), AStr q]) st w;
            Some (if ret < 0 then ret else 0, st, w) } })"

definition sys_rename where
  "sys_rename V K t oldpath newpath st w =
     sys_renameat V K t (get_perthread_wd t) oldpath (get_perthread_wd t) newpath st w"

section \<open>Calls on descriptors\<close>

definition sys_fchdir where "sys_fchdir K fd w = linux_call K ''fchdir'' [AInt fd] w"

definition sys_fchmod where "sys_fchmod K fd mode w = linux_call K ''fchmod'' [AInt fd, AInt mode] w"

abbreviation (input) KAUTH_UID_NONE :: int where "KAUTH_UID_NONE \<equiv> - 101"
abbreviation (input) KAUTH_GID_NONE :: int where "KAUTH_GID_NONE \<equiv> - 101"

definition sys_fchmod_extended :: "'w kernel \<Rightarrow> int \<Rightarrow> int \<Rightarrow> int \<Rightarrow> int \<Rightarrow> 'w \<Rightarrow> int \<times> 'w" where
  "sys_fchmod_extended K fd uid gid mode w =
     (if uid = KAUTH_UID_NONE \<or> gid = KAUTH_GID_NONE \<or> mode = - 1 then (0, w)
      else let (ret, w) = sysc K ''fchmod'' [AInt fd, AInt mode] w in
        if ret < 0 then (errno_linux_to_bsd ret, w)
        else linux_call K ''fchown'' [AInt fd, AInt uid, AInt gid] w)"

text \<open>The descriptor of the kernel module cannot be closed; the module is told of every other one.\<close>

definition sys_close_nocancel :: "'w kernel \<Rightarrow> int \<Rightarrow> 'w \<Rightarrow> int \<times> 'w" where
  "sys_close_nocancel K fd w =
     (if fd = mach_driver_get_fd K then (0, w)
      else linux_call K ''close'' [AInt fd] (lkm_closing_descriptor K fd w))"

definition close_internal :: "'w kernel \<Rightarrow> int \<Rightarrow> 'w \<Rightarrow> int \<times> 'w" where
  "close_internal K fd w = linux_call K ''close'' [AInt fd] w"

definition sys_dup :: "'w kernel \<Rightarrow> int \<Rightarrow> 'w \<Rightarrow> int \<times> 'w" where
  "sys_dup K fd w = linux_call K ''dup'' [AInt fd] w"

definition sys_dup2 :: "'w kernel \<Rightarrow> int \<Rightarrow> int \<Rightarrow> 'w \<Rightarrow> int \<times> 'w" where
  "sys_dup2 K fd_from fd_to w =
     linux_call K ''dup2'' [AInt fd_from, AInt fd_to]
       (if fd_from \<noteq> fd_to then lkm_closing_descriptor K fd_to w else w)"

definition sys_fsync_nocancel where "sys_fsync_nocancel K fd w = linux_call K ''fsync'' [AInt fd] w"

definition sys_fdatasync where "sys_fdatasync K fd w = linux_call K ''fdatasync'' [AInt fd] w"

definition sys_flock where "sys_flock K fd oper w = linux_call K ''flock'' [AInt fd, AInt oper] w"

definition sys_ftruncate where "sys_ftruncate K fd len w = linux_call K ''ftruncate'' [AInt fd, AInt len] w"

definition sys_lseek where
  "sys_lseek K fd offset whence w = linux_call K ''lseek'' [AInt fd, AInt offset, AInt whence] w"

definition sys_sync where "sys_sync K w = linux_call K ''sync'' [] w"

definition sys_umask where "sys_umask K newmask w = linux_call K ''umask'' [AInt newmask] w"

text \<open>\<^verbatim>\<open>pipe\<close> returns the first descriptor, and the second in a register.\<close>

definition sys_pipe :: "'w kernel \<Rightarrow> 'w \<Rightarrow> ((int \<times> int) \<times> 'w) option" where
  "sys_pipe K w = (let ((ret, fds), w) = sysc_ints K ''pipe'' [] w in
     if ret < 0 then Some ((errno_linux_to_bsd ret, 0), w)
     else case fds of [a, b] \<Rightarrow> Some ((a, b), w) | _ \<Rightarrow> None)"

section \<open>Input and output\<close>

abbreviation (input) LINUX_EIO :: int where "LINUX_EIO \<equiv> 5"
abbreviation (input) LINUX_TCGETA :: int where "LINUX_TCGETA \<equiv> 0x5405"

text \<open>The end of a closed terminal: Linux reports an error, macOS an end of file.\<close>

definition sys_read_nocancel :: "'w kernel \<Rightarrow> int \<Rightarrow> int \<Rightarrow> 'w \<Rightarrow> (int \<times> u8 list) \<times> 'w" where
  "sys_read_nocancel K fd len w =
     (let ((ret, buf), w) = sysc_buf K ''read'' [AInt fd, AInt len] w in
      if ret < 0 then
        if ret = - LINUX_EIO then
          let (r, w) = sysc K ''ioctl'' [AInt fd, AInt LINUX_TCGETA] w in
          if r = 0 then ((0, []), w) else ((errno_linux_to_bsd ret, []), w)
        else ((errno_linux_to_bsd ret, []), w)
      else ((ret, buf), w))"

definition sys_write_nocancel :: "'w kernel \<Rightarrow> int \<Rightarrow> u8 list \<Rightarrow> int \<Rightarrow> 'w \<Rightarrow> int \<times> 'w" where
  "sys_write_nocancel K fd mem len w = linux_call K ''write'' [AInt fd, ABuf mem, AInt len] w"

definition sys_pread_nocancel :: "'w kernel \<Rightarrow> int \<Rightarrow> int \<Rightarrow> int \<Rightarrow> 'w \<Rightarrow> (int \<times> u8 list) \<times> 'w" where
  "sys_pread_nocancel K fd len ofs w =
     (let ((ret, buf), w) = sysc_buf K ''pread64'' [AInt fd, AInt len, AInt ofs] w in ((ret_bsd ret, buf), w))"

definition sys_pwrite_nocancel :: "'w kernel \<Rightarrow> int \<Rightarrow> u8 list \<Rightarrow> int \<Rightarrow> int \<Rightarrow> 'w \<Rightarrow> int \<times> 'w" where
  "sys_pwrite_nocancel K fd mem len ofs w =
     linux_call K ''pwrite64'' [AInt fd, ABuf mem, AInt len, AInt ofs] w"

text \<open>The vectors are addresses that Linux reads.\<close>

definition sys_readv_nocancel :: "'w kernel \<Rightarrow> int \<Rightarrow> u64 \<Rightarrow> int \<Rightarrow> 'w \<Rightarrow> int \<times> 'w" where
  "sys_readv_nocancel K fd iovp len w = linux_call K ''readv'' [AInt fd, AWord iovp, AInt len] w"

definition sys_writev_nocancel :: "'w kernel \<Rightarrow> int \<Rightarrow> u64 \<Rightarrow> int \<Rightarrow> 'w \<Rightarrow> int \<times> 'w" where
  "sys_writev_nocancel K fd iovp len w = linux_call K ''writev'' [AInt fd, AWord iovp, AInt len] w"

section \<open>Identities\<close>

text \<open>Users and groups are kept by the kernel module; the effective ids are the real ones.\<close>

definition sys_getuid where "sys_getuid K w = (let ((uid, gid), w) = lkm_getuidgid K w in (uid, w))"

definition sys_getgid where "sys_getgid K w = (let ((uid, gid), w) = lkm_getuidgid K w in (gid, w))"

definition sys_geteuid where "sys_geteuid K w = (let ((uid, gid), w) = lkm_getuidgid K w in (uid, w))"

definition sys_getegid where "sys_getegid K w = (let ((uid, gid), w) = lkm_getuidgid K w in (gid, w))"

definition sys_gettid where "sys_gettid K w = (let ((uid, gid), w) = lkm_getuidgid K w in ((0 :: int, uid, gid), w))"

definition sys_setuid where "sys_setuid K uid w = lkm_setuidgid K uid (- 1) w"

definition sys_setgid where "sys_setgid K gid w = lkm_setuidgid K (- 1) gid w"

definition sys_seteuid where "sys_seteuid K euid w = lkm_setuidgid K euid (- 1) w"

definition sys_setegid where "sys_setegid K egid w = lkm_setuidgid K (- 1) egid w"

definition sys_settid where "sys_settid K uid gid w = lkm_setuidgid K uid gid w"

definition sys_issetugid :: "'w kernel \<Rightarrow> 'w \<Rightarrow> bool \<times> 'w" where
  "sys_issetugid K w =
     (let (uid, w) = sys_getuid K w; (euid, w) = sys_geteuid K w in
      if uid \<noteq> euid then (True, w)
      else let (gid, w) = sys_getgid K w; (egid, w) = sys_getegid K w in (gid \<noteq> egid, w))"

definition sys_getgroups :: "'w kernel \<Rightarrow> nat \<Rightarrow> 'w \<Rightarrow> (int \<times> int list) \<times> 'w" where
  "sys_getgroups K gidsetsize w =
     (if fake_setgid_root K \<and> 1 \<le> gidsetsize then ((1, [0]), w)
      else let ((ret, gids), w) = sysc_ints K ''getgroups'' [AInt (int gidsetsize)] w in ((ret_bsd ret, gids), w))"

definition sys_setgroups :: "'w kernel \<Rightarrow> int list \<Rightarrow> 'w \<Rightarrow> int \<times> 'w" where
  "sys_setgroups K gidset w = linux_call K ''setgroups'' (AInt (int (length gidset)) # map AInt gidset) w"

definition sys_initgroups :: "'w kernel \<Rightarrow> int list \<Rightarrow> int \<Rightarrow> 'w \<Rightarrow> int \<times> 'w" where
  "sys_initgroups K gidset gmuid w = sys_setgroups K gidset w"

definition sys_getpid where "sys_getpid K w = linux_call K ''getpid'' [] w"

text \<open>The parent of the first process of a name space is 0 for Linux and 1 for macOS.\<close>

definition sys_getppid :: "'w kernel \<Rightarrow> 'w \<Rightarrow> int \<times> 'w" where
  "sys_getppid K w = (let (ret, w) = linux_call K ''getppid'' [] w in (if ret = 0 then 1 else ret, w))"

definition sys_getpgid where "sys_getpgid K pid w = linux_call K ''getpgid'' [AInt pid] w"

definition sys_getpgrp where "sys_getpgrp K w = linux_call K ''getpgrp'' [] w"

definition sys_getsid where "sys_getsid K pid w = linux_call K ''getsid'' [AInt pid] w"

definition sys_setpgid where "sys_setpgid K pid pgid w = linux_call K ''setpgid'' [AInt pid, AInt pgid] w"

text \<open>\<open>native_exit\<close> runs the exit handlers of Linux; neither call comes back unless it fails.\<close>

definition sys_exit :: "'w kernel \<Rightarrow> (int \<Rightarrow> 'w \<Rightarrow> 'w) \<Rightarrow> int \<Rightarrow> 'w \<Rightarrow> int \<times> 'w" where
  "sys_exit K native_exit status w = linux_call K ''exit_group'' [AInt status] (native_exit status w)"

definition sys_setsid where "sys_setsid K w = linux_call K ''setsid'' [] w"

section \<open>Resource limits\<close>

record rlimit =
  rlim_cur :: u64
  rlim_max :: u64

text \<open>\<^verbatim>\<open>CPU\<close>, \<^verbatim>\<open>FSIZE\<close>, \<^verbatim>\<open>DATA\<close>, \<^verbatim>\<open>STACK\<close>, \<^verbatim>\<open>CORE\<close>, \<^verbatim>\<open>AS\<close>, \<^verbatim>\<open>MEMLOCK\<close>, \<^verbatim>\<open>NPROC\<close>, \<^verbatim>\<open>NOFILE\<close>\<close>

definition rlimit_tab :: "(u32 \<times> u32) list" where
  "rlimit_tab = [(0, 0), (1, 1), (2, 2), (3, 3), (4, 4), (5, 9), (6, 8), (7, 6), (8, 7)]"

definition rlimit_bsd_to_linux :: "u32 \<Rightarrow> u32" where
  "rlimit_bsd_to_linux which = switch rlimit_tab (- 1) (which AND NOT 0x1000)"

text \<open>
  The two directions of \<^verbatim>\<open>prlimit64\<close> are parameters. For \<^verbatim>\<open>RLIMIT_NOFILE\<close> one descriptor is kept
  for the connection to the kernel module, also when the call failed.
\<close>

definition sys_getrlimit ::
    "(u32 \<Rightarrow> rlimit \<Rightarrow> 'w \<Rightarrow> (int \<times> rlimit) \<times> 'w) \<Rightarrow> u32 \<Rightarrow> rlimit \<Rightarrow> 'w \<Rightarrow> (int \<times> rlimit) \<times> 'w" where
  "sys_getrlimit get which rlp w =
     (let which = rlimit_bsd_to_linux which in
      if which = - 1 then ((- 22, rlp), w)
      else let ((ret, rlp), w) = get which rlp w in
        ((ret_bsd ret, if which = 7 then rlp\<lparr>rlim_cur := rlim_cur rlp - 1, rlim_max := rlim_max rlp - 1\<rparr> else rlp), w))"

definition sys_setrlimit :: "(u32 \<Rightarrow> rlimit \<Rightarrow> 'w \<Rightarrow> int \<times> 'w) \<Rightarrow> u32 \<Rightarrow> rlimit \<Rightarrow> 'w \<Rightarrow> int \<times> 'w" where
  "sys_setrlimit setl which rlp w =
     (let which = rlimit_bsd_to_linux which in
      if which = - 1 then (- 22, w)
      else let (ret, w) = setl which
          (if which = 7 then rlp\<lparr>rlim_cur := rlim_cur rlp + 1, rlim_max := rlim_max rlp + 1\<rparr> else rlp) w
        in (ret_bsd ret, w))"

definition sys_getdtablesize :: "(u32 \<Rightarrow> rlimit \<Rightarrow> 'w \<Rightarrow> (int \<times> rlimit) \<times> 'w) \<Rightarrow> rlimit \<Rightarrow> 'w \<Rightarrow> int \<times> 'w" where
  "sys_getdtablesize get lim w =
     (let ((ret, lim), w) = sys_getrlimit get 8 lim w in
      (if ret < 0 then ret else if rlim_cur lim < 0x7fffffff then uint (rlim_cur lim) else 0x7fffffff, w))"

section \<open>The contract of a call on a path\<close>

text \<open>
  A call on one path names the directory it starts from, whether it follows a link at the end, and
  the Linux call that it makes of an expanded path, and what it makes of the result. It promises that an error of the expansion is
  its result and that it otherwise makes that Linux call, once, and returns what it makes of its result.
\<close>

locale path_syscall =
  fixes sys :: "'w vfs \<Rightarrow> 'w kernel \<Rightarrow> tsd \<Rightarrow> string \<Rightarrow> string option \<Rightarrow> 'w \<Rightarrow> (int \<times> string option \<times> 'w) option"
    and dir :: "tsd \<Rightarrow> int" and fol :: bool and nr :: string and args :: "tsd \<Rightarrow> string \<Rightarrow> sarg list"
    and res :: "int \<Rightarrow> int"
  assumes failed: "expand_path V (dir t) path fol st w = Some (Inl e, st', w') \<Longrightarrow> sys V K t path st w = Some (e, st', w')"
    and reached: "expand_path V (dir t) path fol st w = Some (Inr p, st', w') \<Longrightarrow>
      sys V K t path st w = (let (ret, w'') = sysc K nr (args t p) w' in Some (res ret, st', w''))"
begin

lemma returns:
  assumes "prefix_ok (fst (get_prefix V st w))" "length path < PATH_SIZE"
    "take 1 path = ''/'' \<or> link_dir_ok V (start_link \<lparr>ea_path = path, ea_dfd = dir t, ea_follow = fol\<rparr>)"
  shows "sys V K t path st w \<noteq> None"
proof -
  let ?a = "\<lparr>ea_path = path, ea_dfd = dir t, ea_follow = fol\<rparr>"
  obtain rv p w' where "vchroot_expand V ?a st w = Some (rv, p, Some (fst (get_prefix V st w)), w')"
    using expand_returns [of V st w ?a] assms by auto
  then have "expand_path V (dir t) path fol st w =
      Some (if rv < 0 then Inl (errno_linux_to_bsd rv) else Inr p, Some (fst (get_prefix V st w)), w')"
    using assms(2) by (simp add: expand_path_def)
  then show ?thesis using failed reached by (cases "rv < 0") (auto split: prod.splits)
qed

lemma plain_path:
  assumes "no_links V" "ns \<noteq> []" "list_all plain ns" "\<not> strcasecmp_eq (hd ns) ''Volumes''"
    "length p + length (abs_path ns) + 2 \<le> PATH_SIZE"
  shows "\<exists>w'. sys V K t (abs_path ns) (Some p) w =
    (let (ret, w'') = sysc K nr (args t (p @ abs_path ns)) w' in Some (res ret, Some p, w''))"
proof -
  obtain w' where "vchroot_expand V \<lparr>ea_path = abs_path ns, ea_dfd = dir t, ea_follow = fol\<rparr> (Some p) w =
      Some (0, p @ abs_path ns, Some p, w')"
    using expand_plain [OF assms, of "dir t" fol w] by blast
  then have "expand_path V (dir t) (abs_path ns) fol (Some p) w = Some (Inr (p @ abs_path ns), Some p, w')"
    using assms(5) by (simp add: expand_path_def)
  then show ?thesis using reached by blast
qed

end

lemma path_syscallI:
  "(\<And>V K t path st w. sys V K t path st w = path_call V K (dir t) path fol nr (args t) st w) \<Longrightarrow>
   path_syscall sys dir fol nr args ret_bsd"
  by unfold_locales (simp_all add: path_call_def linux_call_def case_prod_beta)

interpretation chdir: path_syscall sys_chdir get_perthread_wd True "''chdir''" "\<lambda>t p. [AStr p]" ret_bsd
  by (rule path_syscallI) (simp add: sys_chdir_def)

interpretation faccessat: path_syscall "\<lambda>V K t path. sys_faccessat V K t fd path amode flag" "\<lambda>t. atfd t fd"
    "flag AND BSD_AT_SYMLINK_NOFOLLOW = 0" "''faccessat''"
    "\<lambda>t p. [AInt (atfd t fd), AStr p, AInt amode, AInt (uint (atflags_bsd_to_linux flag))]" ret_bsd for fd amode flag
  by (rule path_syscallI) (simp add: sys_faccessat_def)

interpretation mknod: path_syscall "\<lambda>V K t path. sys_mknod V K t path mode dev" get_perthread_wd False "''mknod''"
    "\<lambda>t p. [AStr p, AInt mode, AInt dev]" ret_bsd for mode dev
  by (rule path_syscallI) (simp add: sys_mknod_def)

interpretation truncate: path_syscall "\<lambda>V K t path. sys_truncate V K t path len" get_perthread_wd True "''truncate''"
    "\<lambda>t p. [AStr p, AInt len]" ret_bsd for len
  by (rule path_syscallI) (simp add: sys_truncate_def)

interpretation unlinkat: path_syscall "\<lambda>V K t path. sys_unlinkat V K t fd path flag" "\<lambda>t. atfd t fd" False "''unlinkat''"
    "\<lambda>t p. [AInt (atfd t fd), AStr p, AInt (uint (atflags_bsd_to_linux flag))]" ret_bsd for fd flag
  by (rule path_syscallI) (simp add: sys_unlinkat_def)

interpretation symlinkat: path_syscall "\<lambda>V K t link. sys_symlinkat V K t path fd link" get_perthread_wd False "''symlinkat''"
    "\<lambda>t p. [AStr path, AInt (get_perthread_wd t), AStr p]" ret_bsd for path fd
  by (rule path_syscallI) (simp add: sys_symlinkat_def)

interpretation fchmodat: path_syscall "\<lambda>V K t path. sys_fchmodat V K t fd path mode 0" "\<lambda>t. atfd t fd" True "''fchmodat''"
    "\<lambda>t p. [AInt (atfd t fd), AStr p, AInt mode]" ret_bsd for fd mode
  by (rule path_syscallI)
    (simp add: sys_fchmodat_def path_call_def linux_call_def do_linux_fchmodat_def atflags_bsd_to_linux_def
      atflags_tab_def case_prod_beta cong: option.case_cong sum.case_cong)

interpretation rlimit: switch_codec rlimit_tab
  by unfold_locales (simp_all add: rlimit_tab_def)

section \<open>Properties\<close>

text \<open>Kernels for the witnesses: nothing happens, or the calls are recorded and succeed.\<close>

definition quiet_kernel :: "'w kernel" where
  "quiet_kernel = \<lparr>sysc = (\<lambda>nr args w. (0, w)),
     sysc_stat = (\<lambda>nr args w. ((- 2, \<lparr>st_dev = 0, st_ino = 0, st_nlink = 0, st_mode = 0, st_uid = 0, st_gid = 0, st_rdev = 0,
       st_size = 0, st_blksize = 0, st_blocks = 0, st_atime = 0, st_atime_nsec = 0, st_mtime = 0, st_mtime_nsec = 0,
       st_ctime = 0, st_ctime_nsec = 0\<rparr>), w)),
     sysc_buf = (\<lambda>nr args w. ((0, []), w)), sysc_ints = (\<lambda>nr args w. ((0, []), w)),
     lkm_closing_descriptor = (\<lambda>d w. w), lkm_getuidgid = (\<lambda>w. ((0, 0), w)), lkm_setuidgid = (\<lambda>u g w. (0, w)),
     mach_driver_get_fd = 100, fake_setgid_root = False\<rparr>"

definition recording_kernel :: "(string \<times> sarg list) list kernel" where
  "recording_kernel = quiet_kernel\<lparr>sysc := \<lambda>nr args w. (0, w @ [(nr, args)])\<rparr>"

definition one_call :: "'w kernel \<Rightarrow> string \<Rightarrow> sarg list \<Rightarrow> string option \<Rightarrow> 'w \<Rightarrow> (int \<times> string option \<times> 'w) option" where
  "one_call K nr args st w = (let (ret, w) = sysc K nr args w in Some (ret_bsd ret, st, w))"



text \<open>
  The calls on a path return. For a prefix of ordinary length, an absolute path that fits its
  array is never accessed outside it, whatever links the file system has.
\<close>

lemma path_calls_return:
  assumes "prefix_ok (fst (get_prefix V st w))" "length path < PATH_SIZE" "take 1 path = ''/''"
  shows "sys_chdir V K t path st w \<noteq> None \<and> sys_faccessat V K t fd path amode flag st w \<noteq> None \<and>
    sys_fchmodat V K t fd path amode 0 st w \<noteq> None \<and> sys_mknod V K t path amode dev st w \<noteq> None \<and>
    sys_truncate V K t path len st w \<noteq> None \<and> sys_unlinkat V K t fd path flag st w \<noteq> None \<and>
    sys_symlinkat V K t tgt fd path st w \<noteq> None"
  by (intro conjI chdir.returns faccessat.returns fchmodat.returns mknod.returns truncate.returns
      unlinkat.returns symlinkat.returns disjI1 assms)

lemma path_calls_return_witness:
  "sys_chdir plain_fs recording_kernel \<lparr>tsd_100 = False, tsd_101 = 0\<rparr> ''/a/../../b'' None [] \<noteq> None"
proof -
  have "prefix_ok (fst (get_prefix plain_fs None ([] :: (string \<times> sarg list) list)))"
    by (simp add: get_prefix_def init_vchroot_path_def plain_fs_def prefix_ok_def PATH_SIZE_def EXIT_PATH_def)
  then show ?thesis
    using path_calls_return [of plain_fs None "[]" "''/a/../../b''" recording_kernel "\<lparr>tsd_100 = False, tsd_101 = 0\<rparr>"]
    by (simp add: PATH_SIZE_def)
qed

text \<open>
  Renaming keeps its two paths apart. For two plain absolute paths Linux is asked to rename the
  expansion of the first, below the first directory, to the expansion of the second, below the
  second; a success is 0 and an error is translated.
\<close>

lemma rename_plain:
  assumes "no_links V" "ns \<noteq> []" "list_all plain ns" "\<not> strcasecmp_eq (hd ns) ''Volumes''"
    "length p + length (abs_path ns) + 2 \<le> PATH_SIZE"
    "ms \<noteq> []" "list_all plain ms" "\<not> strcasecmp_eq (hd ms) ''Volumes''" "length p + length (abs_path ms) + 2 \<le> PATH_SIZE"
  shows "\<exists>w'. sys_renameat V K t oldfd (abs_path ns) newfd (abs_path ms) (Some p) w =
    (let (ret, w'') = sysc K ''renameat'' [AInt (atfd t oldfd), AStr (p @ abs_path ns),
       AInt (atfd t newfd), AStr (p @ abs_path ms)] w' in Some (if ret < 0 then errno_linux_to_bsd ret else 0, Some p, w''))"
proof -
  obtain w1 where "vchroot_expand V \<lparr>ea_path = abs_path ns, ea_dfd = atfd t oldfd, ea_follow = False\<rparr> (Some p) w =
      Some (0, p @ abs_path ns, Some p, w1)"
    using expand_plain [OF assms(1-5), of "atfd t oldfd" False w] by blast
  moreover obtain w2 where "vchroot_expand V \<lparr>ea_path = abs_path ms, ea_dfd = atfd t newfd, ea_follow = False\<rparr> (Some p) w1 =
      Some (0, p @ abs_path ms, Some p, w2)"
    using expand_plain [OF assms(1,6-9), of "atfd t newfd" False w1] by blast
  ultimately show ?thesis using assms(5,9)
    by (intro exI [of _ w2])
      (simp add: sys_renameat_def expand_path_def path_call_def linux_call_def ret_bsd_def errno.tail_sign split: prod.splits)
qed

theorem rename_plain_witness:
  "\<exists>w'. sys_renameat plain_fs recording_kernel \<lparr>tsd_100 = False, tsd_101 = 0\<rparr> 5 ''/a'' 6 ''/b'' (Some ''/pfx'') [] =
    (let (ret, w'') = sysc recording_kernel ''renameat'' [AInt 5, AStr ''/pfx/a'', AInt 6, AStr ''/pfx/b''] w' in
     Some (if ret < 0 then errno_linux_to_bsd ret else 0, Some ''/pfx'', w''))"
proof -
  have "\<not> strcasecmp_eq ''a'' ''Volumes''" "\<not> strcasecmp_eq ''b'' ''Volumes''" by (auto dest: strcasecmp_eq_length)
  then show ?thesis
    using rename_plain [of plain_fs "[''a'']" "''/pfx''" "[''b'']" recording_kernel "\<lparr>tsd_100 = False, tsd_101 = 0\<rparr>" 5 6 "[]"]
    by (simp add: no_links_plain_fs plain_def PATH_SIZE_def atfd_def)
qed

text \<open>
  Resource limits. With a kernel that stores the limits of each resource, the limits a process
  sets are the ones it reads, for every value including those at which the correction for the hidden
  descriptor wraps around, and the limits of every other resource stay as they were.
\<close>

lemma rlimit_roundtrip:
  assumes "which AND NOT 0x1000 \<in> fst ` set rlimit_tab" "which' AND NOT 0x1000 \<in> fst ` set rlimit_tab"
  shows "fst (sys_getrlimit (\<lambda>n r w. ((0, w n), w)) which' r (snd (sys_setrlimit (\<lambda>n l w. (0, w(n := l))) which rlp w))) =
    (if which' AND NOT 0x1000 = which AND NOT 0x1000 then (0, rlp)
     else fst (sys_getrlimit (\<lambda>n r w. ((0, w n), w)) which' r w))"
proof -
  have "rlimit_bsd_to_linux v \<noteq> - 1" if "v AND NOT 0x1000 \<in> fst ` set rlimit_tab" for v
    using that by (auto simp: rlimit_bsd_to_linux_def rlimit_tab_def)
  moreover have "rlimit_bsd_to_linux which' = rlimit_bsd_to_linux which \<longleftrightarrow> which' AND NOT 0x1000 = which AND NOT 0x1000"
    unfolding rlimit_bsd_to_linux_def using rlimit.forward_inj [OF assms(2,1)] by metis
  ultimately show ?thesis using assms by (auto simp: sys_getrlimit_def sys_setrlimit_def Let_def)
qed

lemma rlimit_roundtrip_witness:
  "fst (sys_getrlimit (\<lambda>n r w. ((0, w n), w)) 0x1008 \<lparr>rlim_cur = 0, rlim_max = 0\<rparr>
     (snd (sys_setrlimit (\<lambda>n l w. (0, w(n := l))) 8 \<lparr>rlim_cur = 1024, rlim_max = - 1\<rparr> (\<lambda>_. \<lparr>rlim_cur = 7, rlim_max = 7\<rparr>)))) =
   (0, \<lparr>rlim_cur = 1024, rlim_max = - 1\<rparr>)"
  using rlimit_roundtrip [of 8 "0x1008" "\<lparr>rlim_cur = 0, rlim_max = 0\<rparr>" "\<lparr>rlim_cur = 1024, rlim_max = - 1\<rparr>"
      "\<lambda>_. \<lparr>rlim_cur = 7, rlim_max = 7\<rparr>"]
  by (simp add: rlimit_tab_def)

end
