(* ===== verification/Dirent.thy ===== *)
theory Dirent
  imports Unistd
begin

text \<open>
  Directory entries: \<^verbatim>\<open>dirent/getdirentries.c\<close>. Linux returns records of its own layout; the two calls
  copy them into the buffer of the process in the two layouts of macOS, as far as there is room. The
  layouts differ in their header only, so one loop, with the header as an argument, is both loops of
  the source.
\<close>

section \<open>The two layouts\<close>

text \<open>
  The bytes before the name, from inode, type, length of the record and length of the name:
  \<^verbatim>\<open>struct bsd_dirent\<close> (8 bytes, name at 8) and \<^verbatim>\<open>struct bsd_dirent64\<close> (24 bytes, name at 21).
\<close>

definition bsd_dirent :: "nat \<Rightarrow> nat \<Rightarrow> nat \<Rightarrow> nat \<Rightarrow> u8 list" where
  "bsd_dirent ino type reclen namlen = le_enc 4 ino @ le_enc 2 reclen @ le_enc 1 type @ le_enc 1 namlen"

definition bsd_dirent64 :: "nat \<Rightarrow> nat \<Rightarrow> nat \<Rightarrow> nat \<Rightarrow> u8 list" where
  "bsd_dirent64 ino type reclen namlen =
     le_enc 8 ino @ le_enc 8 0 @ le_enc 2 reclen @ le_enc 2 namlen @ le_enc 1 type"

abbreviation (input) BSD_DIRENT_MIN_SIZE :: nat where "BSD_DIRENT_MIN_SIZE \<equiv> align 4 (8 + 2)"
abbreviation (input) BSD_DIRENT64_MIN_SIZE :: nat where "BSD_DIRENT64_MIN_SIZE \<equiv> align 4 (24 + 2)"
abbreviation (input) LINUX_DIRENT64_MIN_SIZE :: nat where "LINUX_DIRENT64_MIN_SIZE \<equiv> align 8 (24 + 2)"

text \<open>\<^verbatim>\<open>round_to_4\<close> on an \<^verbatim>\<open>unsigned short\<close>.\<close>

definition round_to_4 :: "nat \<Rightarrow> nat" where
  "round_to_4 reclen = (if reclen mod 4 \<noteq> 0 then (reclen + 3) mod 2 ^ 16 div 4 * 4 else reclen)"

text \<open>The C string at a position of an array.\<close>

definition cstring_at :: "nat \<Rightarrow> u8 list \<Rightarrow> u8 list option" where
  "cstring_at pos m = (if 0 \<in> set (drop pos m) then Some (takeWhile (\<lambda>b. b \<noteq> 0) (drop pos m)) else None)"

section \<open>The loop\<close>

text \<open>
  \<open>L\<close> is the buffer of Linux, the first \<open>ret\<close> bytes of it filled, \<open>B\<close> the buffer of the process, of
  size \<open>len\<close>; \<open>sz\<close> is the size of the structure. A record whose length is 0 after the reduction to
  16 bits, which the name of an entry in a buffer of at most 640 bytes cannot have, ends in \<open>None\<close>.
\<close>

function dirent_loop ::
    "(nat \<Rightarrow> nat \<Rightarrow> nat \<Rightarrow> nat \<Rightarrow> u8 list) \<Rightarrow> nat \<Rightarrow> nat \<Rightarrow> u8 list \<Rightarrow> nat \<Rightarrow> nat \<Rightarrow> nat \<Rightarrow> u8 list \<Rightarrow>
     (u8 list \<times> nat) option" where
  "dirent_loop hdr sz len L ret bpos opos B =
     (if bpos < ret \<and> opos < len then do {
        name \<leftarrow> cstring_at (bpos + 19) L;
        if len - opos < sz + length name + 1 then Some (B, opos)
        else do {
          ino \<leftarrow> load 8 bpos L;
          type \<leftarrow> load 1 (bpos + 18) L;
          reclen \<leftarrow> Some (round_to_4 ((sz + length name + 1) mod 2 ^ 16));
          B \<leftarrow> store opos (hdr ino type reclen (length name)) B;
          B \<leftarrow> store (opos + length (hdr ino type reclen (length name))) (name @ [0]) B;
          linux_reclen \<leftarrow> load 2 (bpos + 16) L;
          if reclen = 0 then None
          else dirent_loop hdr sz len L ret (bpos + linux_reclen) (opos + reclen) B } }
      else Some (B, opos))"
  by pat_completeness auto

termination
  by (relation "measure (\<lambda>(hdr, sz, len, L, ret, bpos, opos, B). len - opos)") auto

declare dirent_loop.simps [simp del]

text \<open>The size of the buffer on the stack.\<close>

definition linux_dirent_room :: "nat \<Rightarrow> nat \<Rightarrow> nat" where
  "linux_dirent_room min_size len = min 20 (len div min_size) * LINUX_DIRENT64_MIN_SIZE"

definition sys_getdirentries ::
    "'w kernel \<Rightarrow> int \<Rightarrow> u8 list \<Rightarrow> u64 option \<Rightarrow> 'w \<Rightarrow> ((int \<times> u8 list \<times> u64 option) \<times> 'w) option" where
  "sys_getdirentries K fd ibuf basep w =
     (let basep = map_option (\<lambda>_. 0) basep;
          ((ret, buf), w) = sysc_buf K ''getdents64''
            [AInt fd, AInt (int (linux_dirent_room BSD_DIRENT_MIN_SIZE (length ibuf)))] w in
      if ret < 0 then Some ((errno_linux_to_bsd ret, ibuf, basep), w)
      else do {
        (ibuf, opos) \<leftarrow> dirent_loop bsd_dirent 8 (length ibuf) buf (nat ret) 0 0 ibuf;
        Some ((int opos, ibuf, basep), w) })"

definition sys_getdirentries64 ::
    "'w kernel \<Rightarrow> int \<Rightarrow> u8 list \<Rightarrow> u64 option \<Rightarrow> 'w \<Rightarrow> ((int \<times> u8 list \<times> u64 option) \<times> 'w) option" where
  "sys_getdirentries64 K fd ibuf basep w =
     (let basep = map_option (\<lambda>_. 0) basep;
          ((ret, buf), w) = sysc_buf K ''getdents64''
            [AInt fd, AInt (int (linux_dirent_room BSD_DIRENT64_MIN_SIZE (length ibuf)))] w in
      if ret < 0 then Some ((errno_linux_to_bsd ret, ibuf, basep), w)
      else do {
        (ibuf, opos) \<leftarrow> dirent_loop bsd_dirent64 24 (length ibuf) buf (nat ret) 0 0 ibuf;
        Some ((int opos, ibuf, basep), w) })"

section \<open>Specification\<close>

text \<open>
  A directory entry is its inode, its offset, its type, its name and the padding of its record. The
  records of a list of entries as Linux lays them out, and as the process finds them in a buffer that
  held \<open>old\<close>; \<open>fitting\<close> are the first entries for which there is room.
\<close>

type_synonym dirent = "nat \<times> nat \<times> nat \<times> u8 list \<times> u8 list"

definition linux_reclen :: "u8 list \<Rightarrow> nat" where
  "linux_reclen name = align 8 (20 + length name)"

fun linux_dirents :: "dirent list \<Rightarrow> u8 list" where
  "linux_dirents [] = []"
| "linux_dirents ((ino, off, type, name, pad) # es) =
     le_enc 8 ino @ le_enc 8 off @ le_enc 2 (linux_reclen name) @ le_enc 1 type @ (name @ [0]) @ pad @ linux_dirents es"

definition wf_dirent :: "dirent \<Rightarrow> bool" where
  "wf_dirent = (\<lambda>(ino, off, type, name, pad). ino < 2 ^ 64 \<and> type < 256 \<and> length name < 256 \<and> 0 \<notin> set name \<and>
     length pad = linux_reclen name - (20 + length name))"

definition reclen :: "nat \<Rightarrow> u8 list \<Rightarrow> nat" where
  "reclen sz name = align 4 (sz + length name + 1)"

fun bsd_dirents :: "(nat \<Rightarrow> nat \<Rightarrow> nat \<Rightarrow> nat \<Rightarrow> u8 list) \<Rightarrow> nat \<Rightarrow> dirent list \<Rightarrow> u8 list \<Rightarrow> u8 list" where
  "bsd_dirents hdr sz [] old = old"
| "bsd_dirents hdr sz ((ino, off, type, name, pad) # es) old =
     (let h = hdr ino type (reclen sz name) (length name) @ name @ [0] in
      h @ take (reclen sz name - length h) (drop (length h) old) @ bsd_dirents hdr sz es (drop (reclen sz name) old))"

fun fitting :: "nat \<Rightarrow> nat \<Rightarrow> dirent list \<Rightarrow> dirent list" where
  "fitting sz room [] = []"
| "fitting sz room ((ino, off, type, name, pad) # es) =
     (if room < sz + length name + 1 then []
      else (ino, off, type, name, pad) # fitting sz (room - reclen sz name) es)"

fun total :: "nat \<Rightarrow> dirent list \<Rightarrow> nat" where
  "total sz [] = 0"
| "total sz ((ino, off, type, name, pad) # es) = reclen sz name + total sz es"

section \<open>Lemmas\<close>

lemma cstring_at_append: "0 \<notin> set name \<Longrightarrow> cstring_at (length a) (a @ (name @ [0]) @ c) = Some name"
  by (auto simp: cstring_at_def takeWhile_eq_all_conv) (subst takeWhile_append2, auto)

lemma round_to_4_align: "n < 2 ^ 15 \<Longrightarrow> round_to_4 n = align 4 n"
proof -
  assume n: "n < 2 ^ 15"
  then have "(n + 3) mod 2 ^ 16 = n + 3" by simp
  moreover have "n mod 4 = 0 \<Longrightarrow> n = (n + 3) div 4 * 4" by presburger
  ultimately show ?thesis by (simp add: round_to_4_def align_def add.commute)
qed

definition written :: "(nat \<Rightarrow> nat \<Rightarrow> nat \<Rightarrow> nat \<Rightarrow> u8 list) \<Rightarrow> nat \<Rightarrow> dirent \<Rightarrow> u8 list" where
  "written hdr sz = (\<lambda>(ino, off, type, name, pad). hdr ino type (reclen sz name) (length name) @ name @ [0])"

text \<open>What a layout promises to the loop: a header of fixed length that ends before the structure does.\<close>

locale dirent_layout =
  fixes hdr :: "nat \<Rightarrow> nat \<Rightarrow> nat \<Rightarrow> nat \<Rightarrow> u8 list" and sz :: nat and h :: nat
  assumes length_hdr: "length (hdr ino type rec namlen) = h"
    and name_inside: "h \<le> sz" and size_small: "sz \<le> 24"
begin

lemma step:
  assumes e: "e = (ino, off, type, name, pad)" "wf_dirent e" and n: "length L < ret"
    and fits: "sz + length name + 1 \<le> length old"
  shows "dirent_loop hdr sz (length B + length old) (L @ linux_dirents (e # es) @ L') ret (length L) (length B) (B @ old) =
    dirent_loop hdr sz (length B + length old) (L @ linux_dirents (e # es) @ L') ret
      (length L + linux_reclen name) (length B + reclen sz name) (B @ written hdr sz e @ drop (length (written hdr sz e)) old)"
proof -
  let ?i = "le_enc 8 ino" and ?o = "le_enc 8 off" and ?r = "le_enc 2 (linux_reclen name)" and ?t = "le_enc 1 type"
  define M where "M = L @ linux_dirents (e # es) @ L'"
  have wf: "ino < 256 ^ 8" "type < 256 ^ 1" "length name < 256" "0 \<notin> set name" using e by (auto simp: wf_dirent_def)
  have lr: "linux_reclen name < 256 ^ 2" using wf(3) align_less [of 8 "20 + length name"] by (simp add: linux_reclen_def)
  have M: "M = L @ ?i @ ?o @ ?r @ ?t @ (name @ [0]) @ pad @ linux_dirents es @ L'" by (simp add: M_def e(1))
  have "cstring_at (length L + 19) M = Some name"
    using cstring_at_append [OF wf(4), of "L @ ?i @ ?o @ ?r @ ?t"] by (simp add: M)
  moreover have "load 8 (length L) M = Some ino" using load_append [of ?i 8 L] wf(1) by (simp add: M)
  moreover have "load 2 (length L + 16) M = Some (linux_reclen name)"
    using load_append [of ?r 2 "L @ ?i @ ?o"] lr by (simp add: M)
  moreover have "load 1 (length L + 18) M = Some type"
    using load_append [of ?t 1 "L @ ?i @ ?o @ ?r"] le_val_enc_id [OF wf(2)] by (simp add: M del: le_enc.simps le_val.simps)
  moreover have rl: "round_to_4 ((sz + length name + 1) mod 2 ^ 16) = reclen sz name"
    using wf(3) size_small round_to_4_align [of "sz + length name + 1"] by (simp add: reclen_def)
  moreover define H where "H = hdr ino type (reclen sz name) (length name)"
  have lH: "length H = h" by (simp add: H_def length_hdr)
  then have "store (length B) H (B @ old) = Some (B @ H @ drop h old)"
    using store_front [of H old B] fits name_inside by simp
  moreover have "store (length B + length H) (name @ [0]) (B @ H @ drop h old) =
      Some (B @ H @ (name @ [0]) @ drop (length name + 1 + h) old)"
    using store_front [of "name @ [0]" "drop h old" "B @ H"] fits name_inside lH by simp
  moreover have "reclen sz name \<noteq> 0" using align_ge [of 4 "sz + length name + 1"] by (simp add: reclen_def)
  moreover have "\<not> length B + length old - length B < sz + length name + 1" "length B < length B + length old"
    using fits by auto
  ultimately show ?thesis
    unfolding M_def [symmetric] using n e(1) lH fits
    by (subst dirent_loop.simps) (simp add: written_def H_def add_ac)
qed

lemma stops:
  assumes "e = (ino, off, type, name, pad)" "wf_dirent e" "length old < sz + length name + 1"
  shows "dirent_loop hdr sz (length B + length old) (L @ linux_dirents (e # es) @ L') ret (length L) (length B) (B @ old) =
    Some (B @ old, length B)"
proof -
  let ?a = "L @ le_enc 8 ino @ le_enc 8 off @ le_enc 2 (linux_reclen name) @ le_enc 1 type"
  have "cstring_at (length L + 19) (L @ linux_dirents (e # es) @ L') = Some name"
    using cstring_at_append [of name ?a "pad @ linux_dirents es @ L'"] assms(1,2) by (simp add: wf_dirent_def)
  then show ?thesis using assms(3) by (subst dirent_loop.simps) simp
qed

lemma copies:
  assumes "list_all wf_dirent es"
  shows "dirent_loop hdr sz (length B + length old) (L @ linux_dirents es @ L') (length L + length (linux_dirents es))
      (length L) (length B) (B @ old) =
    Some (B @ bsd_dirents hdr sz (fitting sz (length old) es) old, length B + total sz (fitting sz (length old) es))"
  using assms
proof (induction es arbitrary: L B old rule: linux_dirents.induct)
  case 1
  show ?case by (subst dirent_loop.simps) simp
next
  case (2 ino off type name pad es)
  let ?e = "(ino, off, type, name, pad)" and ?n = "sz + length name + 1"
  define w where "w = written hdr sz ?e"
  have wf: "wf_dirent ?e" "list_all wf_dirent es" using 2(2) by auto
  define ebs where "ebs = linux_dirents [?e]"
  have ebs: "linux_dirents (?e # es) = ebs @ linux_dirents es" "length ebs = linux_reclen name"
    using wf(1) align_ge [of 8 "20 + length name"] by (auto simp: ebs_def wf_dirent_def linux_reclen_def)
  have pos: "0 < linux_reclen name" using align_ge [of 8 "20 + length name"] by (simp add: linux_reclen_def)
  have lw: "length w = h + length name + 1" by (simp add: w_def written_def length_hdr)
  have rl: "length w \<le> reclen sz name" using name_inside align_ge [of 4 ?n] by (simp add: lw reclen_def)
  show ?case
  proof (cases "length old < ?n")
    case True
    then show ?thesis using stops [OF refl wf(1) True, of B L es L'] by simp
  next
    case False
    let ?m = "w @ take (reclen sz name - length w) (drop (length w) old)"
    have old: "w @ drop (length w) old = ?m @ drop (reclen sz name) old"
      using take_drop_drop [OF rl, of old] by simp
    have bsd: "bsd_dirents hdr sz (?e # es') old = ?m @ bsd_dirents hdr sz es' (drop (reclen sz name) old)" for es'
      by (simp add: w_def written_def Let_def)
    have st: "dirent_loop hdr sz (length B + length old) (L @ linux_dirents (?e # es) @ L')
        (length L + length (linux_dirents (?e # es))) (length L) (length B) (B @ old) =
      dirent_loop hdr sz (length B + length old) ((L @ ebs) @ linux_dirents es @ L')
        (length (L @ ebs) + length (linux_dirents es)) (length (L @ ebs)) (length B + reclen sz name)
        ((B @ ?m) @ drop (reclen sz name) old)"
      using step [OF refl wf(1), of L "length L + length (linux_dirents (?e # es))" old B es L'] False
      unfolding ebs(1) w_def [symmetric] old using pos by (simp add: ebs(2) add.assoc)
    show ?thesis
    proof (cases "reclen sz name \<le> length old")
      case True
      then have "length (B @ ?m) = length B + reclen sz name" using rl by simp
      then show ?thesis using st 2(1) [OF wf(2), of "B @ ?m" "drop (reclen sz name) old" "L @ ebs"] False True
        by (simp add: bsd del: bsd_dirents.simps(2) linux_dirents.simps(2))
    next
      case False
      have "fitting sz 0 es' = []" for es' by (cases es' rule: linux_dirents.cases) auto
      then show ?thesis using st False \<open>\<not> length old < ?n\<close>
        by (simp add: bsd dirent_loop.simps [of _ _ _ _ _ _ "length B + reclen sz name"] del: bsd_dirents.simps(2) linux_dirents.simps(2))
    qed
  qed
qed

end

interpretation dirent: dirent_layout bsd_dirent 8 8
  by unfold_locales (simp_all add: bsd_dirent_def)

interpretation dirent64: dirent_layout bsd_dirent64 24 21
  by unfold_locales (simp_all add: bsd_dirent64_def)

lemma fitting_prefix: "prefix (fitting sz room es) es"
  by (induction es arbitrary: room rule: linux_dirents.induct) auto

lemma fitting_all: "total sz es \<le> room \<Longrightarrow> fitting sz room es = es"
proof (induction es arbitrary: room rule: linux_dirents.induct)
  case (2 ino off type name pad es)
  then show ?case using align_ge [of 4 "sz + length name + 1"] by (simp add: reclen_def)
qed simp

section \<open>Properties\<close>


definition four_entries :: "dirent list" where
  "four_entries = map (\<lambda>c. (7, 0, 8, [c, c, c, c], [])) [97, 98, 99, 100]"

definition directory_kernel :: "unit kernel" where
  "directory_kernel = quiet_kernel\<lparr>sysc_buf := \<lambda>nr args w. ((96, linux_dirents four_entries), w)\<rparr>"

lemma four_entries_wf: "list_all wf_dirent four_entries" "length (linux_dirents four_entries) = 96"
  "total 24 four_entries = 128"
  by (simp_all add: four_entries_def wf_dirent_def linux_reclen_def align_def reclen_def)


text \<open>
  Entries can be lost. The buffer given to Linux is sized for entries with the shortest names;
  a buffer of the process of 84 bytes lets Linux return four entries with names of four letters, of
  which only two are passed on, while the position of the directory is behind all four.
\<close>

lemma getdirentries64_loses:
  assumes "sysc_buf K ''getdents64'' [AInt fd, AInt (int (linux_dirent_room BSD_DIRENT64_MIN_SIZE (length ibuf)))] w =
      ((int (length (linux_dirents es)), linux_dirents es), w')" "list_all wf_dirent es"
    "length ibuf = 84" "length es = 4" "\<forall>(ino, off, type, name, pad) \<in> set es. length name = 4"
  shows "length (linux_dirents es) = linux_dirent_room BSD_DIRENT64_MIN_SIZE (length ibuf) \<and>
    sys_getdirentries64 K fd ibuf None w = Some ((64, bsd_dirents bsd_dirent64 24 (take 2 es) ibuf, None), w')"
proof -
  obtain a b c d where es: "es = [a, b, c, d]" using assms(4) by (auto simp: length_Suc_conv numeral_eq_Suc)
  have room: "linux_dirent_room BSD_DIRENT64_MIN_SIZE 84 = 96"
    by (simp add: linux_dirent_room_def align_def)
  have "fitting 24 84 es = take 2 es" "total 24 (take 2 es) = 64" "length (linux_dirents es) = 96"
    using assms(2,5) unfolding es
    by (cases a; cases b; cases c; cases d; simp add: reclen_def align_def linux_reclen_def wf_dirent_def)+
  then show ?thesis using dirent64.copies [OF assms(2), of "[]" ibuf "[]" "[]"] assms(1,3) room
    by (simp add: sys_getdirentries64_def)
qed

lemma getdirentries64_loses_witness:
  "sys_getdirentries64 directory_kernel 3 (replicate 84 0) None () =
     Some ((64, bsd_dirents bsd_dirent64 24 (take 2 four_entries) (replicate 84 0), None), ())"
  using getdirentries64_loses [of directory_kernel 3 "replicate 84 0" "()" four_entries "()"]
  by (simp add: directory_kernel_def four_entries_wf) (simp add: four_entries_def)

end
