(* ===== verification/Stat.thy ===== *)
theory Stat
  imports Unistd
begin

text \<open>
  File status: \<^verbatim>\<open>stat/\<close>. The status of a file in the layouts of macOS, directories and pipes, and the
  status of file systems, for which the table of mounts is read line by line.

  The call of Linux that fills a \<^verbatim>\<open>struct linux_statfs64\<close> is a parameter of the operations that
  make it. Of the structures, the fields that the code sets are modelled.
\<close>

section \<open>Status of a file\<close>

record bsd_stat =
  bst_dev :: u32
  bst_mode :: u16
  bst_nlink :: u16
  bst_ino :: u32
  bst_uid :: int
  bst_gid :: int
  bst_rdev :: u32
  bst_size :: u64
  bst_blksize :: u32
  bst_blocks :: u64
  bst_atimespec :: "u64 \<times> u64"
  bst_mtimespec :: "u64 \<times> u64"
  bst_ctimespec :: "u64 \<times> u64"
  bst_flags :: u32

record bsd_stat64 =
  b64_dev :: u32
  b64_mode :: u16
  b64_nlink :: u16
  b64_ino :: u64
  b64_uid :: int
  b64_gid :: int
  b64_rdev :: u32
  b64_size :: u64
  b64_blksize :: u32
  b64_blocks :: u64
  b64_atimespec :: "u64 \<times> u64"
  b64_mtimespec :: "u64 \<times> u64"
  b64_ctimespec :: "u64 \<times> u64"
  b64_flags :: u32

text \<open>The owner is not the owner of the file but the user of the process.\<close>

definition stat_linux_to_bsd :: "'w kernel \<Rightarrow> linux_stat \<Rightarrow> 'w \<Rightarrow> bsd_stat \<times> 'w" where
  "stat_linux_to_bsd K s w =
     (let (uid, w) = sys_getuid K w; (gid, w) = sys_getgid K w in
      (\<lparr>bst_dev = ucast (st_dev s), bst_mode = ucast (st_mode s), bst_nlink = ucast (st_nlink s),
        bst_ino = ucast (st_ino s), bst_uid = uid, bst_gid = gid, bst_rdev = ucast (st_rdev s),
        bst_size = st_size s, bst_blksize = ucast (st_blksize s), bst_blocks = st_blocks s,
        bst_atimespec = (st_atime s, st_atime_nsec s), bst_mtimespec = (st_mtime s, st_mtime_nsec s),
        bst_ctimespec = (st_ctime s, st_ctime_nsec s), bst_flags = 0\<rparr>, w))"

definition stat_linux_to_bsd64 :: "'w kernel \<Rightarrow> linux_stat \<Rightarrow> 'w \<Rightarrow> bsd_stat64 \<times> 'w" where
  "stat_linux_to_bsd64 K s w =
     (let (uid, w) = sys_getuid K w; (gid, w) = sys_getgid K w in
      (\<lparr>b64_dev = ucast (st_dev s), b64_mode = ucast (st_mode s), b64_nlink = ucast (st_nlink s),
        b64_ino = st_ino s, b64_uid = uid, b64_gid = gid, b64_rdev = ucast (st_rdev s),
        b64_size = st_size s, b64_blksize = ucast (st_blksize s), b64_blocks = st_blocks s,
        b64_atimespec = (st_atime s, st_atime_nsec s), b64_mtimespec = (st_mtime s, st_mtime_nsec s),
        b64_ctimespec = (st_ctime s, st_ctime_nsec s), b64_flags = 0\<rparr>, w))"

text \<open>The end of every status call: the error, or 0 and the converted structure.\<close>

definition stat_result ::
    "(linux_stat \<Rightarrow> 'w \<Rightarrow> 's \<times> 'w) \<Rightarrow> (int \<times> linux_stat) \<times> 'w \<Rightarrow> (int \<times> 's option) \<times> 'w" where
  "stat_result f r = (case r of ((ret, s), w) \<Rightarrow>
     if ret < 0 then ((errno_linux_to_bsd ret, None), w)
     else let (b, w) = f s w in ((0, Some b), w))"

definition sys_fstat :: "'w kernel \<Rightarrow> int \<Rightarrow> 'w \<Rightarrow> (int \<times> bsd_stat option) \<times> 'w" where
  "sys_fstat K fd w = stat_result (stat_linux_to_bsd K) (sysc_stat K ''fstat'' [AInt fd] w)"

definition sys_fstat64 :: "'w kernel \<Rightarrow> int \<Rightarrow> 'w \<Rightarrow> (int \<times> bsd_stat64 option) \<times> 'w" where
  "sys_fstat64 K fd w = stat_result (stat_linux_to_bsd64 K) (sysc_stat K ''fstat'' [AInt fd] w)"

text \<open>A status call on a path: the expansion, the call of Linux and the result.\<close>

definition path_stat ::
    "'w vfs \<Rightarrow> 'w kernel \<Rightarrow> (linux_stat \<Rightarrow> 'w \<Rightarrow> 's \<times> 'w) \<Rightarrow> int \<Rightarrow> string \<Rightarrow> bool \<Rightarrow> string \<Rightarrow> (string \<Rightarrow> sarg list) \<Rightarrow>
     string option \<Rightarrow> 'w \<Rightarrow> ((int \<times> 's option) \<times> string option \<times> 'w) option" where
  "path_stat V K f dfd path fol nr args st w = do {
     (r, st, w) \<leftarrow> expand_path V dfd path fol st w;
     case r of
       Inl e \<Rightarrow> Some ((e, None), st, w)
     | Inr p \<Rightarrow> let (res, w) = stat_result f (sysc_stat K nr (args p) w) in Some (res, st, w) }"

definition sys_fstatat where
  "sys_fstatat V K t fd path flag st w = (case path of
     None \<Rightarrow> Some ((- 14, None), st, w)
   | Some path \<Rightarrow> path_stat V K (stat_linux_to_bsd K) (atfd t fd) path (flag AND BSD_AT_SYMLINK_NOFOLLOW = 0) ''newfstatat''
       (\<lambda>p. [AInt (atfd t fd), AStr p, AInt (uint (atflags_bsd_to_linux flag))]) st w)"

definition sys_fstatat64 where
  "sys_fstatat64 V K t fd path flag st w = (case path of
     None \<Rightarrow> Some ((- 14, None), st, w)
   | Some path \<Rightarrow> path_stat V K (stat_linux_to_bsd64 K) (atfd t fd) path (flag AND BSD_AT_SYMLINK_NOFOLLOW = 0) ''newfstatat''
       (\<lambda>p. [AInt (atfd t fd), AStr p, AInt (uint (atflags_bsd_to_linux flag))]) st w)"

definition sys_stat where
  "sys_stat V K t path st w = sys_fstatat V K t (get_perthread_wd t) path 0 st w"

definition sys_stat64 where
  "sys_stat64 V K t path st w = sys_fstatat64 V K t (get_perthread_wd t) path 0 st w"

definition sys_lstat where
  "sys_lstat V K t path st w = (case path of
     None \<Rightarrow> Some ((- 14, None), st, w)
   | Some path \<Rightarrow> path_stat V K (stat_linux_to_bsd K) (get_perthread_wd t) path False ''lstat'' (\<lambda>p. [AStr p]) st w)"

text \<open>\<^verbatim>\<open>lstat64\<close> does not test for a null path.\<close>

definition sys_lstat64 where
  "sys_lstat64 V K t path st w = do {
     path \<leftarrow> path;
     path_stat V K (stat_linux_to_bsd64 K) (get_perthread_wd t) path False ''lstat'' (\<lambda>p. [AStr p]) st w }"

text \<open>The extended calls report no extended security data: they set its size to 0.\<close>

definition sys_fstat64_extended where
  "sys_fstat64_extended K fd xsec_size w = (map_option (\<lambda>_. 0 :: u64) xsec_size, sys_fstat64 K fd w)"

definition sys_lstat64_extended where
  "sys_lstat64_extended V K t path xsec_size st w = (map_option (\<lambda>_. 0 :: u64) xsec_size, sys_lstat64 V K t path st w)"

definition sys_stat64_extended where
  "sys_stat64_extended V K t path xsec_size st w = (map_option (\<lambda>_. 0 :: u64) xsec_size, sys_stat64 V K t path st w)"

section \<open>Directories and pipes\<close>

definition res0 :: "int \<Rightarrow> int" where
  "res0 ret = (if ret < 0 then errno_linux_to_bsd ret else 0)"

definition path_call0 where
  "path_call0 V K dfd path fol nr args st w = (case path of
     None \<Rightarrow> Some (- 14, st, w)
   | Some path \<Rightarrow> do {
       (r, st, w) \<leftarrow> expand_path V dfd path fol st w;
       case r of
         Inl e \<Rightarrow> Some (e, st, w)
       | Inr p \<Rightarrow> let (ret, w) = sysc K nr (args p) w in Some (res0 ret, st, w) })"

definition sys_mkdirat where
  "sys_mkdirat V K t fd path mode st w =
     path_call0 V K (atfd t fd) path False ''mkdirat'' (\<lambda>p. [AInt (atfd t fd), AStr p, AInt mode]) st w"

definition sys_mkdir where
  "sys_mkdir V K t path mode st w = sys_mkdirat V K t (get_perthread_wd t) path mode st w"

abbreviation (input) LINUX_S_IFIFO :: int where "LINUX_S_IFIFO \<equiv> 0x1000"

definition sys_mkfifo where
  "sys_mkfifo V K t path mode st w =
     path_call0 V K (get_perthread_wd t) path False ''mknod'' (\<lambda>p. [AStr p, AInt (mode OR LINUX_S_IFIFO), AInt 0]) st w"

abbreviation (input) LINUX_AT_REMOVEDIR :: int where "LINUX_AT_REMOVEDIR \<equiv> 0x200"

definition sys_rmdir where
  "sys_rmdir V K t path st w =
     path_call0 V K (get_perthread_wd t) path False ''unlinkat''
       (\<lambda>p. [AInt (get_perthread_wd t), AStr p, AInt LINUX_AT_REMOVEDIR]) st w"

section \<open>Status of a file system\<close>

record linux_statfs64 =
  lfs_type :: u64
  lfs_bsize :: u64
  lfs_blocks :: u64
  lfs_bfree :: u64
  lfs_bavail :: u64
  lfs_files :: u64
  lfs_ffree :: u64
  lfs_fsid :: u64
  lfs_flags :: u64

record bsd_statfs64 =
  f_bsize :: u32
  f_iosize :: int
  f_blocks :: u64
  f_bfree :: u64
  f_bavail :: u64
  f_files :: u64
  f_ffree :: u64
  f_fsid :: u64
  f_type :: u32
  f_flags :: u32
  f_fstypename :: string
  f_mntonname :: string
  f_mntfromname :: string

definition statfs_linux_to_bsd64 :: "linux_statfs64 \<Rightarrow> bsd_statfs64 \<Rightarrow> bsd_statfs64" where
  "statfs_linux_to_bsd64 l b = b\<lparr>f_type := ucast (lfs_type l), f_bsize := ucast (lfs_bsize l), f_blocks := lfs_blocks l,
     f_bfree := lfs_bfree l, f_bavail := lfs_bavail l, f_files := lfs_files l, f_ffree := lfs_ffree l, f_fsid := lfs_fsid l,
     f_flags := ucast (lfs_flags l)\<rparr>"

text \<open>The older structure, and its conversion, which no call uses.\<close>

record bsd_statfs =
  o_bsize :: u64
  o_blocks :: u64
  o_bfree :: u64
  o_bavail :: u64
  o_files :: u64
  o_ffree :: u64
  o_fsid :: u64
  o_type :: u16
  o_flags :: u64

definition statfs_linux_to_bsd :: "linux_statfs64 \<Rightarrow> bsd_statfs \<Rightarrow> bsd_statfs" where
  "statfs_linux_to_bsd l b = b\<lparr>o_type := ucast (lfs_type l), o_bsize := lfs_bsize l, o_blocks := lfs_blocks l,
     o_bfree := lfs_bfree l, o_bavail := lfs_bavail l, o_files := lfs_files l, o_ffree := lfs_ffree l, o_fsid := lfs_fsid l,
     o_flags := lfs_flags l\<rparr>"

text \<open>\<^verbatim>\<open>strtok_r\<close> with the single delimiter space, and \<^verbatim>\<open>strlcpy\<close>.\<close>

definition strtok :: "string \<Rightarrow> (string \<times> string) option" where
  "strtok s = (let s = dropWhile (\<lambda>c. c = CHR '' '') s in
     if s = [] then None
     else Some (takeWhile (\<lambda>c. c \<noteq> CHR '' '') s, drop 1 (dropWhile (\<lambda>c. c \<noteq> CHR '' '') s)))"

definition strlcpy :: "string \<Rightarrow> nat \<Rightarrow> string" where
  "strlcpy src n = take (n - 1) src"

text \<open>One line of the table: device, mount point, type. The state is \<^verbatim>\<open>max_len\<close> and the structure.\<close>

definition mount_line :: "string \<Rightarrow> string \<Rightarrow> nat \<times> bsd_statfs64 \<Rightarrow> nat \<times> bsd_statfs64" where
  "mount_line path line s = (case strtok line of
     None \<Rightarrow> s
   | Some (mntfrom, r) \<Rightarrow> (case strtok r of
       None \<Rightarrow> s
     | Some (p, r) \<Rightarrow>
         if \<not> strncmp_eq p path (length p) \<or> length p < fst s then s
         else let b = (snd s)\<lparr>f_mntonname := strlcpy p 1024\<rparr> in
           (length p, case strtok r of
              None \<Rightarrow> b
            | Some (ty, _) \<Rightarrow> b\<lparr>f_fstypename := strlcpy ty 16, f_mntfromname := strlcpy mntfrom 1024\<rparr>)))"

text \<open>Reading from a descriptor, and the loop over the lines; it ends when a read reports the end.\<close>

definition read_fd :: "'w kernel \<Rightarrow> int \<Rightarrow> nat \<Rightarrow> 'w \<Rightarrow> (int \<times> string) \<times> 'w" where
  "read_fd K fd n w = (let ((ret, buf), w) = sysc_buf K ''read'' [AInt fd, AInt (int n)] w in
     ((ret, map (\<lambda>b. char_of (unat b)) buf), w))"

partial_function (option) mount_loop ::
    "(nat \<Rightarrow> 'w \<Rightarrow> (int \<times> string) \<times> 'w) \<Rightarrow> string \<Rightarrow> simple_readline_buf \<Rightarrow> nat \<times> bsd_statfs64 \<Rightarrow> 'w \<Rightarrow>
     ((nat \<times> bsd_statfs64) \<times> 'w) option" where
  "mount_loop rd path b s w = do {
     (r, b, w) \<leftarrow> simple_readline rd b 512 w;
     (case r of
        None \<Rightarrow> Some (s, w)
      | Some line \<Rightarrow> mount_loop rd path b (mount_line path line s) w) }"

definition fresh_readline :: simple_readline_buf where
  "fresh_readline = simple_readline_init \<lparr>sb_buf = replicate 512 NUL, sb_used = 0\<rparr>"

definition clear_names :: "bsd_statfs64 \<Rightarrow> bsd_statfs64" where
  "clear_names b = b\<lparr>f_mntonname := [], f_fstypename := [], f_mntfromname := []\<rparr>"

abbreviation (input) MOUNTS :: string where "MOUNTS \<equiv> ''/proc/self/mounts''"

definition sys_statfs64 ::
    "'w vfs \<Rightarrow> 'w filecalls \<Rightarrow> 'w kernel \<Rightarrow> (string \<Rightarrow> 'w \<Rightarrow> (int \<times> linux_statfs64) \<times> 'w) \<Rightarrow> tsd \<Rightarrow> string \<Rightarrow>
     bsd_statfs64 \<Rightarrow> string option \<Rightarrow> 'w \<Rightarrow> ((int \<times> bsd_statfs64) \<times> string option \<times> 'w) option" where
  "sys_statfs64 V F K statfs t path buf st w = do {
     (r, st, w) \<leftarrow> expand_path V (get_perthread_wd t) path False st w;
     case r of
       Inl e \<Rightarrow> Some ((e, buf), st, w)
     | Inr p \<Rightarrow>
         let ((ret, lbuf), w) = statfs p w in
         if ret < 0 then Some ((errno_linux_to_bsd ret, buf), st, w)
         else do {
           buf \<leftarrow> Some (statfs_linux_to_bsd64 lbuf buf);
           (fd, st, w) \<leftarrow> sys_open_nocancel V F t (Some MOUNTS) 0 0 st w;
           if fd < 0 then Some ((fd, buf), st, w)
           else do {
             ((_, buf), w) \<leftarrow> mount_loop (read_fd K fd) p fresh_readline (0, clear_names buf) w;
             (_, w) \<leftarrow> Some (close_internal K fd w);
             Some ((0, buf), st, w) } } }"

definition sys_fstatfs64 ::
    "'w vfs \<Rightarrow> 'w filecalls \<Rightarrow> 'w kernel \<Rightarrow> (int \<Rightarrow> 'w \<Rightarrow> (int \<times> linux_statfs64) \<times> 'w) \<Rightarrow> tsd \<Rightarrow> int \<Rightarrow>
     bsd_statfs64 \<Rightarrow> string option \<Rightarrow> 'w \<Rightarrow> ((int \<times> bsd_statfs64) \<times> string option \<times> 'w) option" where
  "sys_fstatfs64 V F K fstatfs t fd buf st w =
     (let ((ret, lbuf), w) = fstatfs fd w in
      if ret < 0 then Some ((errno_linux_to_bsd ret, buf), st, w)
      else do {
        buf \<leftarrow> Some (statfs_linux_to_bsd64 lbuf buf);
        (ret, path, st, w) \<leftarrow> vchroot_fdpath V fd 1024 st w;
        if ret < 0 then Some ((ret, buf), st, w)
        else do {
          (fd_m, st, w) \<leftarrow> sys_open_nocancel V F t (Some MOUNTS) 0 0 st w;
          if fd_m < 0 then Some ((fd_m, buf), st, w)
          else do {
            ((_, buf), w) \<leftarrow> mount_loop (read_fd K fd_m) path fresh_readline (0, (clear_names buf)\<lparr>f_iosize := 512\<rparr>) w;
            (_, w) \<leftarrow> Some (close_internal K fd_m w);
            Some ((0, buf), st, w) } } })"

text \<open>
  \<^verbatim>\<open>getfsstat64\<close>: without a buffer the lines are counted, otherwise each line fills the next element
  of the array while there is room (\<open>room\<close> is \<^verbatim>\<open>bufsize / sizeof(struct bsd_statfs64)\<close>).
\<close>

definition fs_entry ::
    "(string \<Rightarrow> 'w \<Rightarrow> (int \<times> linux_statfs64) \<times> 'w) \<Rightarrow> string \<Rightarrow> bsd_statfs64 \<Rightarrow> 'w \<Rightarrow> (bool \<times> bsd_statfs64) \<times> 'w" where
  "fs_entry statfs line b w = (case strtok line of
     None \<Rightarrow> ((False, b), w)
   | Some (p, r) \<Rightarrow> let b = b\<lparr>f_mntfromname := strlcpy p 1024\<rparr> in (case strtok r of
       None \<Rightarrow> ((False, b), w)
     | Some (p, r) \<Rightarrow> let b = b\<lparr>f_mntonname := strlcpy p 1024\<rparr> in (case strtok r of
         None \<Rightarrow> ((False, b), w)
       | Some (p, r) \<Rightarrow>
           let b = b\<lparr>f_fstypename := strlcpy p 16\<rparr>; ((ret, l), w) = statfs (f_mntonname b) w in
           if ret < 0 then ((False, b), w) else ((True, statfs_linux_to_bsd64 l b), w))))"

partial_function (option) fsstat_loop ::
    "(nat \<Rightarrow> 'w \<Rightarrow> (int \<times> string) \<times> 'w) \<Rightarrow> (string \<Rightarrow> 'w \<Rightarrow> (int \<times> linux_statfs64) \<times> 'w) \<Rightarrow> nat option \<Rightarrow>
     simple_readline_buf \<Rightarrow> bsd_statfs64 list \<Rightarrow> nat \<Rightarrow> 'w \<Rightarrow> ((nat \<times> bsd_statfs64 list) \<times> 'w) option" where
  "fsstat_loop rd statfs room b buf count w = do {
     (r, b, w) \<leftarrow> simple_readline rd b 512 w;
     (case r of
        None \<Rightarrow> Some ((count, buf), w)
      | Some line \<Rightarrow> (case room of
          None \<Rightarrow> fsstat_loop rd statfs room b buf (count + 1) w
        | Some n \<Rightarrow>
            if n < count + 1 then Some ((count, buf), w)
            else if length buf \<le> count then None
            else (case fs_entry statfs line (buf ! count) w of ((ok, e), w) \<Rightarrow>
              fsstat_loop rd statfs room b (buf[count := e]) (if ok then count + 1 else count) w))) }"

definition sys_getfsstat64 ::
    "'w vfs \<Rightarrow> 'w filecalls \<Rightarrow> 'w kernel \<Rightarrow> (string \<Rightarrow> 'w \<Rightarrow> (int \<times> linux_statfs64) \<times> 'w) \<Rightarrow> tsd \<Rightarrow> nat option \<Rightarrow>
     bsd_statfs64 list \<Rightarrow> string option \<Rightarrow> 'w \<Rightarrow> ((int \<times> bsd_statfs64 list) \<times> string option \<times> 'w) option" where
  "sys_getfsstat64 V F K statfs t room buf st w = do {
     (fd, st, w) \<leftarrow> sys_open_nocancel V F t (Some MOUNTS) 0 0 st w;
     if fd < 0 then Some ((errno_linux_to_bsd fd, buf), st, w)
     else do {
       ((count, buf), w) \<leftarrow> fsstat_loop (read_fd K fd) statfs room fresh_readline buf 0 w;
       (_, w) \<leftarrow> Some (close_internal K fd w);
       Some ((int count, buf), st, w) } }"

text \<open>The calls without the 64 fill the buffer as those with it do, although it has the older structure.\<close>

definition sys_statfs where "sys_statfs = sys_statfs64"

definition sys_fstatfs where "sys_fstatfs = sys_fstatfs64"

definition sys_getfsstat where "sys_getfsstat = sys_getfsstat64"

section \<open>The contracts\<close>

lemma path_syscall0I:
  "(\<And>V K t path st w. sys V K t path st w = path_call0 V K (dir t) (Some path) fol nr (args t) st w) \<Longrightarrow>
   path_syscall sys dir fol nr args res0"
  by unfold_locales (simp_all add: path_call0_def case_prod_beta)

interpretation mkdirat: path_syscall "\<lambda>V K t path. sys_mkdirat V K t fd (Some path) mode" "\<lambda>t. atfd t fd" False "''mkdirat''"
    "\<lambda>t p. [AInt (atfd t fd), AStr p, AInt mode]" res0 for fd mode
  by (rule path_syscall0I) (simp add: sys_mkdirat_def)

interpretation mkfifo: path_syscall "\<lambda>V K t path. sys_mkfifo V K t (Some path) mode" get_perthread_wd False "''mknod''"
    "\<lambda>t p. [AStr p, AInt (mode OR LINUX_S_IFIFO), AInt 0]" res0 for mode
  by (rule path_syscall0I) (simp add: sys_mkfifo_def)

interpretation rmdir: path_syscall "\<lambda>V K t path. sys_rmdir V K t (Some path)" get_perthread_wd False "''unlinkat''"
    "\<lambda>t p. [AInt (get_perthread_wd t), AStr p, AInt LINUX_AT_REMOVEDIR]" res0
  by (rule path_syscall0I) (simp add: sys_rmdir_def)

section \<open>The table of mounts\<close>

text \<open>A mount is its device, its mount point, its type and its options; a line of the table shows them.\<close>

type_synonym mount = "string \<times> string \<times> string \<times> string"

definition word :: "string \<Rightarrow> bool" where
  "word s \<longleftrightarrow> s \<noteq> [] \<and> CHR '' '' \<notin> set s \<and> CHR 0x0A \<notin> set s"

fun show_mount :: "mount \<Rightarrow> string" where
  "show_mount (from, on, ty, opts) = from @ CHR '' '' # on @ CHR '' '' # ty @ CHR '' '' # opts"

definition wf_mount :: "mount \<Rightarrow> bool" where
  "wf_mount m = (case m of (from, on, ty, opts) \<Rightarrow> word from \<and> word on \<and> word ty \<and> CHR 0x0A \<notin> set opts \<and>
     length (show_mount m) < 511)"

fun mount_table :: "mount list \<Rightarrow> string" where
  "mount_table [] = []"
| "mount_table (m # ms) = show_mount m @ CHR 0x0A # mount_table ms"

lemma strtok_word: "word s \<Longrightarrow> strtok (s @ CHR '' '' # r) = Some (s, r)"
proof -
  assume s: "word s"
  then have "dropWhile (\<lambda>c. c = CHR '' '') (s @ CHR '' '' # r) = s @ CHR '' '' # r" by (cases s) (auto simp: word_def)
  moreover have "\<forall>c \<in> set s. c \<noteq> CHR '' ''" using s by (auto simp: word_def)
  ultimately show ?thesis using s
    by (simp add: strtok_def word_def takeWhile_append2 dropWhile_append2)
qed

lemma strncmp_prefix: "strncmp_eq p path (length p) \<longleftrightarrow> prefix p path"
  by (auto simp: strncmp_eq_def prefix_def) (metis append_take_drop_id)

lemma mount_line_show:
  assumes "wf_mount (from, on, ty, opts)"
  shows "mount_line path (show_mount (from, on, ty, opts)) s =
    (if prefix on path \<and> fst s \<le> length on
     then (length on, (snd s)\<lparr>f_mntonname := strlcpy on 1024, f_fstypename := strlcpy ty 16, f_mntfromname := strlcpy from 1024\<rparr>)
     else s)"
  using assms by (simp add: mount_line_def wf_mount_def strtok_word strncmp_prefix not_less)

text \<open>The mount of a path: no mount point that is a prefix of the path is longer.\<close>

definition mount_of :: "string \<Rightarrow> mount list \<Rightarrow> mount \<Rightarrow> bool" where
  "mount_of path ms m \<longleftrightarrow> m \<in> set ms \<and> prefix (fst (snd m)) path \<and>
     (\<forall>m' \<in> set ms. prefix (fst (snd m')) path \<longrightarrow> length (fst (snd m')) \<le> length (fst (snd m)))"

fun reports :: "bsd_statfs64 \<Rightarrow> mount \<Rightarrow> bool" where
  "reports b (from, on, ty, opts) \<longleftrightarrow>
     f_mntonname b = take 1023 on \<and> f_fstypename b = take 15 ty \<and> f_mntfromname b = take 1023 from"

definition scan :: "string \<Rightarrow> mount list \<Rightarrow> bsd_statfs64 \<Rightarrow> nat \<times> bsd_statfs64" where
  "scan path ms b = fold (\<lambda>m. mount_line path (show_mount m)) ms (0, b)"

lemma scan_snoc:
  assumes "wf_mount (frm, on, ty, opts)"
  shows "scan path (ms @ [(frm, on, ty, opts)]) b = (if prefix on path \<and> fst (scan path ms b) \<le> length on
    then (length on, (snd (scan path ms b))\<lparr>f_mntonname := strlcpy on 1024, f_fstypename := strlcpy ty 16,
      f_mntfromname := strlcpy frm 1024\<rparr>) else scan path ms b)"
  using mount_line_show [OF assms, of path "scan path ms b"] by (simp add: scan_def)

lemma scan_mounts:
  assumes "list_all wf_mount ms"
  shows "if \<exists>m \<in> set ms. prefix (fst (snd m)) path
    then \<exists>m. mount_of path ms m \<and> reports (snd (scan path ms b)) m \<and> fst (scan path ms b) = length (fst (snd m))
    else scan path ms b = (0, b)"
  using assms
proof (induction ms rule: rev_induct)
  case (snoc m ms)
  obtain frm on ty opts where m: "m = (frm, on, ty, opts)" by (metis surj_pair)
  have step: "scan path (ms @ [m]) b = (if prefix on path \<and> fst (scan path ms b) \<le> length on
    then (length on, (snd (scan path ms b))\<lparr>f_mntonname := strlcpy on 1024, f_fstypename := strlcpy ty 16,
      f_mntfromname := strlcpy frm 1024\<rparr>) else scan path ms b)"
    unfolding m using snoc.prems by (intro scan_snoc) (simp add: m)
  have IH: "if \<exists>m \<in> set ms. prefix (fst (snd m)) path
    then \<exists>m. mount_of path ms m \<and> reports (snd (scan path ms b)) m \<and> fst (scan path ms b) = length (fst (snd m))
    else scan path ms b = (0, b)" using snoc by simp
  then have le: "length (fst (snd m')) \<le> fst (scan path ms b)" if "m' \<in> set ms" "prefix (fst (snd m')) path" for m'
    using that by (auto simp: mount_of_def split: if_splits)
  show ?case
  proof (cases "prefix on path \<and> fst (scan path ms b) \<le> length on")
    case True
    then have "mount_of path (ms @ [m]) m" using le by (fastforce simp: mount_of_def m)
    moreover have "reports (snd (scan path (ms @ [m]) b)) m \<and> fst (scan path (ms @ [m]) b) = length on"
      unfolding step using True by (simp add: m strlcpy_def)
    ultimately show ?thesis using True by (auto simp: m)
  next
    case False
    show ?thesis
    proof (cases "\<exists>m \<in> set ms. prefix (fst (snd m)) path")
      case True
      then obtain n where n: "mount_of path ms n" "reports (snd (scan path ms b)) n" "fst (scan path ms b) = length (fst (snd n))"
        using IH by auto
      then have "mount_of path (ms @ [m]) n" using False by (auto simp: mount_of_def m)
      moreover have "scan path (ms @ [m]) b = scan path ms b" using False by (simp only: step if_False)
      moreover have "\<exists>m' \<in> set (ms @ [m]). prefix (fst (snd m')) path" using True by auto
      ultimately show ?thesis using n by (simp only: if_True) blast
    next
      case none: False
      then have "\<not> prefix on path" using IH False by auto
      then show ?thesis using none IH False unfolding step by (auto simp: m)
    qed
  qed
qed (simp add: scan_def)

lemma line_of_mount:
  assumes "wf_mount m"
  shows "line_of (show_mount m @ CHR 0x0A # r) = show_mount m" "rest_of (show_mount m @ CHR 0x0A # r) = r"
    "show_mount m \<noteq> []" "length (show_mount m) < 511"
proof -
  have "CHR 0x0A \<notin> set (show_mount m)" using assms by (cases m) (auto simp: wf_mount_def word_def)
  then have "\<forall>c \<in> set (show_mount m). c \<noteq> CHR 0x0A" by auto
  then show "line_of (show_mount m @ CHR 0x0A # r) = show_mount m" "rest_of (show_mount m @ CHR 0x0A # r) = r"
    by (auto simp: line_of_def rest_of_def takeWhile_append2 dropWhile_append2)
  show "show_mount m \<noteq> []" "length (show_mount m) < 511" using assms by (cases m; simp add: wf_mount_def)+
qed

lemma mount_loop_table:
  assumes "delivers rd stream" "list_all wf_mount ms" "simple_readline_wf b"
    "simple_readline_pending b @ stream w = mount_table ms"
  shows "\<exists>w'. mount_loop rd path b s w = Some (fold (\<lambda>m. mount_line path (show_mount m)) ms s, w')"
  using assms(2-)
proof (induction ms arbitrary: b s w)
  case Nil
  then obtain b' w' where "find_nl rd b w = Some (None, b', w')"
    using find_nl_line [OF assms(1) Nil(2), of "[]" w] by (auto simp: line_of_def)
  then show ?case by (subst mount_loop.simps) (simp add: simple_readline_def)
next
  case (Cons m ms)
  have wf: "wf_mount m" using Cons.prems(1) by simp
  note l = line_of_mount [OF wf]
  obtain b' w' where "simple_readline rd b 512 w = Some (Some (show_mount m), b', w')" "simple_readline_wf b'"
      "simple_readline_pending b' @ stream w' = mount_table ms"
    using simple_readline_line [OF assms(1) Cons.prems(2), of "mount_table (m # ms)" w 512] Cons.prems(3) l by auto
  then show ?case using Cons.IH [of b' w' "mount_line path (show_mount m) s"] Cons.prems(1)
    by (subst mount_loop.simps) simp
qed

section \<open>Properties\<close>

text \<open>
  C27: the mount of a path. When the table of mounts is readable, \<^verbatim>\<open>statfs\<close> returns and reports the
  device, the mount point and the type of one mount of the table: one whose mount point is a prefix
  of the expanded path, with no longer one in the table; whatever the chunks in which the table is read.
\<close>

theorem statfs_longest_mount:
  assumes "expand_path V (get_perthread_wd t) path False st w = Some (Inr p, st1, w1)"
    "statfs p w1 = ((ret, l), w2)" "0 \<le> ret"
    "sys_open_nocancel V F t (Some MOUNTS) 0 0 st1 w2 = Some (fd, st2, w3)" "0 \<le> fd"
    "delivers (read_fd K fd) stream" "stream w3 = mount_table ms" "list_all wf_mount ms"
    "\<exists>m \<in> set ms. prefix (fst (snd m)) p"
  shows "\<exists>b m w'. sys_statfs64 V F K statfs t path buf st w = Some ((0, b), st2, w') \<and> mount_of p ms m \<and> reports b m \<and>
    f_blocks b = lfs_blocks l \<and> f_fsid b = lfs_fsid l"
proof -
  let ?b = "clear_names (statfs_linux_to_bsd64 l buf)"
  have b: "simple_readline_wf fresh_readline" "simple_readline_pending fresh_readline = []"
    by (simp_all add: fresh_readline_def simple_readline_wf_def simple_readline_pending_def simple_readline_init_def)
  obtain w4 where w4: "mount_loop (read_fd K fd) p fresh_readline (0, ?b) w3 = Some (scan p ms ?b, w4)"
    using mount_loop_table [OF assms(6,8) b(1), of w3 p "(0, ?b)"] assms(7) b(2) by (auto simp: scan_def)
  obtain m where m: "mount_of p ms m" "reports (snd (scan p ms ?b)) m"
    using scan_mounts [OF assms(8), of p ?b] assms(9) by auto
  obtain n b' where nb: "scan p ms ?b = (n, b')" by fastforce
  have "f_blocks (snd (scan p ms ?b)) = f_blocks ?b \<and> f_fsid (snd (scan p ms ?b)) = f_fsid ?b"
    using assms(8)
  proof (induction ms rule: rev_induct)
    case (snoc m ms)
    then show ?case by (cases m) (simp add: scan_snoc)
  qed (simp add: scan_def)
  moreover obtain c w5 where "close_internal K fd w4 = (c, w5)" by fastforce
  ultimately show ?thesis using assms(1-5) w4 m nb
    by (intro exI [of _ b'] exI [of _ m] exI [of _ w5])
      (simp add: sys_statfs64_def clear_names_def statfs_linux_to_bsd64_def)
qed

text \<open>A kernel whose world is the rest of the table, read three bytes at a time.\<close>

definition table_kernel :: "string kernel" where
  "table_kernel = quiet_kernel\<lparr>sysc_buf := \<lambda>nr args w. (case args of
     [AInt fd, AInt n] \<Rightarrow> let k = min (nat n) 3 in ((int (length (take k w)), map of_char (take k w)), drop k w)
   | _ \<Rightarrow> ((0, []), w))\<rparr>"

lemma table_kernel_delivers: "delivers (read_fd table_kernel fd) id"
  by (auto simp: delivers_def read_fd_def table_kernel_def Let_def min_def comp_def split: if_splits)

definition two_mounts :: "mount list" where
  "two_mounts = [(''a'', ''/'', ''x'', []), (''b'', ''/pfx'', ''y'', [])]"

definition empty_statfs :: bsd_statfs64 where
  "empty_statfs = \<lparr>f_bsize = 0, f_iosize = 0, f_blocks = 0, f_bfree = 0, f_bavail = 0, f_files = 0, f_ffree = 0, f_fsid = 0,
     f_type = 0, f_flags = 0, f_fstypename = [], f_mntonname = [], f_mntfromname = []\<rparr>"

definition some_statfs :: linux_statfs64 where
  "some_statfs = \<lparr>lfs_type = 1, lfs_bsize = 4096, lfs_blocks = 9, lfs_bfree = 5, lfs_bavail = 5, lfs_files = 2, lfs_ffree = 1,
     lfs_fsid = 3, lfs_flags = 0\<rparr>"

definition open_only :: "string filecalls" where
  "open_only = \<lparr>fc_openat = (\<lambda>d p f m w. (3, w)), fc_fcntl = (\<lambda>d c a w. ((0, a), w)), fc_fsync = (\<lambda>d w. (0, w))\<rparr>"

lemma expand_u: "expand_path plain_fs (- 100) ''/u'' False (Some ''/pfx'') (mount_table two_mounts) =
    Some (Inr ''/pfx/u'', Some ''/pfx'', mount_table two_mounts)"
  by code_simp

lemma open_mounts: "sys_open_nocancel plain_fs open_only \<lparr>tsd_100 = False, tsd_101 = 0\<rparr> (Some MOUNTS) 0 0 (Some ''/pfx'')
    (mount_table two_mounts) = Some (3, Some ''/pfx'', mount_table two_mounts)"
  by code_simp

theorem statfs_longest_mount_witness:
  "\<exists>b w'. sys_statfs64 plain_fs open_only table_kernel (\<lambda>p w. ((0, some_statfs), w)) \<lparr>tsd_100 = False, tsd_101 = 0\<rparr> ''/u''
      empty_statfs (Some ''/pfx'') (mount_table two_mounts) = Some ((0, b), Some ''/pfx'', w') \<and> f_mntonname b = ''/pfx''"
proof -
  let ?t = "\<lparr>tsd_100 = False, tsd_101 = 0\<rparr>"
  have wd: "get_perthread_wd ?t = - 100" by (simp add: get_perthread_wd_def)
  have wf: "list_all wf_mount two_mounts" "\<exists>m \<in> set two_mounts. prefix (fst (snd m)) ''/pfx/u''"
    by (simp_all add: two_mounts_def wf_mount_def word_def)
  have e: "expand_path plain_fs (get_perthread_wd ?t) ''/u'' False (Some ''/pfx'') (mount_table two_mounts) =
      Some (Inr ''/pfx/u'', Some ''/pfx'', mount_table two_mounts)" using expand_u wd by simp
  obtain b m w' where r: "sys_statfs64 plain_fs open_only table_kernel (\<lambda>p w. ((0, some_statfs), w)) ?t ''/u''
      empty_statfs (Some ''/pfx'') (mount_table two_mounts) = Some ((0, b), Some ''/pfx'', w')"
      "mount_of ''/pfx/u'' two_mounts m" "reports b m"
    using statfs_longest_mount [where t = ?t and path = "''/u''" and statfs = "\<lambda>p w. ((0, some_statfs), w)"
        and buf = empty_statfs and stream = id, OF e refl _ open_mounts _ table_kernel_delivers _ wf]
    by auto
  then have "f_mntonname b = ''/pfx''" by (auto simp: mount_of_def two_mounts_def)
  then show ?thesis using r(1) by blast
qed

end
