(* ===== verification/Xattr.thy ===== *)
theory Xattr
  imports Unistd
begin

text \<open>
  Extended attributes and attribute lists: \<^verbatim>\<open>xattr/\<close>. The generic sources \<^verbatim>\<open>getattrlist_generic.c\<close>
  and \<^verbatim>\<open>setattrlist_generic.c\<close> are compiled twice, for a path and for a descriptor; here the object is
  a value of type \<open>attr_object\<close>. Attribute buffers are bytes.
\<close>

section \<open>Extended attributes\<close>

definition sys_fgetxattr :: "'w kernel \<Rightarrow> int \<Rightarrow> string \<Rightarrow> int \<Rightarrow> u32 \<Rightarrow> 'w \<Rightarrow> (int \<times> u8 list) \<times> 'w" where
  "sys_fgetxattr K fd name sz pos w =
     (if pos \<noteq> 0 then ((- 34, []), w)
      else let ((ret, buf), w) = sysc_buf K ''fgetxattr'' [AInt fd, AStr name, AInt sz] w in ((ret_bsd ret, buf), w))"

definition sys_fsetxattr :: "'w kernel \<Rightarrow> int \<Rightarrow> string \<Rightarrow> u8 list \<Rightarrow> int \<Rightarrow> u32 \<Rightarrow> 'w \<Rightarrow> int \<times> 'w" where
  "sys_fsetxattr K fd name val sz pos w =
     (if pos \<noteq> 0 then (- 34, w) else linux_call K ''fsetxattr'' [AInt fd, AStr name, ABuf val, AInt sz] w)"

definition sys_fremovexattr :: "'w kernel \<Rightarrow> int \<Rightarrow> string \<Rightarrow> 'w \<Rightarrow> int \<times> 'w" where
  "sys_fremovexattr K fd name w = linux_call K ''fremovexattr'' [AInt fd, AStr name] w"

text \<open>The attributes of a descriptor that was opened on a link are listed by its path.\<close>

definition sys_flistxattr :: "'w kernel \<Rightarrow> int \<Rightarrow> int \<Rightarrow> 'w \<Rightarrow> (int \<times> u8 list) \<times> 'w" where
  "sys_flistxattr K fd sz w =
     (let ((ret, s), w) = sysc_stat K ''fstat'' [AInt fd] w in
      if ret < 0 then ((errno_linux_to_bsd ret, []), w)
      else if is_symlink (st_mode s) then
        let ((ret, bytes), w) = sysc_buf K ''readlink'' [AStr (fd_link fd), AInt 4095] w in
        if ret < 0 then ((errno_linux_to_bsd ret, []), w)
        else let ((ret, buf), w) = sysc_buf K ''llistxattr'' [AStr (cstr (take (nat ret) (map (\<lambda>b. char_of (unat b)) bytes))), AInt sz] w in
          ((ret_bsd ret, buf), w)
      else let ((ret, buf), w) = sysc_buf K ''flistxattr'' [AInt fd, AInt sz] w in ((ret_bsd ret, buf), w))"

text \<open>A successful \<^verbatim>\<open>getxattr\<close> returns 0 and not the size of the value.\<close>

definition sys_getxattr where
  "sys_getxattr V K t path name sz pos options st w =
     (if (pos :: u32) \<noteq> 0 then Some ((- 34, []), st, w)
      else do {
        (r, st, w) \<leftarrow> expand_path V (get_perthread_wd t) path ((options :: u32) AND 1 = 0) st w;
        case r of
          Inl e \<Rightarrow> Some ((e, []), st, w)
        | Inr p \<Rightarrow>
            let ((ret, buf), w) = sysc_buf K ''getxattr'' [AStr p, AStr name, AInt sz] w in
            Some (if ret < 0 then (errno_linux_to_bsd ret, []) else (0, buf), st, w) })"

text \<open>\<^verbatim>\<open>listxattr\<close> expands the path and then lists the attributes of the path it was given.\<close>

definition sys_listxattr where
  "sys_listxattr V K t path sz options st w = do {
     (r, st, w) \<leftarrow> expand_path V (get_perthread_wd t) path ((options :: u32) AND 1 = 0) st w;
     case r of
       Inl e \<Rightarrow> Some ((e, []), st, w)
     | Inr _ \<Rightarrow>
         let ((ret, buf), w) = sysc_buf K (if options AND 1 \<noteq> 0 then ''llistxattr'' else ''listxattr'') [AStr path, AInt sz] w
         in Some ((ret_bsd ret, buf), st, w) }"

text \<open>The two calls that change attributes do not expand the path.\<close>

definition sys_setxattr :: "'w kernel \<Rightarrow> string \<Rightarrow> string \<Rightarrow> u8 list \<Rightarrow> int \<Rightarrow> u32 \<Rightarrow> u32 \<Rightarrow> 'w \<Rightarrow> int \<times> 'w" where
  "sys_setxattr K path name val sz pos options w =
     (if pos \<noteq> 0 then (- 34, w)
      else linux_call K (if options AND 1 \<noteq> 0 then ''lsetxattr'' else ''setxattr'') [AStr path, AStr name, ABuf val, AInt sz] w)"

definition sys_removexattr :: "'w kernel \<Rightarrow> string \<Rightarrow> string \<Rightarrow> u32 \<Rightarrow> 'w \<Rightarrow> int \<times> 'w" where
  "sys_removexattr K path name options w =
     linux_call K (if options AND 1 \<noteq> 0 then ''lremovexattr'' else ''removexattr'') [AStr path, AStr name] w"

section \<open>Attribute lists\<close>

record attrlist =
  bitmapcount :: u16
  reserved :: u16
  commonattr :: u32
  volattr :: u32
  dirattr :: u32
  fileattr :: u32
  forkattr :: u32

datatype attr_object = OnPath int string | OnFd int

abbreviation (input) ATTR_CMN_FNDRINFO :: u32 where "ATTR_CMN_FNDRINFO \<equiv> 0x4000"
abbreviation (input) ATTR_FILE_RSRCLENGTH :: u32 where "ATTR_FILE_RSRCLENGTH \<equiv> 0x1000"
abbreviation (input) ATTR_CMN_OBJTAG :: u32 where "ATTR_CMN_OBJTAG \<equiv> 0x10"
abbreviation (input) ATTR_DIR_ENTRYCOUNT :: u32 where "ATTR_DIR_ENTRYCOUNT \<equiv> 2"
abbreviation (input) XATTR_FINDER_INFO :: string where "XATTR_FINDER_INFO \<equiv> ''com.apple.FinderInfo''"
abbreviation (input) FSOPT_NOFOLLOW :: u64 where "FSOPT_NOFOLLOW \<equiv> 1"
abbreviation (input) FSOPT_REPORT_FULLSIZE :: u64 where "FSOPT_REPORT_FULLSIZE \<equiv> 4"
abbreviation (input) VT_HFS :: nat where "VT_HFS \<equiv> 16"


text \<open>The tests of the list, with the masks of the attributes that are supported.\<close>

definition attrlist_ok :: "u32 \<Rightarrow> u32 \<Rightarrow> u32 \<Rightarrow> attrlist \<Rightarrow> bool" where
  "attrlist_ok common dir file a \<longleftrightarrow> 5 \<le> bitmapcount a \<and> commonattr a AND common = commonattr a \<and>
     volattr a = 0 \<and> dirattr a AND dir = dirattr a \<and> fileattr a AND file = fileattr a \<and> forkattr a = 0"

definition get_supported :: "attrlist \<Rightarrow> bool" where
  "get_supported = attrlist_ok (ATTR_CMN_FNDRINFO OR ATTR_CMN_OBJTAG) ATTR_DIR_ENTRYCOUNT ATTR_FILE_RSRCLENGTH"

definition spaceNeeded :: "attrlist \<Rightarrow> nat" where
  "spaceNeeded a = 4 + (if commonattr a AND ATTR_CMN_FNDRINFO \<noteq> 0 then 32 else 0) +
     (if fileattr a AND ATTR_FILE_RSRCLENGTH \<noteq> 0 then 8 else 0) +
     (if commonattr a AND ATTR_CMN_OBJTAG \<noteq> 0 then 4 else 0) + (if dirattr a AND ATTR_DIR_ENTRYCOUNT \<noteq> 0 then 4 else 0)"

definition object_xattr :: "'w kernel \<Rightarrow> attr_object \<Rightarrow> int \<Rightarrow> 'w \<Rightarrow> (int \<times> u8 list) \<times> 'w" where
  "object_xattr K obj sz w = (case obj of
     OnPath dfd p \<Rightarrow> sysc_buf K ''getxattr'' [AStr p, AStr XATTR_FINDER_INFO, AInt sz] w
   | OnFd fd \<Rightarrow> sysc_buf K ''fgetxattr'' [AInt fd, AStr XATTR_FINDER_INFO, AInt sz] w)"

text \<open>Counting the entries of a directory; a record of length 0 or a directory without end is \<open>None\<close>.\<close>

partial_function (option) count_dents :: "u8 list \<Rightarrow> nat \<Rightarrow> nat \<Rightarrow> u32 \<Rightarrow> u32 option" where
  "count_dents L rv pos n =
     (if pos < rv then do { r \<leftarrow> load 2 (pos + 16) L; count_dents L rv (pos + r) (n + 1) } else Some n)"

partial_function (option) dir_count :: "'w kernel \<Rightarrow> int \<Rightarrow> u32 \<Rightarrow> 'w \<Rightarrow> (u32 \<times> 'w) option" where
  "dir_count K fd n w = (case sysc_buf K ''getdents64'' [AInt fd, AInt 1024] w of ((rv, buf), w) \<Rightarrow>
     if rv \<le> 0 then Some (n, w) else do { n \<leftarrow> count_dents buf (nat rv) 0 n; dir_count K fd n w })"

definition object_entries :: "'w kernel \<Rightarrow> attr_object \<Rightarrow> 'w \<Rightarrow> (u32 \<times> 'w) option" where
  "object_entries K obj w =
     (let (tmp_fd, w) = (case obj of
          OnPath dfd p \<Rightarrow> sysc K ''openat'' [AInt dfd, AStr p, AInt 0x10000, AInt 0] w
        | OnFd fd \<Rightarrow> sys_dup K fd w) in
      if tmp_fd < 0 then Some (0, w)
      else do { (n, w) \<leftarrow> dir_count K tmp_fd 0 w; Some (n, snd (close_internal K tmp_fd w)) })"

text \<open>
  The part after the expansion of the path. \<open>junk\<close> is the content of the block on the stack that
  holds the attributes before they are copied to \<open>buf\<close>, the buffer of the process.
\<close>

definition put_attr :: "u8 list \<Rightarrow> u8 list \<times> nat \<Rightarrow> u8 list \<times> nat" where
  "put_attr bs = (\<lambda>(m, next). (take next m @ bs @ drop (next + length bs) m, next + length bs))"

definition getattrlist_generic ::
    "'w kernel \<Rightarrow> attr_object \<Rightarrow> attrlist \<Rightarrow> u8 list \<Rightarrow> nat \<Rightarrow> u64 \<Rightarrow> u8 list \<Rightarrow> 'w \<Rightarrow> ((int \<times> u8 list) \<times> 'w) option" where
  "getattrlist_generic K obj a buf bufferSize options junk w =
     (if \<not> get_supported a then Some ((- 22, buf), w)
      else do {
        (s, w) \<leftarrow> Some
          (if commonattr a AND ATTR_CMN_FNDRINFO \<noteq> 0
           then let ((rv, bs), w) = object_xattr K obj 32 w in
             (if rv < 0 then put_attr (replicate 32 0) (junk, 4)
              else (fst (put_attr (take 32 bs) (junk, 4)), 36), w)
           else ((junk, 4), w));
        (s, w) \<leftarrow> Some
          (if fileattr a AND ATTR_FILE_RSRCLENGTH \<noteq> 0
           then let ((rv, bs), w) = object_xattr K obj 0 w in (put_attr (le_enc 4 (if rv < 0 then 0 else nat rv)) s, w)
           else (s, w));
        s \<leftarrow> Some (if commonattr a AND ATTR_CMN_OBJTAG \<noteq> 0 then put_attr (le_enc 4 VT_HFS) s else s);
        (s, w) \<leftarrow>
          (if dirattr a AND ATTR_DIR_ENTRYCOUNT \<noteq> 0
           then do { (n, w) \<leftarrow> object_entries K obj w; Some (put_attr (le_enc 4 (unat n)) s, w) }
           else Some (s, w));
        bufferSize \<leftarrow> Some (if options AND FSOPT_REPORT_FULLSIZE = 0 \<and> bufferSize < spaceNeeded a then spaceNeeded a else bufferSize);
        our \<leftarrow> Some (fst (put_attr (le_enc 4 bufferSize) (fst s, 0)));
        buf \<leftarrow> store 0 (take (min bufferSize (spaceNeeded a)) our) buf;
        Some ((0, buf), w) })"

definition sys_fgetattrlist where
  "sys_fgetattrlist K fd alist buf bufferSize options junk w = (case alist of
     None \<Rightarrow> Some ((- 14, buf), w)
   | Some a \<Rightarrow> getattrlist_generic K (OnFd fd) a buf bufferSize options junk w)"

text \<open>With a path, the error of the expansion is returned as it is.\<close>

definition sys_getattrlistat where
  "sys_getattrlistat V K t fd path alist buf bufferSize options junk st w = (case (alist, path) of
     (Some a, Some path) \<Rightarrow>
       if PATH_SIZE \<le> length path then None
       else do {
         (rv, p, st, w) \<leftarrow> vchroot_expand V \<lparr>ea_path = path, ea_dfd = atfd t fd,
            ea_follow = (options AND FSOPT_NOFOLLOW = 0)\<rparr> st w;
         if rv < 0 then Some ((rv, buf), st, w)
         else do {
           (r, w) \<leftarrow> getattrlist_generic K (OnPath (atfd t fd) p) a buf bufferSize options junk w;
           Some (r, st, w) } }
   | _ \<Rightarrow> Some ((- 14, buf), st, w))"

definition sys_getattrlist where
  "sys_getattrlist V K t path alist buf bufferSize options junk st w =
     sys_getattrlistat V K t (get_perthread_wd t) path alist buf bufferSize options junk st w"

section \<open>Setting attributes\<close>

abbreviation (input) ATTR_CMN_CRTIME :: u32 where "ATTR_CMN_CRTIME \<equiv> 0x200"
abbreviation (input) ATTR_CMN_MODTIME :: u32 where "ATTR_CMN_MODTIME \<equiv> 0x400"
abbreviation (input) ATTR_CMN_CHGTIME :: u32 where "ATTR_CMN_CHGTIME \<equiv> 0x800"
abbreviation (input) ATTR_CMN_ACCTIME :: u32 where "ATTR_CMN_ACCTIME \<equiv> 0x1000"
abbreviation (input) ATTR_CMN_ACCESSMASK :: u32 where "ATTR_CMN_ACCESSMASK \<equiv> 0x20000"
abbreviation (input) LINUX_UTIME_OMIT :: u64 where "LINUX_UTIME_OMIT \<equiv> 2 ^ 30 - 2"

definition set_supported :: "attrlist \<Rightarrow> bool" where
  "set_supported = attrlist_ok (ATTR_CMN_MODTIME OR ATTR_CMN_ACCTIME OR ATTR_CMN_ACCESSMASK) 0 0"

definition utimensat :: "'w kernel \<Rightarrow> attr_object \<Rightarrow> u64 list \<Rightarrow> u32 \<Rightarrow> 'w \<Rightarrow> int \<times> 'w" where
  "utimensat K obj tms flag w = (case obj of
     OnPath dfd p \<Rightarrow> sysc K ''utimensat'' ([AInt (- 100), AStr p] @ map AWord tms @ [AInt (uint flag)]) w
   | OnFd fd \<Rightarrow> sysc K ''utimensat'' ([AInt fd, AWord 0] @ map AWord tms @ [AInt (uint flag)]) w)"

text \<open>One attribute: nothing to do, or an action on the bytes at \<open>next\<close> that moves on or ends the call.\<close>

definition set_attr ::
    "attrlist \<Rightarrow> u32 \<Rightarrow> nat \<Rightarrow> (nat \<Rightarrow> 'w \<Rightarrow> (int \<times> 'w) option) \<Rightarrow> (int + nat) \<times> 'w \<Rightarrow> ((int + nat) \<times> 'w) option" where
  "set_attr a msk n act = (\<lambda>(s, w). case s of
     Inl e \<Rightarrow> Some (Inl e, w)
   | Inr next \<Rightarrow>
       if commonattr a AND msk = 0 then Some (Inr next, w)
       else do {
         (rv, w) \<leftarrow> act next w;
         Some (if rv < 0 then Inl (errno_linux_to_bsd rv) else Inr (next + n), w) })"

definition setattrlist_generic ::
    "'w kernel \<Rightarrow> attr_object \<Rightarrow> attrlist \<Rightarrow> u8 list \<Rightarrow> u64 \<Rightarrow> 'w \<Rightarrow> (int \<times> 'w) option" where
  "setattrlist_generic K obj a buf options w =
     (let flag = (if options AND FSOPT_NOFOLLOW \<noteq> 0 then LINUX_AT_SYMLINK_NOFOLLOW else 0) in
      if \<not> set_supported a then Some (- 22, w)
      else do {
        s \<leftarrow> set_attr a ATTR_CMN_CRTIME 16 (\<lambda>next w. Some (0, w)) (Inr 0, w);
        s \<leftarrow> set_attr a ATTR_CMN_MODTIME 16 (\<lambda>next w. do {
               sec \<leftarrow> load 8 next buf; nsec \<leftarrow> load 8 (next + 8) buf;
               Some (utimensat K obj [LINUX_UTIME_OMIT, LINUX_UTIME_OMIT, of_nat sec, of_nat nsec] flag w) }) s;
        s \<leftarrow> set_attr a ATTR_CMN_CHGTIME 16 (\<lambda>next w. Some (0, w)) s;
        s \<leftarrow> set_attr a ATTR_CMN_ACCTIME 16 (\<lambda>next w. do {
               sec \<leftarrow> load 8 next buf; nsec \<leftarrow> load 8 (next + 8) buf;
               Some (utimensat K obj [of_nat sec, of_nat nsec, LINUX_UTIME_OMIT, LINUX_UTIME_OMIT] flag w) }) s;
        (r, w) \<leftarrow> set_attr a ATTR_CMN_ACCESSMASK 4 (\<lambda>next w. do {
               perms \<leftarrow> load 4 next buf;
               Some (case obj of
                   OnPath dfd p \<Rightarrow> do_linux_fchmodat K (- 100) p (int_val perms) flag w
                 | OnFd fd \<Rightarrow> sysc K ''fchmod'' [AInt fd, AInt (int_val perms)] w) }) s;
        Some (case r of Inl e \<Rightarrow> e | Inr _ \<Rightarrow> 0, w) })"

definition sys_fsetattrlist where
  "sys_fsetattrlist K fd alist buf options w = (case alist of
     None \<Rightarrow> Some (- 14, w)
   | Some a \<Rightarrow> setattrlist_generic K (OnFd fd) a buf options w)"

definition sys_setattrlistat where
  "sys_setattrlistat V K t fd path alist buf options st w = (case (alist, path) of
     (Some a, Some path) \<Rightarrow>
       if PATH_SIZE \<le> length path then None
       else do {
         (rv, p, st, w) \<leftarrow> vchroot_expand V \<lparr>ea_path = path, ea_dfd = atfd t fd,
            ea_follow = (options AND FSOPT_NOFOLLOW = 0)\<rparr> st w;
         if rv < 0 then Some (rv, st, w)
         else do {
           (r, w) \<leftarrow> setattrlist_generic K (OnPath (atfd t fd) p) a buf options w;
           Some (r, st, w) } }
   | _ \<Rightarrow> Some (- 14, st, w))"

definition sys_setattrlist where
  "sys_setattrlist V K t path alist buf options st w =
     sys_setattrlistat V K t (get_perthread_wd t) path alist buf options st w"

definition sys_getattrlistbulk :: int where
  "sys_getattrlistbulk = - 45"

section \<open>Properties\<close>

lemma fst_put_attr: "snd s + length bs \<le> length (fst s) \<Longrightarrow> length (fst (put_attr bs s)) = length (fst s)"
  by (simp add: put_attr_def case_prod_beta)

lemma snd_put_attr: "snd (put_attr bs s) = snd s + length bs"
  by (simp add: put_attr_def case_prod_beta)

lemma store_None: "store 0 bs m = None \<longleftrightarrow> length m < length bs"
  by (auto simp: store_def)

text \<open>The block on the stack keeps its size, and the copy to the caller is all of it.\<close>

lemma getattrlist_generic_None:
  assumes "get_supported a" "dirattr a = 0" "options AND FSOPT_REPORT_FULLSIZE = 0" "length junk = spaceNeeded a"
  shows "getattrlist_generic K obj a buf n options junk w = None \<longleftrightarrow> length buf < spaceNeeded a"
  using assms
  by (cases "commonattr a AND ATTR_CMN_FNDRINFO = 0"; cases "fileattr a AND ATTR_FILE_RSRCLENGTH = 0";
      cases "commonattr a AND ATTR_CMN_OBJTAG = 0")
    (simp_all add: getattrlist_generic_def spaceNeeded_def fst_put_attr snd_put_attr store_None Let_def case_prod_beta
      bind_eq_None_conv)

text \<open>
  C40: \<^verbatim>\<open>fgetattrlist\<close> copies the attributes without regard to the size of the buffer. For a supported
  list of attributes other than the count of entries, and without \<^verbatim>\<open>FSOPT_REPORT_FULLSIZE\<close>, the call stays
  inside the buffer of the process exactly if that buffer has room for all the attributes, whatever size
  the process passes.
\<close>

theorem fgetattrlist_overrun:
  assumes "get_supported a" "dirattr a = 0" "options AND FSOPT_REPORT_FULLSIZE = 0" "length junk = spaceNeeded a"
  shows "sys_fgetattrlist K fd (Some a) buf bufferSize options junk w = None \<longleftrightarrow> length buf < spaceNeeded a"
  using getattrlist_generic_None [OF assms] by (simp add: sys_fgetattrlist_def)

definition objtag_list :: attrlist where
  "objtag_list = \<lparr>bitmapcount = 5, reserved = 0, commonattr = 0x10, volattr = 0, dirattr = 0, fileattr = 0, forkattr = 0\<rparr>"

theorem fgetattrlist_overrun_witness:
  "sys_fgetattrlist (quiet_kernel :: unit kernel) 3 (Some objtag_list) (replicate 4 0) 4 0 (replicate 8 0) () = None"
proof -
  have a: "get_supported objtag_list" "dirattr objtag_list = 0" "spaceNeeded objtag_list = 8"
    by (simp_all add: objtag_list_def get_supported_def attrlist_ok_def spaceNeeded_def)
  show ?thesis
    using fgetattrlist_overrun [of objtag_list 0 "replicate 8 0" "quiet_kernel :: unit kernel" 3 "replicate 4 0" 4 "()"] a
    by simp
qed

definition packed_attrs :: "attrlist \<Rightarrow> u64 \<times> u64 \<Rightarrow> u64 \<times> u64 \<Rightarrow> int \<Rightarrow> u8 list" where
  "packed_attrs a mtim atim perms =
     (if commonattr a AND ATTR_CMN_MODTIME \<noteq> 0 then le_enc 8 (unat (fst mtim)) @ le_enc 8 (unat (snd mtim)) else []) @
     (if commonattr a AND ATTR_CMN_ACCTIME \<noteq> 0 then le_enc 8 (unat (fst atim)) @ le_enc 8 (unat (snd atim)) else []) @
     (if commonattr a AND ATTR_CMN_ACCESSMASK \<noteq> 0 then int_enc perms else [])"

definition attr_calls :: "attrlist \<Rightarrow> int \<Rightarrow> u32 \<Rightarrow> u64 \<times> u64 \<Rightarrow> u64 \<times> u64 \<Rightarrow> int \<Rightarrow> (string \<times> sarg list) list" where
  "attr_calls a fd flag mtim atim perms =
     (if commonattr a AND ATTR_CMN_MODTIME \<noteq> 0 then [(''utimensat'', [AInt fd, AWord 0, AWord LINUX_UTIME_OMIT,
        AWord LINUX_UTIME_OMIT, AWord (fst mtim), AWord (snd mtim), AInt (uint flag)])] else []) @
     (if commonattr a AND ATTR_CMN_ACCTIME \<noteq> 0 then [(''utimensat'', [AInt fd, AWord 0, AWord (fst atim), AWord (snd atim),
        AWord LINUX_UTIME_OMIT, AWord LINUX_UTIME_OMIT, AInt (uint flag)])] else []) @
     (if commonattr a AND ATTR_CMN_ACCESSMASK \<noteq> 0 then [(''fchmod'', [AInt fd, AInt perms])] else [])"

lemma load_skip: "length a \<le> pos \<Longrightarrow> load n pos (a @ c) = load n (pos - length a) c"
  by (auto simp: load_def load_bytes_def)

lemma load_word: "load 8 0 (le_enc 8 (unat (v :: u64)) @ c) = Some (unat v)"
proof -
  have "unat v < 256 ^ 8" using unat_less [of v] by simp
  then show ?thesis using load_append [of "le_enc 8 (unat v)" 8 "[]" c] by simp
qed

lemmas load_packed = load_skip load_word load_word [of _ "[]", simplified]
  load_append [of "int_enc p" 4 "[]" "[]" for p, simplified]

lemma and_outside: "x AND m = x \<Longrightarrow> m AND k = 0 \<Longrightarrow> x AND k = (0 :: u32)"
  by (metis and.assoc and_zero_eq)

lemma set_supported_times:
  assumes "set_supported a"
  shows "commonattr a AND ATTR_CMN_CRTIME = 0" "commonattr a AND ATTR_CMN_CHGTIME = 0"
proof -
  have "commonattr a AND (ATTR_CMN_MODTIME OR ATTR_CMN_ACCTIME OR ATTR_CMN_ACCESSMASK) = commonattr a"
    using assms by (simp add: set_supported_def attrlist_ok_def)
  then show "commonattr a AND ATTR_CMN_CRTIME = 0" "commonattr a AND ATTR_CMN_CHGTIME = 0"
    by (rule and_outside, simp)+
qed

lemma setattrlist_recorded:
  assumes "set_supported a" "int_ok perms"
  shows "setattrlist_generic recording_kernel (OnFd fd) a (packed_attrs a (ms, mn) (as, an) perms) options w =
    Some (0, w @ attr_calls a fd (if options AND FSOPT_NOFOLLOW \<noteq> 0 then LINUX_AT_SYMLINK_NOFOLLOW else 0) (ms, mn) (as, an) perms)"
  using set_supported_times [OF assms(1)] assms
  by (cases "commonattr a AND ATTR_CMN_MODTIME = 0"; cases "commonattr a AND ATTR_CMN_ACCTIME = 0";
      cases "commonattr a AND ATTR_CMN_ACCESSMASK = 0")
    (simp_all add: setattrlist_generic_def set_attr_def packed_attrs_def attr_calls_def utimensat_def recording_kernel_def
      load_packed Let_def)

text \<open>
  C28: \<^verbatim>\<open>fsetattrlist\<close> unpacks the buffer in the order of the attributes. For every supported list, a
  buffer that holds the requested ones of modification time, access time and permissions one after the
  other becomes one Linux call for each of them, in this order, with the other time left alone.
\<close>

theorem fsetattrlist_unpacks:
  assumes "set_supported a" "int_ok perms"
  shows "sys_fsetattrlist recording_kernel fd (Some a) (packed_attrs a mtim atim perms) options w =
    Some (0, w @ attr_calls a fd (if options AND FSOPT_NOFOLLOW \<noteq> 0 then LINUX_AT_SYMLINK_NOFOLLOW else 0) mtim atim perms)"
  using setattrlist_recorded [OF assms] by (cases mtim; cases atim) (simp add: sys_fsetattrlist_def)

definition mode_list :: attrlist where
  "mode_list = \<lparr>bitmapcount = 5, reserved = 0, commonattr = 0x20400, volattr = 0, dirattr = 0, fileattr = 0, forkattr = 0\<rparr>"

theorem fsetattrlist_unpacks_witness:
  "set_supported mode_list \<and>
   sys_fsetattrlist recording_kernel 3 (Some mode_list) (packed_attrs mode_list (7, 8) (0, 0) 420) 0 [] =
     Some (0, [(''utimensat'', [AInt 3, AWord 0, AWord LINUX_UTIME_OMIT, AWord LINUX_UTIME_OMIT, AWord 7, AWord 8, AInt 0]),
       (''fchmod'', [AInt 3, AInt 420])])"
proof -
  have a: "set_supported mode_list"
    by (simp add: mode_list_def set_supported_def attrlist_ok_def)
  then show ?thesis using fsetattrlist_unpacks [OF a, of 420 3 "(7, 8)" "(0, 0)" 0 "[]"]
    by (simp add: int_ok_def attr_calls_def mode_list_def)
qed

end
