(* ===== verification/Handles.thy ===== *)
theory Handles
  imports Stat
begin

text \<open>
  References to files that outlive their names, \<^verbatim>\<open>src/kernel/emulation/linux/ext/file_handle.c\<close>. Where the
  file system has no handles, the last 200 names are kept in an array that is reused in turn, each with
  the number of the reference; otherwise the handle of Linux is turned back into a path with the table
  of mounts and a call of the kernel module.

  The lock around the array makes each of its uses one step. \<^verbatim>\<open>strdup\<close> is taken to find memory.
\<close>

section \<open>The saved names\<close>

record SavedRef =
  sr_path :: "string option"
  sr_gen :: u32

record handles =
  savedRefs :: "SavedRef list"
  nextSavedRef :: nat
  nextGen :: u32

abbreviation (input) SAVED_REFS :: nat where "SAVED_REFS \<equiv> 200"

definition handles_start :: handles where
  "handles_start = \<lparr>savedRefs = replicate SAVED_REFS \<lparr>sr_path = None, sr_gen = 0\<rparr>, nextSavedRef = 0, nextGen = 0\<rparr>"

text \<open>
  The reference that the caller holds: the number of the mount and 76 bytes, of which the first eight
  are either the size and type of a handle or the index and number of a saved name.
\<close>

record RefData =
  rd_mount_id :: int
  rd_index :: u32
  rd_gen :: u32
  rd_f_handle :: "u8 list"

abbreviation (input) MOUNT_ID_SAVED :: int where "MOUNT_ID_SAVED \<equiv> - 100"

definition save_ref :: "string \<Rightarrow> handles \<Rightarrow> handles" where
  "save_ref name h = h\<lparr>savedRefs := (savedRefs h)[nextSavedRef h := \<lparr>sr_path = Some name, sr_gen = nextGen h\<rparr>],
     nextSavedRef := (nextSavedRef h + 1) mod SAVED_REFS, nextGen := nextGen h + 1\<rparr>"

definition saved_refdata :: "handles \<Rightarrow> RefData \<Rightarrow> RefData" where
  "saved_refdata h ref = ref\<lparr>rd_gen := nextGen h, rd_mount_id := MOUNT_ID_SAVED, rd_index := of_nat (nextSavedRef h)\<rparr>"

text \<open>The calls of Linux and of the kernel module on handles. A handle is the reference without its mount.\<close>

record 'w handlecalls =
  hc_name_to_handle_at :: "string \<Rightarrow> RefData \<Rightarrow> 'w \<Rightarrow> (int \<times> RefData) \<times> 'w"
  hc_handle_to_path :: "int \<Rightarrow> RefData \<Rightarrow> 'w \<Rightarrow> (int \<times> string) \<times> 'w"
  hc_open_by_handle_at :: "int \<Rightarrow> RefData \<Rightarrow> u32 \<Rightarrow> 'w \<Rightarrow> int \<times> 'w"

section \<open>From a name to a reference\<close>

definition sys_name_to_handle ::
    "'w vfs \<Rightarrow> 'w kernel \<Rightarrow> 'w handlecalls \<Rightarrow> tsd \<Rightarrow> string \<Rightarrow> RefData \<Rightarrow> bool \<Rightarrow> handles \<Rightarrow> string option \<Rightarrow> 'w \<Rightarrow>
     ((int \<times> RefData) \<times> handles \<times> string option \<times> 'w) option" where
  "sys_name_to_handle V K H t name ref fol h st w = do {
     (r, st, w) \<leftarrow> expand_path V (get_perthread_wd t) name fol st w;
     case r of
       Inl e \<Rightarrow> Some ((e, ref), h, st, w)
     | Inr p \<Rightarrow>
         let ((ret, ref), w) = hc_name_to_handle_at H p (ref\<lparr>rd_index := 68\<rparr>) w in
         if ret = - 95 then do {
           (acc, st, w) \<leftarrow> sys_access V K t name 0 st w;
           Some (if acc = 0 then ((0, saved_refdata h ref), save_ref name h, st, w)
                 else ((errno_linux_to_bsd ret, ref), h, st, w)) }
         else Some ((ret_bsd ret, ref), h, st, w) }"

section \<open>The path of a mount\<close>

text \<open>
  The fifth word of the line of \<^verbatim>\<open>/proc/self/mountinfo\<close> that begins with the number. A line with fewer words
  ends the search, \<open>Some None\<close>; another line is passed over, \<open>None\<close>.
\<close>

fun later_token :: "nat \<Rightarrow> string \<Rightarrow> string option" where
  "later_token 0 r = map_option fst (strtok r)"
| "later_token (Suc n) r = (case strtok r of None \<Rightarrow> None | Some (_, r) \<Rightarrow> later_token n r)"

definition mountinfo_line :: "int \<Rightarrow> string \<Rightarrow> string option option" where
  "mountinfo_line mount_id line = (case strtok line of
     None \<Rightarrow> None
   | Some (p, r) \<Rightarrow> if fst (simple_atoi p) \<noteq> word_of_int mount_id then None else Some (later_token 3 r))"

partial_function (option) mountinfo_loop ::
    "(nat \<Rightarrow> 'w \<Rightarrow> (int \<times> string) \<times> 'w) \<Rightarrow> int \<Rightarrow> simple_readline_buf \<Rightarrow> 'w \<Rightarrow> (string option \<times> 'w) option" where
  "mountinfo_loop rd mount_id b w = do {
     (r, b, w) \<leftarrow> simple_readline rd b 1024 w;
     (case r of
        None \<Rightarrow> Some (None, w)
      | Some line \<Rightarrow> (case mountinfo_line mount_id line of
          None \<Rightarrow> mountinfo_loop rd mount_id b w
        | Some p \<Rightarrow> Some (p, w))) }"

text \<open>The error or the path of the mount; the table is closed on every way out.\<close>

definition mount_path ::
    "'w vfs \<Rightarrow> 'w filecalls \<Rightarrow> 'w kernel \<Rightarrow> tsd \<Rightarrow> int \<Rightarrow> string option \<Rightarrow> 'w \<Rightarrow> ((int + string) \<times> string option \<times> 'w) option" where
  "mount_path V F K t mount_id st w = do {
     (fd, st, w) \<leftarrow> sys_open_nocancel V F t (Some ''/proc/self/mountinfo'') 0 0 st w;
     if fd < 0 then Some (Inl fd, st, w)
     else do {
       (p, w) \<leftarrow> mountinfo_loop (read_fd K fd) mount_id fresh_readline w;
       (_, w) \<leftarrow> Some (close_internal K fd w);
       Some (case p of None \<Rightarrow> Inl (- 2) | Some p \<Rightarrow> Inr p, st, w) } }"

section \<open>From a reference to a name\<close>

definition saved_name :: "RefData \<Rightarrow> handles \<Rightarrow> string option option" where
  "saved_name ref h =
     (let i = sint (rd_index ref) in
      if i < 0 \<or> int (length (savedRefs h)) \<le> i then None
      else let s = savedRefs h ! nat i in
        if sr_gen s = rd_gen ref then map_option (\<lambda>p. Some (strlcpy p 4096)) (sr_path s) else Some None)"

text \<open>
  \<open>name\<close> is what the buffer of the caller held. An index outside the array, and the empty slot that the
  numbers of a made-up reference can meet, are undefined.
\<close>

definition sys_handle_to_name ::
    "'w vfs \<Rightarrow> 'w filecalls \<Rightarrow> 'w kernel \<Rightarrow> 'w handlecalls \<Rightarrow> tsd \<Rightarrow> RefData \<Rightarrow> string \<Rightarrow> handles \<Rightarrow> string option \<Rightarrow> 'w \<Rightarrow>
     ((int \<times> string) \<times> string option \<times> 'w) option" where
  "sys_handle_to_name V F K H t ref name h st w =
     (if rd_mount_id ref = MOUNT_ID_SAVED then do {
        p \<leftarrow> saved_name ref h;
        case p of
          None \<Rightarrow> Some ((- 2, name), st, w)
        | Some name \<Rightarrow> do { (ret, st, w) \<leftarrow> sys_access V K t name 0 st w; Some ((ret, name), st, w) } }
      else do {
        (r, st, w) \<leftarrow> mount_path V F K t (rd_mount_id ref) st w;
        case r of
          Inl e \<Rightarrow> Some ((e, name), st, w)
        | Inr p \<Rightarrow>
            let (fd, w) = sysc K ''open'' [AStr p, AInt 0, AInt 0] w in
            if fd < 0 then Some ((fd, name), st, w)
            else
              let ((ret, path), w) = hc_handle_to_path H fd ref w;
                  (_, w) = close_internal K fd w in
              if ret < 0 then Some ((errno_linux_to_bsd ret, name), st, w)
              else do {
                (ret, path) \<leftarrow> vchroot_unexpand st path;
                Some (if ret < 0 then (errno_linux_to_bsd ret, name) else (0, path), st, w) } })"

definition sys_open_by_handle ::
    "'w vfs \<Rightarrow> 'w filecalls \<Rightarrow> 'w kernel \<Rightarrow> 'w handlecalls \<Rightarrow> tsd \<Rightarrow> RefData \<Rightarrow> u32 \<Rightarrow> string option \<Rightarrow> 'w \<Rightarrow>
     (int \<times> string option \<times> 'w) option" where
  "sys_open_by_handle V F K H t ref flags st w = do {
     (r, st, w) \<leftarrow> mount_path V F K t (rd_mount_id ref) st w;
     case r of
       Inl e \<Rightarrow> Some (e, st, w)
     | Inr p \<Rightarrow> do {
         (fd, st, w) \<leftarrow> sys_open_nocancel V F t (Some p) 0 0 st w;
         if fd < 0 then Some (fd, st, w)
         else
           let (ret, w) = hc_open_by_handle_at H fd ref (oflags_bsd_to_linux flags) w;
               (_, w) = close_internal K fd w in
           Some (ret_bsd ret, st, w) } }"

section \<open>Lemmas\<close>

definition handles_wf :: "handles \<Rightarrow> bool" where
  "handles_wf h \<longleftrightarrow> length (savedRefs h) = SAVED_REFS \<and> nextSavedRef h < SAVED_REFS"

lemma handles_start_wf: "handles_wf handles_start"
  by (simp add: handles_wf_def handles_start_def)

lemma save_ref_wf: "handles_wf h \<Longrightarrow> handles_wf (save_ref name h)"
  by (simp add: handles_wf_def save_ref_def)

lemma saves_wf: "handles_wf h \<Longrightarrow> handles_wf (fold save_ref names h)"
  by (induction names arbitrary: h) (simp_all add: save_ref_wf)

lemma saves_next: "handles_wf h \<Longrightarrow>
    nextSavedRef (fold save_ref names h) = (nextSavedRef h + length names) mod SAVED_REFS \<and>
    nextGen (fold save_ref names h) = nextGen h + of_nat (length names)"
proof (induction names arbitrary: h)
  case (Cons n names)
  then show ?case using save_ref_wf [of h n] by (simp add: save_ref_def mod_simps ac_simps)
qed (simp add: handles_wf_def)

text \<open>What the slot of a name holds after more names have been saved: every 200th of them.\<close>

lemma slot_after:
  assumes "handles_wf h" "i = nextSavedRef h" "g = nextGen h"
  shows "savedRefs (fold save_ref names (save_ref name h)) ! i =
    \<lparr>sr_path = Some ((name # names) ! (length names div 200 * 200)), sr_gen = g + of_nat (length names div 200 * 200)\<rparr>"
proof (induction names rule: rev_induct)
  case Nil
  then show ?case using assms by (simp add: save_ref_def handles_wf_def)
next
  case (snoc x xs)
  define k where "k = fold save_ref xs (save_ref name h)"
  let ?n = "length xs"
  have wf: "length (savedRefs k) = 200"
    using saves_wf [OF save_ref_wf [OF assms(1)], of xs name] by (simp add: k_def handles_wf_def)
  have "nextSavedRef (save_ref name h) = (i + 1) mod 200" "nextGen (save_ref name h) = g + 1"
    using assms by (simp_all add: save_ref_def)
  then have nxt: "nextSavedRef k = (i + (?n + 1)) mod 200" "nextGen k = g + of_nat (?n + 1)"
    using saves_next [OF save_ref_wf [OF assms(1)], of xs name] by (simp_all add: k_def mod_simps ac_simps)
  have i: "i < 200" using assms by (simp add: handles_wf_def)
  have step: "savedRefs (fold save_ref (xs @ [x]) (save_ref name h)) =
      (savedRefs k)[nextSavedRef k := \<lparr>sr_path = Some x, sr_gen = nextGen k\<rparr>]"
    by (simp add: k_def [symmetric]) (simp add: save_ref_def)
  show ?case
  proof (cases "200 dvd (?n + 1)")
    case True
    then have m: "length (xs @ [x]) div 200 * 200 = ?n + 1" by simp
    have "(i + (?n + 1)) mod 200 = (i + (?n + 1) mod 200) mod 200" by (simp only: mod_add_right_eq)
    then have "nextSavedRef k = i" using True nxt(1) i by (simp only: dvd_imp_mod_0 add_0_right mod_less)
    then show ?thesis unfolding step m using wf i nxt(2) by simp
  next
    case False
    then have m: "length (xs @ [x]) div 200 = ?n div 200" by (simp add: div_Suc dvd_eq_mod_eq_0)
    have "nextSavedRef k \<noteq> i"
    proof
      assume "nextSavedRef k = i"
      then have "(i + (?n + 1)) mod 200 = i mod 200" using nxt(1) i by simp
      then have "200 dvd i + (?n + 1) - i" by (subst mod_eq_dvd_iff_nat [symmetric]) simp_all
      then show False using False by simp
    qed
    moreover have "(name # xs @ [x]) ! (?n div 200 * 200) = (name # xs) ! (?n div 200 * 200)"
      using nth_append [of "name # xs" "[x]"] by (simp add: less_Suc_eq_le)
    ultimately show ?thesis unfolding step m using snoc by (simp add: k_def)
  qed
qed

lemma saved_refdata_fields:
  assumes "handles_wf h"
  shows "sint (rd_index (saved_refdata h ref)) = int (nextSavedRef h)" "rd_gen (saved_refdata h ref) = nextGen h"
    "rd_mount_id (saved_refdata h ref) = MOUNT_ID_SAVED"
proof -
  have "nextSavedRef h < 200" using assms by (simp add: handles_wf_def)
  then have "sint (of_nat (nextSavedRef h) :: u32) = int (nextSavedRef h)"
    by (simp add: sint_low unsigned_of_nat take_bit_nat_eq_self take_bit_int_eq_self)
  then show "sint (rd_index (saved_refdata h ref)) = int (nextSavedRef h)" by (simp add: saved_refdata_def)
qed (simp_all add: saved_refdata_def)

text \<open>What a reference to a saved name gives after more names have been saved.\<close>

lemma saved_name_after:
  assumes "handles_wf h" "length names < 2 ^ 32"
  shows "saved_name (saved_refdata h ref) (fold save_ref names (save_ref name h)) =
    Some (if length names < 200 then Some (strlcpy name 4096) else None)"
proof -
  define k m where "k = fold save_ref names (save_ref name h)" and "m = length names div 200 * 200"
  have len: "length (savedRefs k) = 200"
    using saves_wf [OF save_ref_wf [OF assms(1)], of names name] by (simp add: k_def handles_wf_def)
  have i: "nextSavedRef h < 200" using assms(1) by (simp add: handles_wf_def)
  have m: "m \<le> length names" "m = 0 \<longleftrightarrow> length names < 200" by (simp_all add: m_def div_eq_0_iff)
  have zero: "(of_nat m :: u32) = 0 \<longleftrightarrow> m = 0"
    using m(1) assms(2) by (auto simp: word_of_nat_eq_0_iff dest!: dvd_imp_le)
  have slot: "savedRefs k ! nextSavedRef h = \<lparr>sr_path = Some ((name # names) ! m), sr_gen = nextGen h + of_nat m\<rparr>"
    unfolding k_def m_def using slot_after [OF assms(1) refl refl] by simp
  show ?thesis
    unfolding k_def [symmetric] using i len zero m(2)
    by (cases "m = 0") (simp_all add: saved_name_def Let_def saved_refdata_fields [OF assms(1)] slot)
qed

text \<open>A line of the table of mounts that has the number gives its fifth word, the mount point.\<close>

lemma mountinfo_line_point:
  assumes "list_all word [n, a, b, c, point]" "fst (simple_atoi n) = word_of_int mount_id"
  shows "mountinfo_line mount_id (n @ CHR '' '' # a @ CHR '' '' # b @ CHR '' '' # c @ CHR '' '' # point @ CHR '' '' # rest) = Some (Some point)"
  using assms by (simp add: mountinfo_line_def strtok_word numeral_3_eq_3)

section \<open>Properties\<close>

text \<open>
  C32: On a file system without handles a reference gives its name back: whatever names are saved in
  between, as long as they are fewer than 200, \<^verbatim>\<open>sys_handle_to_name\<close> finds the name that \<^verbatim>\<open>sys_name_to_handle\<close> was
  called with and returns what \<^verbatim>\<open>access\<close> says of it. With 200 names or more in between it returns \<^verbatim>\<open>ENOENT\<close> and
  leaves the buffer alone, and never gives the name of another file, for fewer than \<open>2 ^ 32\<close> names.
\<close>

theorem handle_roundtrip:
  assumes "handles_wf h" "length name < 4096" "length names < 2 ^ 32"
    and "expand_path V (get_perthread_wd t) name fol st w = Some (Inr p, st', w\<^sub>1)"
    and "hc_name_to_handle_at H p (ref\<lparr>rd_index := 68\<rparr>) w\<^sub>1 = ((- 95, ref'), w\<^sub>2)"
    and "sys_access V K t name 0 st' w\<^sub>2 = Some (0, st'', w\<^sub>3)"
  shows "\<exists>r h'. sys_name_to_handle V K H t name ref fol h st w = Some ((0, r), h', st'', w\<^sub>3) \<and>
    sys_handle_to_name V F K H t r buf (fold save_ref names h') st\<^sub>2 v =
      (if length names < 200 then map_option (\<lambda>(ret, s, v). ((ret, name), s, v)) (sys_access V K t name 0 st\<^sub>2 v)
       else Some ((- 2, buf), st\<^sub>2, v))"
proof -
  have "sys_name_to_handle V K H t name ref fol h st w = Some ((0, saved_refdata h ref'), save_ref name h, st'', w\<^sub>3)"
    using assms(4-6) by (simp add: sys_name_to_handle_def)
  moreover have "sys_handle_to_name V F K H t (saved_refdata h ref') buf (fold save_ref names (save_ref name h)) st\<^sub>2 v =
      (if length names < 200 then map_option (\<lambda>(ret, s, v). ((ret, name), s, v)) (sys_access V K t name 0 st\<^sub>2 v)
       else Some ((- 2, buf), st\<^sub>2, v))"
    using assms(2) saved_name_after [OF assms(1,3), of ref' name]
    by (auto simp: sys_handle_to_name_def saved_refdata_fields(3) [OF assms(1)] strlcpy_def
        split: Option.bind_splits prod.splits)
  ultimately show ?thesis by blast
qed

definition no_handles :: "'w handlecalls" where
  "no_handles = \<lparr>hc_name_to_handle_at = (\<lambda>p r w. ((- 95, r), w)), hc_handle_to_path = (\<lambda>fd r w. ((- 2, []), w)),
     hc_open_by_handle_at = (\<lambda>fd r f w. (- 2, w))\<rparr>"

definition no_files :: "'w filecalls" where
  "no_files = \<lparr>fc_openat = (\<lambda>d p f m w. (- 2, w)), fc_fcntl = (\<lambda>d c a w. ((- 22, a), w)), fc_fsync = (\<lambda>d w. (0, w))\<rparr>"

lemma no_handles_name [simp]: "hc_name_to_handle_at no_handles p r w = ((- 95, r), w)"
  by (simp add: no_handles_def)

lemma expand_plain_u: "expand_path plain_fs (- 100) ''/u'' True (Some ''/pfx'') () = Some (Inr ''/pfx/u'', Some ''/pfx'', ())"
  by code_simp

lemma access_plain_u: "sys_access plain_fs quiet_kernel \<lparr>tsd_100 = False, tsd_101 = 0\<rparr> ''/u'' 0 (Some ''/pfx'') () = Some (0, Some ''/pfx'', ())"
  by (simp add: sys_access_def sys_faccessat_def path_call_def get_perthread_wd_def atfd_def
      expand_plain_u linux_call_def quiet_kernel_def ret_bsd_def)

theorem handle_roundtrip_witness:
  "\<exists>r h'. sys_name_to_handle plain_fs quiet_kernel no_handles \<lparr>tsd_100 = False, tsd_101 = 0\<rparr> ''/u''
      \<lparr>rd_mount_id = 0, rd_index = 0, rd_gen = 0, rd_f_handle = []\<rparr> True handles_start (Some ''/pfx'') () = Some ((0, r), h', Some ''/pfx'', ()) \<and>
    sys_handle_to_name plain_fs no_files quiet_kernel no_handles \<lparr>tsd_100 = False, tsd_101 = 0\<rparr> r [] (fold save_ref [''/a'', ''/b''] h') (Some ''/pfx'') () =
      Some ((0, ''/u''), Some ''/pfx'', ())"
  using handle_roundtrip [OF handles_start_wf, of "''/u''" "[''/a'', ''/b'']" plain_fs "\<lparr>tsd_100 = False, tsd_101 = 0\<rparr>" True "Some ''/pfx''" "()"
      "''/pfx/u''" "Some ''/pfx''" "()" no_handles "\<lparr>rd_mount_id = 0, rd_index = 0, rd_gen = 0, rd_f_handle = []\<rparr>"
      "\<lparr>rd_mount_id = 0, rd_index = 68, rd_gen = 0, rd_f_handle = []\<rparr>" "()" quiet_kernel "Some ''/pfx''" "()" no_files "[]" "Some ''/pfx''" "()"]
  by (simp add: access_plain_u expand_plain_u get_perthread_wd_def)

end
