(* ===== verification/Sysctl.thy ===== *)
theory Sysctl
  imports Stat
begin

text \<open>
  The tree of system parameters, \<^verbatim>\<open>src/kernel/emulation/linux/misc/sysctl.c\<close> with the tables of
  \<^verbatim>\<open>sysctl_unspec.c\<close>, \<^verbatim>\<open>sysctl_hw.c\<close>, \<^verbatim>\<open>sysctl_kern.c\<close>, \<^verbatim>\<open>sysctl_machdep.c\<close>, \<^verbatim>\<open>sysctl_sysctl.c\<close> and \<^verbatim>\<open>sysctl_net.c\<close>: the search
  by numbers and by names, and the handlers of \<^verbatim>\<open>sysctl_unspec.c\<close>, which translate between the two. The
  other handlers are arguments of the calls, except the information on processes of \<^verbatim>\<open>sysctl_proc.c\<close>, which
  is read from \<^verbatim>\<open>/proc\<close>.

  The terminating entry of a table is not in the list: the number -1 that marks it is never found. The
  codes of the types are defined by a system header, a parameter where they are stored.
\<close>

section \<open>The tree\<close>

datatype ctltype = CTLTYPE_NODE | CTLTYPE_INT | CTLTYPE_STRING | CTLTYPE_QUAD | CTLTYPE_STRUCT | CTLTYPE_OPAQUE

datatype sysctl_handler =
    handle_oid_to_name | handle_name_to_oid | handle_get_data_type
  | handle_availcpu | handle_physicalcpu | handle_physicalcpu_max | handle_logicalcpu | handle_logicalcpu_max
  | handle_memsize | handle_pagesize | handle_cputype | handle_cpusubtype | handle_cputhreadtype
  | handle_cpu64bitcapable | handle_machine | handle_cpufrequency
  | handle_msgbuf | handle_proc | handle_procargs32 | handle_argmax | handle_maxproc | handle_netboot
  | handle_safeboot | handle_boottime | handle_ostype | handle_hostname | handle_domainname | handle_osrelease
  | handle_version | handle_osversion | handle_usrstack32 | handle_usrstack64 | handle_osproductversion | handle_sysv_semmns
  | handle_max_basic | handle_vendor | handle_family | handle_model | handle_stepping | handle_brand_string | handle_features
  | handle_proc_cputype | handle_route

datatype known_sysctl =
    Node (ctl_oid: int) (ctl_exttype: string) (ctl_name: string) (subctls: "known_sysctl list")
  | Leaf (ctl_oid: int) (leaf_type: ctltype) (ctl_exttype: string) (ctl_name: string) (ctl_handler: sysctl_handler)

definition sysctls_unspec :: "known_sysctl list" where
  "sysctls_unspec =
     [Leaf 1 CTLTYPE_STRING ''S'' ''oid_to_name'' handle_oid_to_name,
      Leaf 3 CTLTYPE_STRUCT ''I,oid'' ''name_to_oid'' handle_name_to_oid,
      Leaf 4 CTLTYPE_STRUCT ''I,type'' ''get_data_type'' handle_get_data_type]"

definition sysctls_hw :: "known_sysctl list" where
  "sysctls_hw =
     [Leaf 25 CTLTYPE_INT [] ''availcpu'' handle_availcpu,
      Leaf 3 CTLTYPE_INT [] ''ncpu'' handle_availcpu,
      Leaf 1000 CTLTYPE_INT [] ''physicalcpu'' handle_physicalcpu,
      Leaf 1001 CTLTYPE_INT [] ''physicalcpu_max'' handle_physicalcpu_max,
      Leaf 1002 CTLTYPE_INT [] ''logicalcpu'' handle_logicalcpu,
      Leaf 1003 CTLTYPE_INT [] ''logicalcpu_max'' handle_logicalcpu_max,
      Leaf 24 CTLTYPE_QUAD ''U'' ''memsize'' handle_memsize,
      Leaf 7 CTLTYPE_INT [] ''pagesize'' handle_pagesize,
      Leaf 1004 CTLTYPE_INT [] ''cputype'' handle_cputype,
      Leaf 1005 CTLTYPE_INT [] ''cpusubtype'' handle_cpusubtype,
      Leaf 1006 CTLTYPE_INT [] ''cputhreadtype'' handle_cputhreadtype,
      Leaf 1007 CTLTYPE_INT [] ''cpu64bit_capable'' handle_cpu64bitcapable,
      Leaf 1 CTLTYPE_STRING ''S'' ''machine'' handle_machine,
      Leaf 15 CTLTYPE_INT [] ''cpufrequency'' handle_cpufrequency]"

definition sysctls_kern :: "known_sysctl list" where
  "sysctls_kern =
     [Leaf 1000 CTLTYPE_STRING ''S'' ''msgbuf'' handle_msgbuf,
      Leaf 14 CTLTYPE_STRUCT [] ''proc'' handle_proc,
      Leaf 49 CTLTYPE_STRUCT [] ''procargs2'' handle_procargs32,
      Leaf 8 CTLTYPE_INT ''I'' ''argmax'' handle_argmax,
      Leaf 6 CTLTYPE_INT ''I'' ''maxproc'' handle_maxproc,
      Leaf 40 CTLTYPE_INT ''I'' ''netboot'' handle_netboot,
      Leaf 66 CTLTYPE_INT ''I'' ''safeboot'' handle_safeboot,
      Leaf 21 CTLTYPE_STRUCT ''S,timeval'' ''boottime'' handle_boottime,
      Leaf 1 CTLTYPE_STRING ''S'' ''ostype'' handle_ostype,
      Leaf 10 CTLTYPE_STRING ''S'' ''hostname'' handle_hostname,
      Leaf 22 CTLTYPE_STRING ''S'' ''domainname'' handle_domainname,
      Leaf 2 CTLTYPE_STRING ''S'' ''osrelease'' handle_osrelease,
      Leaf 4 CTLTYPE_STRING ''S'' ''version'' handle_version,
      Leaf 65 CTLTYPE_STRING ''S'' ''osversion'' handle_osversion,
      Leaf 35 CTLTYPE_INT ''I'' ''usrstack'' handle_usrstack32,
      Leaf 59 CTLTYPE_QUAD ''Q'' ''usrstack64'' handle_usrstack64,
      Leaf 1001 CTLTYPE_STRING ''S'' ''osproductversion'' handle_osproductversion,
      Node 42 [] ''sysv'' [Leaf 1000 CTLTYPE_INT ''I'' ''semmns'' handle_sysv_semmns]]"

definition sysctls_machdep :: "known_sysctl list" where
  "sysctls_machdep =
     [Node 1000 [] ''cpu''
       [Leaf 1001 CTLTYPE_INT ''I'' ''max_basic'' handle_max_basic,
        Leaf 1000 CTLTYPE_STRING ''S'' ''vendor'' handle_vendor,
        Leaf 1002 CTLTYPE_INT ''I'' ''family'' handle_family,
        Leaf 1003 CTLTYPE_INT ''I'' ''model'' handle_model,
        Leaf 1004 CTLTYPE_INT ''I'' ''stepping'' handle_stepping,
        Leaf 1005 CTLTYPE_STRING ''S'' ''vendor'' handle_brand_string,
        Leaf 1006 CTLTYPE_STRING ''S'' ''features'' handle_features]]"

definition sysctls_sysctl :: "known_sysctl list" where
  "sysctls_sysctl = [Leaf 1000 CTLTYPE_INT ''I'' ''proc_cputype'' handle_proc_cputype]"

definition sysctls_net :: "known_sysctl list" where
  "sysctls_net = [Leaf 17 CTLTYPE_OPAQUE [] ''route'' handle_route]"

definition sysctls_root :: known_sysctl where
  "sysctls_root = Node 0 [] []
     [Node 0 [] ''unspec'' sysctls_unspec,
      Node 6 [] ''hw'' sysctls_hw,
      Node 1 [] ''kern'' sysctls_kern,
      Node 7 [] ''machdep'' sysctls_machdep,
      Node 100 [] ''sysctl'' sysctls_sysctl,
      Node 4 [] ''net'' sysctls_net]"

section \<open>The search\<close>

text \<open>By numbers: the first entry that is not a node ends it, whatever numbers follow.\<close>

fun walk_oids :: "int list \<Rightarrow> known_sysctl \<Rightarrow> known_sysctl option" where
  "walk_oids (n # ns) (Node _ _ _ subs) =
     (case find (\<lambda>c. ctl_oid c = n) subs of
        None \<Rightarrow> None
      | Some next \<Rightarrow> (case next of Node _ _ _ _ \<Rightarrow> walk_oids ns next | Leaf _ _ _ _ _ \<Rightarrow> Some next))"
| "walk_oids _ current = Some current"

text \<open>
  The handlers take the numbers, or none in a search by name, and the rest of the arguments. The errors
  are \<^verbatim>\<open>ENOENT\<close> and \<^verbatim>\<open>EISDIR\<close>.
\<close>

definition sys_sysctl :: "(sysctl_handler \<Rightarrow> int list \<Rightarrow> 'a \<Rightarrow> int \<times> 'a) \<Rightarrow> int list \<Rightarrow> 'a \<Rightarrow> int \<times> 'a" where
  "sys_sysctl H name a =
     (case walk_oids name sysctls_root of
        None \<Rightarrow> (- 2, a)
      | Some (Node _ _ _ _) \<Rightarrow> (- 21, a)
      | Some (Leaf _ _ _ _ h) \<Rightarrow> H h name a)"

text \<open>\<^verbatim>\<open>strtok_r\<close> with a dot as delimiter, called until it finds nothing.\<close>

fun dot_tokens :: "string \<Rightarrow> string \<Rightarrow> string list" where
  "dot_tokens t [] = (if t = [] then [] else [t])"
| "dot_tokens t (c # s) =
     (if c = CHR ''.'' then (if t = [] then dot_tokens [] s else t # dot_tokens [] s) else dot_tokens (t @ [c]) s)"

text \<open>By names: the entries passed, the last one last; a name behind an entry that is not a node is \<^verbatim>\<open>ENOTDIR\<close>.\<close>

fun walk_names :: "string list \<Rightarrow> known_sysctl \<Rightarrow> int + known_sysctl list" where
  "walk_names [] current = Inr []"
| "walk_names (t # ts) (Leaf _ _ _ _ _) = Inl (- 20)"
| "walk_names (t # ts) (Node _ _ _ subs) =
     (case find (\<lambda>c. ctl_name c = t) subs of
        None \<Rightarrow> Inl (- 2)
      | Some next \<Rightarrow> (case walk_names ts next of Inl e \<Rightarrow> Inl e | Inr cs \<Rightarrow> Inr (next # cs)))"

definition sys_sysctlbyname :: "(sysctl_handler \<Rightarrow> int list \<Rightarrow> 'a \<Rightarrow> int \<times> 'a) \<Rightarrow> string \<Rightarrow> 'a \<Rightarrow> int \<times> 'a" where
  "sys_sysctlbyname H name a =
     (if name = ''vfs.generic.noremotehang'' then (0, a)
      else case walk_names (dot_tokens [] (strlcpy name 128)) sysctls_root of
        Inl e \<Rightarrow> (e, a)
      | Inr cs \<Rightarrow> (case last (sysctls_root # cs) of
          Node _ _ _ _ \<Rightarrow> (- 21, a)
        | Leaf _ _ _ _ h \<Rightarrow> H h [] a))"

section \<open>The translation of names\<close>

text \<open>
  The buffer of the caller is the bytes at \<^verbatim>\<open>old\<close>, if it is not null, and the length it claims; a store
  outside it is \<open>None\<close>.
\<close>

type_synonym sysctl_out = "u8 list option \<times> nat"

definition c_bytes :: "string \<Rightarrow> u8 list" where
  "c_bytes s = map of_char s @ [0]"

definition copyout_string :: "string \<Rightarrow> sysctl_out \<Rightarrow> sysctl_out option" where
  "copyout_string str = (\<lambda>(out, out_len). case out of
     None \<Rightarrow> Some (None, length str)
   | Some m \<Rightarrow>
       if out_len = 0 then Some (Some m, length str)
       else do { m \<leftarrow> store 0 (c_bytes (strlcpy str out_len)) m; Some (Some m, length str) })"

text \<open>
  The name is put together in an array of 64 bytes. The search is that of \<^verbatim>\<open>sys_sysctl\<close>, but the last entry
  may be a node.
\<close>

fun oid_name :: "int list \<Rightarrow> known_sysctl \<Rightarrow> string \<Rightarrow> (int + string) option" where
  "oid_name (n # ns) (Node _ _ _ subs) sname =
     (case find (\<lambda>c. ctl_oid c = n) subs of
        None \<Rightarrow> Some (Inl (- 2))
      | Some next \<Rightarrow>
          let sname = (if sname = [] then [] else sname @ ''.'') @ ctl_name next in
          if length sname < 64 then
            (case next of Node _ _ _ _ \<Rightarrow> oid_name ns next sname | Leaf _ _ _ _ _ \<Rightarrow> Some (Inr sname))
          else None)"
| "oid_name _ current sname = Some (Inr sname)"

definition run_oid_to_name :: "int list \<Rightarrow> sysctl_out \<Rightarrow> (int \<times> sysctl_out) option" where
  "run_oid_to_name name out = do {
     r \<leftarrow> oid_name (drop 2 name) sysctls_root [];
     case r of Inl e \<Rightarrow> Some (e, out) | Inr sname \<Rightarrow> do { out \<leftarrow> copyout_string sname out; Some (0, out) } }"

text \<open>The numbers are put into an array of four, before anything else is tested.\<close>

definition oids_of :: "string \<Rightarrow> (int + int list) option" where
  "oids_of name =
     (case walk_names (dot_tokens [] (strlcpy name 128)) sysctls_root of
        Inl e \<Rightarrow> Some (Inl e)
      | Inr cs \<Rightarrow> if length cs \<le> 4 then Some (Inr (map ctl_oid cs)) else None)"

definition run_name_to_oid :: "string \<Rightarrow> sysctl_out \<Rightarrow> (int \<times> sysctl_out) option" where
  "run_name_to_oid name = (\<lambda>(old, oldlen). do {
     r \<leftarrow> oids_of name;
     case r of
       Inl e \<Rightarrow> Some (e, (old, oldlen))
     | Inr oid \<Rightarrow> (case old of
         None \<Rightarrow> Some (0, (None, 4 * length oid))
       | Some m \<Rightarrow>
           if oldlen < 4 * length oid then Some (- 22, (Some m, oldlen))
           else do { m \<leftarrow> store 0 (concat (map int_enc oid)) m; Some (0, (Some m, 4 * length oid)) }) })"

text \<open>The type of an entry: its code and its external name.\<close>

fun walk_types :: "int list \<Rightarrow> known_sysctl \<Rightarrow> int + known_sysctl" where
  "walk_types [] current = Inr current"
| "walk_types (n # ns) (Leaf _ _ _ _ _) = Inl (- 20)"
| "walk_types (n # ns) (Node _ _ _ subs) =
     (case find (\<lambda>c. ctl_oid c = n) subs of None \<Rightarrow> Inl (- 2) | Some next \<Rightarrow> walk_types ns next)"

definition run_get_data_type :: "(ctltype \<Rightarrow> int) \<Rightarrow> int list \<Rightarrow> sysctl_out \<Rightarrow> (int \<times> sysctl_out) option" where
  "run_get_data_type code name = (\<lambda>(old, oldlen).
     case walk_types (drop 2 name) sysctls_root of
       Inl e \<Rightarrow> Some (e, (old, oldlen))
     | Inr c \<Rightarrow>
         let typelen = 4 + length (ctl_exttype c) + 1;
             ty = (case c of Node _ _ _ _ \<Rightarrow> CTLTYPE_NODE | Leaf _ t _ _ _ \<Rightarrow> t) in
         (case old of
            None \<Rightarrow> Some (0, (None, typelen))
          | Some m \<Rightarrow>
              if oldlen < typelen then Some (- 22, (Some m, oldlen))
              else do { m \<leftarrow> store 0 (int_enc (code ty) @ c_bytes (ctl_exttype c)) m; Some (0, (Some m, typelen)) }))"

section \<open>Information on processes\<close>

text \<open>
  A file of \<^verbatim>\<open>/proc\<close> is read once, one byte less than the array holds. The result is what was read, or
  nothing when the file cannot be opened or read.
\<close>

definition read_string ::
    "'w vfs \<Rightarrow> 'w filecalls \<Rightarrow> 'w kernel \<Rightarrow> tsd \<Rightarrow> string \<Rightarrow> int \<Rightarrow> string option \<Rightarrow> 'w \<Rightarrow> (string option \<times> string option \<times> 'w) option" where
  "read_string V F K t path maxlen st w = do {
     (fd, st, w) \<leftarrow> sys_open_nocancel V F t (Some path) 0 0 st w;
     if fd < 0 then Some (None, st, w)
     else
       let ((rd, dst), w) = sys_read_nocancel K fd (maxlen - 1) w;
           (_, w) = close_internal K fd w in
       Some (if rd \<ge> 0 then Some (map (\<lambda>b. char_of (unat b)) (take (nat rd) dst)) else None, st, w) }"

text \<open>
  The next word of a line of \<^verbatim>\<open>/proc/<pid>/stat\<close>; the second one is in parentheses. The pointer is the rest
  of the string, or \<open>None\<close> when it is behind the end of it, from where nothing can be read.
\<close>

definition next_stat_elem :: "string option \<Rightarrow> (string option \<times> string option) option" where
  "next_stat_elem buf = (case buf of
     None \<Rightarrow> None
   | Some [] \<Rightarrow> Some (None, Some [])
   | Some (c # s) \<Rightarrow>
       if c = CHR ''('' then
         let r = dropWhile (\<lambda>d. d \<noteq> CHR '')'') s in
         Some (Some (takeWhile (\<lambda>d. d \<noteq> CHR '')'') s), if length r < 2 then None else Some (drop 2 r))
       else
         let r = dropWhile (\<lambda>d. d \<noteq> CHR '' '') (c # s) in
         Some (Some (takeWhile (\<lambda>d. d \<noteq> CHR '' '') (c # s)), if r = [] then None else Some (drop 1 r)))"

fun skip_stat_elems :: "nat \<Rightarrow> string option \<Rightarrow> string option option" where
  "skip_stat_elems 0 buf = Some buf"
| "skip_stat_elems (Suc n) buf = do { (_, buf) \<leftarrow> next_stat_elem buf; skip_stat_elems n buf }"

datatype p_stat = SRUN | SSLEEP | SSTOP | SZOMB

text \<open>
  The fields of \<^verbatim>\<open>struct kinfo_proc\<close> that are set; the structure is defined by a system header. The two flags
  are \<^verbatim>\<open>P_LP64\<close> and \<^verbatim>\<open>P_CONTROLT\<close>.
\<close>

record kinfo_proc =
  p_pid :: u32
  p_lp64 :: bool
  p_comm :: string
  p_stat :: p_stat
  e_ppid :: u32
  e_pgid :: u32
  e_tdev :: u32
  p_controlt :: bool
  p_priority :: u64
  p_nice :: u64
  e_uid :: u32
  e_gid :: u32

text \<open>\<^verbatim>\<open>__simple_atoi\<close> stored in an \<^verbatim>\<open>int\<close>.\<close>

abbreviation (input) atoi32 :: "string \<Rightarrow> u32" where
  "atoi32 s \<equiv> ucast (fst (simple_atoi s))"

text \<open>
  From the line to the fields: \<open>Some None\<close> when a word is missing or the session is another one. The word
  after the terminal is taken for the priority, because no word is skipped before it.
\<close>

definition parse_stat :: "nat \<Rightarrow> int \<Rightarrow> u32 \<Rightarrow> string \<Rightarrow> kinfo_proc \<Rightarrow> kinfo_proc option option" where
  "parse_stat comlen what flag stat k = do {
     buf \<leftarrow> skip_stat_elems 1 (Some stat);
     (elem, buf) \<leftarrow> next_stat_elem buf;
     case elem of None \<Rightarrow> Some None | Some comm \<Rightarrow> do {
     (elem, buf) \<leftarrow> next_stat_elem buf;
     case elem of None \<Rightarrow> Some None | Some state \<Rightarrow> do {
     (elem, buf) \<leftarrow> next_stat_elem buf;
     case elem of None \<Rightarrow> Some None | Some ppid \<Rightarrow> do {
     (elem, buf) \<leftarrow> next_stat_elem buf;
     case elem of None \<Rightarrow> Some None | Some pgid \<Rightarrow> do {
     (elem, buf) \<leftarrow> next_stat_elem buf;
     case elem of None \<Rightarrow> Some None | Some sid \<Rightarrow>
     if what = 3 \<and> atoi32 sid \<noteq> flag then Some None else do {
     (elem, buf) \<leftarrow> next_stat_elem buf;
     case elem of None \<Rightarrow> Some None | Some tty \<Rightarrow> do {
     buf \<leftarrow> skip_stat_elems 0 buf;
     (elem, buf) \<leftarrow> next_stat_elem buf;
     case elem of None \<Rightarrow> Some None | Some priority \<Rightarrow> do {
     (elem, buf) \<leftarrow> next_stat_elem buf;
     case elem of None \<Rightarrow> Some None | Some nice \<Rightarrow>
       Some (Some (k\<lparr>p_comm := take comlen comm, p_stat := (if prefix ''R'' state then SRUN else if prefix ''T'' state then SSTOP else if prefix ''Z'' state then SZOMB else SSLEEP),
          e_ppid := atoi32 ppid, e_pgid := atoi32 pgid,
         e_tdev := atoi32 tty, p_controlt := atoi32 tty \<noteq> 0,
         p_priority := fst (simple_atoi priority), p_nice := fst (simple_atoi nice)\<rparr>)) } } } } } } } }"

definition proc_selected :: "int \<Rightarrow> u32 \<Rightarrow> kinfo_proc \<Rightarrow> bool" where
  "proc_selected what flag k =
     (if what = 0 \<or> what = 3 \<or> what = 7 then True
      else if what = 1 then flag = p_pid k
      else if what = 4 then flag = e_tdev k
      else if what = 5 \<or> what = 6 then flag = e_uid k
      else if what = 2 then flag = e_pgid k
      else False)"

text \<open>
  \<^verbatim>\<open>load_proc\<close>: the array of the path has 56 bytes. The identities are fetched once and kept, \<open>ids\<close>; the
  result is a process, or none.
\<close>

definition load_proc ::
    "'w vfs \<Rightarrow> 'w filecalls \<Rightarrow> 'w kernel \<Rightarrow> (u32 \<Rightarrow> 'w \<Rightarrow> int \<times> 'w) \<Rightarrow> nat \<Rightarrow> tsd \<Rightarrow> string \<Rightarrow> int \<Rightarrow> u32 \<Rightarrow> (int \<times> int) \<Rightarrow>
     string option \<Rightarrow> 'w \<Rightarrow> (kinfo_proc option \<times> (int \<times> int) \<times> string option \<times> 'w) option" where
  "load_proc V F K task_64bit comlen t name what flag ids st w =
     (let path = ''/proc/'' @ name @ ''/stat'' in
      if 56 \<le> length path then None
      else
        let pid = atoi32 name;
            (b, w) = task_64bit pid w;
            k = \<lparr>p_pid = pid, p_lp64 = (b > 0), p_comm = [], p_stat = SSLEEP, e_ppid = 0, e_pgid = 0, e_tdev = 0, p_controlt = False,
                 p_priority = 0, p_nice = 0, e_uid = 0, e_gid = 0\<rparr> in
        do { (r, st, w) \<leftarrow> read_string V F K t path 1024 st w;
             case r of
               None \<Rightarrow> Some (None, ids, st, w)
             | Some stat \<Rightarrow> do {
                 r \<leftarrow> parse_stat comlen what flag (cstr stat) k;
                 case r of
                   None \<Rightarrow> Some (None, ids, st, w)
                 | Some k \<Rightarrow>
                     let (ids, w) = (if fst ids = - 1 \<or> snd ids = - 1 then
                           let (uid, w) = sys_getuid K w; (gid, w) = sys_getgid K w in ((uid, gid), w) else (ids, w));
                         k = k\<lparr>e_uid := word_of_int (fst ids), e_gid := word_of_int (snd ids)\<rparr> in
                     Some (if proc_selected what flag k then Some k else None, ids, st, w) } })"

text \<open>
  The arguments of a process: the search for two zero bytes in the array of 2048 bytes, of which only
  what was read and one zero byte are defined. The result is the count of zero bytes, the length of the
  first word and that of all of them.
\<close>

fun procargs_scan :: "string \<Rightarrow> nat \<Rightarrow> bool \<Rightarrow> nat \<Rightarrow> nat \<Rightarrow> (nat \<times> nat \<times> nat) option" where
  "procargs_scan [] i prev argc arg0len = (if i < 2047 then None else Some (argc, arg0len, 0))"
| "procargs_scan (c # cs) i prev argc arg0len =
     (if i < 2047 then
        let nul = (c = NUL); argc = (if nul then argc + 1 else argc); arg0len = (if nul \<and> argc = 1 then i else arg0len) in
        if prev \<and> nul then Some (argc, arg0len, i) else procargs_scan cs (i + 1) nul argc arg0len
      else Some (argc, arg0len, 0))"

definition procargs_bytes :: "string \<Rightarrow> u8 list option \<times> nat \<Rightarrow> (int \<times> u8 list option \<times> nat) option" where
  "procargs_bytes cmdline = (\<lambda>(buf, buflen). do {
     (argc, arg0len, argslen) \<leftarrow> procargs_scan cmdline 0 False 0 0;
     let totallen = 4 + arg0len + 2 + argslen + 1 in
     if buflen < totallen then Some (if buf = None then 0 else - 28, buf, totallen)
     else (case buf of
         None \<Rightarrow> None
       | Some m \<Rightarrow> do {
           m \<leftarrow> store 0 (int_enc (int argc)) m;
           m \<leftarrow> store 4 (c_bytes (cstr cmdline)) m;
           m \<leftarrow> store (4 + arg0len + 1) [0] m;
           m \<leftarrow> store (4 + arg0len + 2) [0] m;
           m \<leftarrow> store (4 + arg0len + 2) (map of_char (take (argslen + 1) cmdline)) m;
           Some (0, Some m, totallen) }) })"

definition sysctl_procargs ::
    "'w vfs \<Rightarrow> 'w filecalls \<Rightarrow> 'w kernel \<Rightarrow> tsd \<Rightarrow> int \<Rightarrow> u8 list option \<times> nat \<Rightarrow> string option \<Rightarrow> 'w \<Rightarrow>
     ((int \<times> u8 list option \<times> nat) \<times> string option \<times> 'w) option" where
  "sysctl_procargs V F K t pid out st w = do {
     (r, st, w) \<leftarrow> read_string V F K t (''/proc/'' @ show_d pid @ ''/cmdline'') 2048 st w;
     case r of
       None \<Rightarrow> Some ((- 20, out), st, w)
     | Some cmdline \<Rightarrow>
         if cstr cmdline \<noteq> [] then do { r \<leftarrow> procargs_bytes (cmdline @ [NUL]) out; Some (r, st, w) }
         else do {
           (r, st, w) \<leftarrow> read_string V F K t (''/proc/'' @ show_d pid @ ''/comm'') 2048 st w;
           case r of
             None \<Rightarrow> Some ((- 20, out), st, w)
           | Some comm \<Rightarrow>
               let len = length (cstr comm) in
               if len = 0 then None
               else do { r \<leftarrow> procargs_bytes ((comm @ [NUL])[len - 1 := NUL]) out; Some (r, st, w) } } }"

section \<open>Lemmas on the tree\<close>

text \<open>Siblings have different numbers and names that are not empty, at every level.\<close>

fun tree_wf :: "known_sysctl \<Rightarrow> bool" where
  "tree_wf (Node _ _ _ subs) \<longleftrightarrow> distinct (map ctl_oid subs) \<and> list_all (\<lambda>c. ctl_name c \<noteq> [] \<and> tree_wf c) subs"
| "tree_wf (Leaf _ _ _ _ _) = True"

lemma sysctls_root_wf: "tree_wf sysctls_root"
  by (simp add: sysctls_root_def sysctls_unspec_def sysctls_hw_def sysctls_kern_def sysctls_machdep_def sysctls_sysctl_def sysctls_net_def)

text \<open>The length of the longest name under an entry, with its dots, and the depth.\<close>

fun longest :: "known_sysctl \<Rightarrow> nat" where
  "longest (Node _ _ _ subs) = foldr max (map (\<lambda>c. length (ctl_name c) + 1 + longest c) subs) 0"
| "longest (Leaf _ _ _ _ _) = 0"

fun depth :: "known_sysctl \<Rightarrow> nat" where
  "depth (Node _ _ _ subs) = foldr max (map (\<lambda>c. 1 + depth c) subs) 0"
| "depth (Leaf _ _ _ _ _) = 0"

lemma sysctls_root_bounds: "longest sysctls_root = 22" "depth sysctls_root = 3"
  by (simp_all add: sysctls_root_def sysctls_unspec_def sysctls_hw_def sysctls_kern_def sysctls_machdep_def sysctls_sysctl_def sysctls_net_def)

lemma foldr_max_ge: "x \<in> set xs \<Longrightarrow> x \<le> foldr max xs (0 :: nat)"
  by (induction xs) (auto simp: le_max_iff_disj)

lemma longest_sub: "c \<in> set subs \<Longrightarrow> length (ctl_name c) + 1 + longest c \<le> longest (Node n e m subs)"
  using foldr_max_ge [of "length (ctl_name c) + 1 + longest c"] by force

lemma depth_sub: "c \<in> set subs \<Longrightarrow> 1 + depth c \<le> depth (Node n e m subs)"
  using foldr_max_ge [of "1 + depth c"] by force

lemma find_oid: "distinct (map ctl_oid subs) \<Longrightarrow> c \<in> set subs \<Longrightarrow> find (\<lambda>d. ctl_oid d = ctl_oid c) subs = Some c"
  by (induction subs) auto

lemma find_Some_in: "find P xs = Some x \<Longrightarrow> x \<in> set xs \<and> P x"
  by (induction xs) (auto split: if_splits)

lemma walk_names_names: "walk_names ts cur = Inr cs \<Longrightarrow> map ctl_name cs = ts"
  by (induction ts cur arbitrary: cs rule: walk_names.induct) (auto split: option.splits sum.splits dest: find_Some_in)

lemma walk_names_depth: "walk_names ts cur = Inr cs \<Longrightarrow> length cs \<le> depth cur"
proof (induction ts cur arbitrary: cs rule: walk_names.induct)
  case (3 t ts n e m subs)
  then obtain c cs' where c: "find (\<lambda>d. ctl_name d = t) subs = Some c" "walk_names ts c = Inr cs'" "cs = c # cs'"
    by (auto split: option.splits sum.splits)
  then show ?case using 3(1) [OF c(1,2)] depth_sub [of c subs n e m] find_Some_in [OF c(1)] by simp
qed auto

text \<open>A search by the numbers of the entries that a search by names has passed passes the same entries.\<close>

lemma walk_oids_names: "walk_names ts cur = Inr cs \<Longrightarrow> tree_wf cur \<Longrightarrow> walk_oids (map ctl_oid cs) cur = Some (last (cur # cs))"
proof (induction ts cur arbitrary: cs rule: walk_names.induct)
  case (3 t ts n e m subs)
  then obtain c cs' where c: "find (\<lambda>d. ctl_name d = t) subs = Some c" "walk_names ts c = Inr cs'" "cs = c # cs'"
    by (auto split: option.splits sum.splits)
  have "c \<in> set subs" using find_Some_in [OF c(1)] by simp
  moreover from this have "tree_wf c" "find (\<lambda>d. ctl_oid d = ctl_oid c) subs = Some c"
    using 3(3) by (auto simp: list_all_iff find_oid)
  moreover have "cs' = []" if "\<not> is_Node c" using c(2) that by (cases ts; cases c) auto
  ultimately show ?case using 3(1) [OF c(1,2)] c(3) by - (cases c; auto)
qed auto

fun dotted :: "string \<Rightarrow> string list \<Rightarrow> string" where
  "dotted t [] = t"
| "dotted t (n # ns) = dotted ((if t = [] then [] else t @ ''.'') @ n) ns"

lemma oid_name_names:
  assumes "walk_names ts cur = Inr cs" "tree_wf cur" "(if t = [] then 0 else length t + 1) + longest cur \<le> 64"
  shows "oid_name (map ctl_oid cs) cur t = Some (Inr (dotted t (map ctl_name cs)))"
  using assms
proof (induction ts cur arbitrary: cs t rule: walk_names.induct)
  case (3 s ts n e m subs)
  then obtain c cs' where c: "find (\<lambda>d. ctl_name d = s) subs = Some c" "walk_names ts c = Inr cs'" "cs = c # cs'"
    by (auto split: option.splits sum.splits)
  have sub: "c \<in> set subs" using find_Some_in [OF c(1)] by simp
  then have wf: "tree_wf c" "ctl_name c \<noteq> []" "find (\<lambda>d. ctl_oid d = ctl_oid c) subs = Some c"
    using 3(3) by (auto simp: list_all_iff find_oid)
  let ?t = "(if t = [] then [] else t @ ''.'') @ ctl_name c"
  have len: "length ?t + 1 + longest c \<le> 64" using 3(4) longest_sub [OF sub, of n e m] by (auto simp del: longest.simps split: if_splits)
  have "oid_name (map ctl_oid cs') c ?t = Some (Inr (dotted ?t (map ctl_name cs')))"
    using 3(1) [OF c(1,2) wf(1), of ?t] len wf(2) by (simp del: append_assoc)
  moreover have "cs' = []" if "\<not> is_Node c" using c(2) that by (cases ts; cases c) auto
  ultimately show ?case using wf(3) c(3) len by - (cases c; auto simp: Let_def)
qed auto

text \<open>No list of numbers overruns the array of the name.\<close>

lemma oid_name_safe: "(if t = [] then 0 else length t + 1) + longest cur \<le> 64 \<Longrightarrow> tree_wf cur \<Longrightarrow> oid_name ns cur t \<noteq> None"
proof (induction ns cur t rule: oid_name.induct)
  case (1 n ns a b c subs t)
  show ?case
  proof (cases "find (\<lambda>d. ctl_oid d = n) subs")
    case (Some d)
    then have sub: "d \<in> set subs" using find_Some_in by fast
    let ?t = "(if t = [] then [] else t @ ''.'') @ ctl_name d"
    have wf: "tree_wf d" "ctl_name d \<noteq> []" using sub 1(3) by (auto simp: list_all_iff)
    have len: "length ?t + 1 + longest d \<le> 64" using 1(2) longest_sub [OF sub, of a b c] by (auto simp del: longest.simps split: if_splits)
    show ?thesis using 1(1) [OF Some refl, of _ _ _ _] Some len wf by - (cases d; auto simp: Let_def split: if_splits)
  qed simp
qed auto

section \<open>Lemmas on the information on processes\<close>

lemma next_stat_elem_word:
  assumes "word s" "hd s \<noteq> CHR ''(''"
  shows "next_stat_elem (Some (s @ CHR '' '' # r)) = Some (Some s, Some r)"
proof -
  obtain c s' where s: "s = c # s'" using assms(1) by (cases s) (auto simp: word_def)
  have "\<forall>d \<in> set s. d \<noteq> CHR '' ''" using assms(1) by (auto simp: word_def)
  then have "takeWhile (\<lambda>d. d \<noteq> CHR '' '') (s @ CHR '' '' # r) = s" "dropWhile (\<lambda>d. d \<noteq> CHR '' '') (s @ CHR '' '' # r) = CHR '' '' # r"
    by (auto simp: takeWhile_append2 dropWhile_append2)
  then show ?thesis using assms(2) unfolding s by (simp add: next_stat_elem_def)
qed

lemma next_stat_elem_comm:
  assumes "CHR '')'' \<notin> set s"
  shows "next_stat_elem (Some (CHR ''('' # s @ CHR '')'' # CHR '' '' # r)) = Some (Some s, Some r)"
proof -
  have "\<forall>d \<in> set s. d \<noteq> CHR '')''" using assms by auto
  then show ?thesis by (simp add: next_stat_elem_def takeWhile_append2 dropWhile_append2)
qed

text \<open>The scan over words that are each followed by a zero byte, and a last one.\<close>

lemma procargs_scan_char: "i < 2047 \<Longrightarrow> c \<noteq> NUL \<Longrightarrow>
    procargs_scan (c # cs) i prev argc arg0 = procargs_scan cs (Suc i) False argc arg0"
  by (auto simp: Let_def)

lemma procargs_scan_nul: "i < 2047 \<Longrightarrow>
    procargs_scan (NUL # cs) i prev argc arg0 =
      (if prev then Some (Suc argc, if argc = 0 then i else arg0, i)
       else procargs_scan cs (Suc i) True (Suc argc) (if argc = 0 then i else arg0))"
  by (auto simp: Let_def)

declare procargs_scan.simps(2) [simp del]
declare procargs_scan_char [simp] procargs_scan_nul [simp]

lemma procargs_scan_word:
  assumes "NUL \<notin> set a" "a \<noteq> []" "i + length a < 2047"
  shows "procargs_scan (a @ NUL # r) i prev argc arg0 =
    procargs_scan r (i + length a + 1) True (argc + 1) (if argc = 0 then i + length a else arg0)"
  using assms
proof (induction a arbitrary: i prev)
  case (Cons c a)
  show ?case
  proof (cases "a = []")
    case False
    then show ?thesis using Cons.IH [of "Suc i" False] Cons.prems by auto
  qed (use Cons.prems in auto)
qed simp

fun nul_words :: "string list \<Rightarrow> string" where
  "nul_words [] = []"
| "nul_words (a # as) = a @ NUL # nul_words as"

lemma procargs_scan_words:
  assumes "list_all (\<lambda>a. a \<noteq> [] \<and> NUL \<notin> set a) as" "i + length (nul_words as) < 2047" "0 < argc" "0 < i"
  shows "procargs_scan (nul_words as @ [NUL]) i True argc arg0 = Some (argc + length as + 1, arg0, i + length (nul_words as))"
  using assms
proof (induction as arbitrary: i argc)
  case (Cons a as)
  then show ?case using procargs_scan_word [of a i "nul_words as @ [NUL]" True argc arg0] by (simp add: ac_simps)
qed simp

lemma procargs_scan_all:
  assumes "list_all (\<lambda>a. a \<noteq> [] \<and> NUL \<notin> set a) (a # as)" "length (nul_words (a # as)) < 2047"
  shows "procargs_scan (nul_words (a # as) @ [NUL]) 0 False 0 0 = Some (length as + 2, length a, length (nul_words (a # as)))"
  using assms procargs_scan_word [of a 0 "nul_words as @ [NUL]" False 0 0] procargs_scan_words [of as "length a + 1" 1 "length a"]
  by simp

section \<open>Properties\<close>

lemma dotted_length:
  assumes "walk_names ts cur = Inr cs" "(if t = [] then 0 else length t + 1) + longest cur \<le> 64" "tree_wf cur"
  shows "length (dotted t (map ctl_name cs)) < 64"
  using assms
proof (induction ts cur arbitrary: cs t rule: walk_names.induct)
  case (3 s ts n e m subs)
  then obtain c cs' where c: "find (\<lambda>d. ctl_name d = s) subs = Some c" "walk_names ts c = Inr cs'" "cs = c # cs'"
    by (auto split: option.splits sum.splits)
  have sub: "c \<in> set subs" using find_Some_in [OF c(1)] by simp
  have "tree_wf c" using sub 3(4) by (auto simp: list_all_iff)
  moreover have "length ((if t = [] then [] else t @ ''.'') @ ctl_name c) + 1 + longest c \<le> 64"
    using 3(3) longest_sub [OF sub, of n e m] by (auto simp del: longest.simps split: if_splits)
  ultimately show ?case using 3(1) [OF c(1,2)] c(3) by (auto split: if_splits)
qed (auto split: if_splits)

lemma int_encs_length: "length (concat (map int_enc is)) = 4 * length is"
  by (induction "is") auto

text \<open>
  C33: Names and numbers of system parameters correspond. For every name that the tree has, \<^verbatim>\<open>name_to_oid\<close>
  stores its numbers in the buffer, inside the array of four, and \<^verbatim>\<open>oid_to_name\<close> of these numbers gives back
  the words of the name with single dots between them, inside the array of 64 bytes.
\<close>

theorem sysctl_name_roundtrip:
  assumes "walk_names (dot_tokens [] (strlcpy name 128)) sysctls_root = Inr cs" "oid = map ctl_oid cs"
    and "nm = dotted [] (dot_tokens [] (strlcpy name 128))" "16 \<le> length m" "64 \<le> length m'"
  shows "run_name_to_oid name (Some m, length m) =
      Some (0, Some (concat (map int_enc oid) @ drop (4 * length oid) m), 4 * length oid) \<and>
    run_oid_to_name (0 # 1 # oid) (Some m', length m') =
      Some (0, Some (c_bytes nm @ drop (length nm + 1) m'), length nm)"
proof -
  have bounds: "length cs \<le> 4" "length oid \<le> 4"
    using walk_names_depth [OF assms(1)] by (simp_all add: sysctls_root_bounds assms(2))
  have nm: "nm = dotted [] (map ctl_name cs)" using walk_names_names [OF assms(1)] assms(3) by simp
  have "length nm < 64"
    unfolding nm using dotted_length [OF assms(1), of "[]"] by (simp add: sysctls_root_bounds sysctls_root_wf)
  moreover have "oid_name oid sysctls_root [] = Some (Inr nm)"
    unfolding nm assms(2) by (rule oid_name_names [OF assms(1) sysctls_root_wf]) (simp add: sysctls_root_bounds)
  ultimately have "run_oid_to_name (0 # 1 # oid) (Some m', length m') = Some (0, Some (c_bytes nm @ drop (length nm + 1) m'), length nm)"
    using assms(5) by (cases m') (simp_all add: run_oid_to_name_def copyout_string_def strlcpy_def store_def c_bytes_def)
  moreover have "oids_of name = Some (Inr oid)" using assms(1,2) bounds(1) by (simp add: oids_of_def)
  then have "run_name_to_oid name (Some m, length m) = Some (0, Some (concat (map int_enc oid) @ drop (4 * length oid) m), 4 * length oid)"
    using assms(4) bounds(2) by (simp add: run_name_to_oid_def store_def int_encs_length)
  ultimately show ?thesis by blast
qed

lemma walk_osrelease: "walk_names (dot_tokens [] (strlcpy ''kern.osrelease'' 128)) sysctls_root =
    Inr [Node 1 [] ''kern'' sysctls_kern, Leaf 2 CTLTYPE_STRING ''S'' ''osrelease'' handle_osrelease]"
  by (simp add: strlcpy_def sysctls_root_def sysctls_kern_def)

theorem sysctl_name_roundtrip_witness:
  "run_name_to_oid ''kern.osrelease'' (Some (replicate 16 0), 16) = Some (0, Some (int_enc 1 @ int_enc 2 @ replicate 8 0), 8) \<and>
   run_oid_to_name [0, 1, 1, 2] (Some (replicate 64 0), 64) = Some (0, Some (c_bytes ''kern.osrelease'' @ replicate 49 0), 14)"
  using sysctl_name_roundtrip [OF walk_osrelease refl refl, of "replicate 16 0" "replicate 64 0"]
  by (simp add: strlcpy_def)



text \<open>
  The brand of the processor has the name of its vendor: it is not found by its own name, and its numbers
  are named like those of the vendor.
\<close>

lemma brand_string_hidden:
  "oids_of ''machdep.cpu.brand_string'' = Some (Inl (- 2))" "oids_of ''machdep.cpu.vendor'' = Some (Inr [7, 1000, 1000])"
  "oid_name [7, 1000, 1005] sysctls_root [] = Some (Inr ''machdep.cpu.vendor'')"
  by (simp_all add: oids_of_def strlcpy_def sysctls_root_def sysctls_machdep_def)


definition blank_proc :: kinfo_proc where
  "blank_proc = \<lparr>p_pid = 42, p_lp64 = True, p_comm = [], p_stat = SSLEEP, e_ppid = 0, e_pgid = 0, e_tdev = 0, p_controlt = False,
     p_priority = 0, p_nice = 0, e_uid = 0, e_gid = 0\<rparr>"


text \<open>
  The arguments of a process are handed over in the layout of macOS: the count, the first argument
  as the path of the executable, and all arguments, each ended by a zero byte. The count is one more
  than there are arguments, because the zero byte behind the last one is counted too.
\<close>

lemma procargs_layout:
  assumes "list_all (\<lambda>a. a \<noteq> [] \<and> NUL \<notin> set a) (a # as)" "ws = nul_words (a # as)" "length ws < 2047"
    and "n = 4 + length a + 2 + length ws + 1" "n \<le> length m"
  shows "procargs_bytes (ws @ [NUL]) (Some m, length m) =
    Some (0, Some (int_enc (int (length (a # as)) + 1) @ map of_char a @ [0, 0] @ map of_char ws @ [0] @ drop n m), n)"
proof -
  have scan: "procargs_scan (ws @ [NUL]) 0 False 0 0 = Some (length as + 2, length a, length ws)"
    using procargs_scan_all [OF assms(1)] assms(2,3) by simp
  have c: "cstr (ws @ [NUL]) = a" using assms(1,2) cstr_terminated [of a] by (simp add: is_cstr_def)
  show ?thesis
    using assms(4,5) by (simp add: procargs_bytes_def scan c store_def c_bytes_def) (auto simp: drop_Cons' ac_simps)
qed

lemma procargs_layout_witness:
  "procargs_bytes (''ls'' @ [NUL] @ ''-l'' @ [NUL, NUL]) (Some (replicate 15 9), 15) =
     Some (0, Some (int_enc 3 @ map of_char ''ls'' @ [0, 0] @ map of_char (''ls'' @ [NUL] @ ''-l'' @ [NUL]) @ [0]), 15)"
  using procargs_layout [of "''ls''" "[''-l'']" _ 15 "replicate 15 9"] by simp

end
