(* ===== verification/Process.thy ===== *)
theory Process
  imports Dirent Signals Simple
begin

text \<open>
  Processes, \<^verbatim>\<open>src/kernel/emulation/linux/process/\<close>: the translation of wait statuses and options
  (\<^verbatim>\<open>wait4.c\<close>, \<^verbatim>\<open>waitid.c\<close>), \<^verbatim>\<open>fork.c\<close>, \<^verbatim>\<open>vfork.c\<close>, the priorities, the execution of programs and of
  scripts (\<^verbatim>\<open>execve.c\<close>) and \<^verbatim>\<open>posix_spawn.c\<close> with its attributes and file actions.

  The record \<open>proccalls\<close> collects the calls of Linux and of the kernel module that the code relies
  on. The two functions that do not come back, a successful \<^verbatim>\<open>execve\<close> and \<^verbatim>\<open>exit\<close>, are outcomes of the
  type \<open>outcome\<close>. An access outside an array is \<open>None\<close>.
\<close>

section \<open>Waiting\<close>

definition waitopts_tab :: "(u32 \<times> u32) list" where
  "waitopts_tab = [(1, 1), (2, 2), (4, 4), (8, 2), (0x10, 8), (0x20, 0x1000000)]"

definition waitopts_bsd_to_linux :: "u32 \<Rightarrow> u32" where
  "waitopts_bsd_to_linux options = xlat waitopts_tab options 0"

text \<open>
  The status word of Linux rewritten in place: a terminated process, a continued one, a stopped one.
  The shift of the signed word is arithmetic.
\<close>

definition wait_status :: "u32 \<Rightarrow> u32" where
  "wait_status s =
     (if s AND 0x7f \<noteq> 0x7f then (s AND NOT 0x7f) OR word_of_int (signum_linux_to_bsd (sint (s AND 0x7f)))
      else if s = 0xffff then 0x7f OR push_bit 8 0x13
      else (s AND 0x7f) OR push_bit 8 (word_of_int (signum_linux_to_bsd (sint s div 256))))"

text \<open>
  \<^verbatim>\<open>sys_wait4_nocancel\<close>: \<open>status\<close> is what the caller's variable holds, or the local one that replaces
  a null pointer; Linux leaves it alone where it reports no process. The second result is what
  the variable holds afterwards.
\<close>

definition sys_wait4_nocancel :: "'w kernel \<Rightarrow> int \<Rightarrow> u32 \<Rightarrow> u32 \<Rightarrow> 'w \<Rightarrow> (int \<times> u32) \<times> 'w" where
  "sys_wait4_nocancel K pid status options w =
     (let ((ret, out), w) =
        sysc_ints K ''wait4'' [AInt pid, AInt (sint (waitopts_bsd_to_linux options))] w;
        status = (case out of [] \<Rightarrow> status | s # _ \<Rightarrow> word_of_int s) in
      if ret < 0 then ((errno_linux_to_bsd ret, status), w) else ((ret, wait_status status), w))"

record simple_siginfo =
  ssi_signo :: int
  ssi_errno :: int
  ssi_code :: int

text \<open>\<^verbatim>\<open>sys_waitid\<close> with a pointer to a structure; Linux fills it, or leaves it alone.\<close>

definition sys_waitid ::
    "'w kernel \<Rightarrow> int \<Rightarrow> int \<Rightarrow> simple_siginfo option \<Rightarrow> u32 \<Rightarrow> 'w \<Rightarrow> ((int \<times> simple_siginfo option) \<times> 'w) option" where
  "sys_waitid K idtype i si options w =
     (let ((ret, out), w) =
        sysc_ints K ''waitid'' [AInt idtype, AInt i, AInt (sint (waitopts_bsd_to_linux options))] w;
        fill = (\<lambda>si. case out of [] \<Rightarrow> Some si
          | [a, b, c] \<Rightarrow> Some \<lparr>ssi_signo = a, ssi_errno = b, ssi_code = c\<rparr> | _ \<Rightarrow> None) in
      case si of
        None \<Rightarrow> Some ((ret_bsd ret, None), w)
      | Some si \<Rightarrow> do {
          si \<leftarrow> fill si;
          Some (if ret < 0 then ((errno_linux_to_bsd ret, Some si), w)
            else ((ret, Some (si\<lparr>ssi_signo := signum_linux_to_bsd (ssi_signo si),
                                 ssi_errno := errno_linux_to_bsd (ssi_errno si)\<rparr>)), w)) })"

section \<open>Processes and priorities\<close>

definition sys_fork :: "'w kernel \<Rightarrow> tsd \<Rightarrow> 'w \<Rightarrow> int \<times> 'w" where
  "sys_fork K t w =
     (let wdfd = get_perthread_wd t;
          (ret, w) = sysc K ''clone'' [AInt LINUX_SIGCHLD, AInt 0] w in
      if ret < 0 then (errno_linux_to_bsd ret, w)
      else if ret = 0 \<and> wdfd \<ge> 0 then (ret, snd (sys_fchdir K wdfd w))
      else (ret, w))"

definition sys_vfork :: "'w kernel \<Rightarrow> 'w \<Rightarrow> int \<times> 'w" where
  "sys_vfork K w = linux_call K ''clone'' [AInt LINUX_SIGCHLD, AInt 0] w"

text \<open>The priorities are handed on as they are, and so are the errors.\<close>

definition sys_getpriority :: "'w kernel \<Rightarrow> int \<Rightarrow> int \<Rightarrow> 'w \<Rightarrow> int \<times> 'w" where
  "sys_getpriority K which who w = sysc K ''getpriority'' [AInt which, AInt who] w"

definition sys_setpriority :: "'w kernel \<Rightarrow> int \<Rightarrow> int \<Rightarrow> int \<Rightarrow> 'w \<Rightarrow> int \<times> 'w" where
  "sys_setpriority K which who prio w = sysc K ''setpriority'' [AInt which, AInt who, AInt prio] w"

section \<open>The calls\<close>

text \<open>
  \<open>pc_execve\<close> is Linux's \<^verbatim>\<open>execve\<close>, with \<open>None\<close> for success; \<open>pc_va_int\<close> is the eight-byte slot in which
  an \<^verbatim>\<open>int\<close> is passed to a variadic function, whose upper half the calling convention leaves open;
  \<open>pc_sigrtmin\<close> is the host's first real-time signal, which the build writes into a header;
  \<open>pc_stack\<close> and \<open>pc_stack64\<close> are what the local arrays of 256 and 64 bytes hold at first.
\<close>

record 'w proccalls =
  pc_vfs :: "'w vfs"
  pc_file :: "'w filecalls"
  pc_sys :: "'w kernel"
  pc_sig :: "'w sigcalls"
  pc_execve :: "string \<Rightarrow> string list \<Rightarrow> string list \<Rightarrow> 'w \<Rightarrow> int option \<times> 'w"
  pc_native_exit :: "int \<Rightarrow> 'w \<Rightarrow> 'w"
  pc_stop_after_exec :: "'w \<Rightarrow> 'w"
  pc_mach_driver_init :: "'w \<Rightarrow> 'w"
  pc_va_int :: "u32 \<Rightarrow> u64"
  pc_sigrtmin :: nat
  pc_stack :: "char list"
  pc_stack64 :: "char list"

datatype outcome = Execed | Returned int | Exited int

text \<open>The strings of an array of pointers that ends in a null pointer.\<close>

definition vector_strings :: "string option list \<Rightarrow> string list option" where
  "vector_strings v = (if None \<in> set v then Some (map the (takeWhile (\<lambda>x. x \<noteq> None) v)) else None)"

section \<open>Executing a program\<close>

definition isspace :: "char \<Rightarrow> bool" where
  "isspace c \<longleftrightarrow> (of_char c :: nat) = 32 \<or> 9 \<le> (of_char c :: nat) \<and> (of_char c :: nat) \<le> 13"

definition istext :: "char \<Rightarrow> bool" where
  "istext c \<longleftrightarrow> 32 \<le> (of_char c :: nat) \<and> (of_char c :: nat) < 127"

text \<open>
  The array \<^verbatim>\<open>shebang\<close> after the test of its first four bytes, if the file is a script: a text
  file without an interpreter is given the line of the shell.
\<close>

definition script_head :: "int \<Rightarrow> string \<Rightarrow> string option" where
  "script_head ret shebang =
     (if ret \<ge> 4 then
        if take 2 shebang = ''#!'' then Some shebang
        else if list_all istext (take 4 shebang) then Some (''#!/bin/sh'' @ [CHR 0x0A, NUL] @ drop 11 shebang)
        else None
      else None)"

text \<open>The interpreter and its argument, from the first line without its first two characters.\<close>

definition script_words :: "string \<Rightarrow> string \<times> string option" where
  "script_words line =
     (let interp = dropWhile isspace line;
          rest = dropWhile (\<lambda>c. \<not> isspace c) interp;
          arg = dropWhile isspace (tl rest) in
      (takeWhile (\<lambda>c. \<not> isspace c) interp, if rest = [] \<or> arg = [] then None else Some arg))"

text \<open>
  The new argument vector of \<^verbatim>\<open>len + 2\<close> pointers, where \<^verbatim>\<open>len\<close> counts the null pointer that ends the
  old one. The loop runs from \<^verbatim>\<open>1\<close> to \<^verbatim>\<open>len\<close>.
\<close>

definition script_argv :: "string option list \<Rightarrow> string \<Rightarrow> string option \<Rightarrow> string \<Rightarrow> string option list option" where
  "script_argv argvp interp arg fname =
     (let len = length (takeWhile (\<lambda>x. x \<noteq> None) argvp) + 1;
          front = [Some interp] @ (case arg of None \<Rightarrow> [] | Some a \<Rightarrow> [Some a]) @ [Some fname] in
      if None \<notin> set argvp \<or> length argvp < len + 1 \<or> len + 2 < length front + len then None
      else Some (front @ take len (tl argvp)))"

definition sigexc_suspend_set :: "'w proccalls \<Rightarrow> u64" where
  "sigexc_suspend_set P = push_bit (pc_sigrtmin P - 1) 1"

text \<open>The end of \<^verbatim>\<open>sys_execve\<close>, with the suspension signal blocked.\<close>

definition run_image ::
    "'w proccalls \<Rightarrow> string \<Rightarrow> string option list \<Rightarrow> string option list \<Rightarrow> 'w \<Rightarrow> (outcome \<times> 'w) option" where
  "run_image P path argvp envp w = do {
     argv \<leftarrow> vector_strings argvp;
     env \<leftarrow> vector_strings envp;
     let (_, w) = rt_sigprocmask (pc_sig P) 0 (Some (sigexc_suspend_set P)) w;
         (ret, w) = pc_execve P path argv env w in
     case ret of
       None \<Rightarrow> Some (Execed, w)
     | Some ret \<Rightarrow>
         let (_, w) = rt_sigprocmask (pc_sig P) 1 (Some (sigexc_suspend_set P)) w in Some (Returned (ret_bsd ret), w) }"

abbreviation (input) ENOEXEC :: int where "ENOEXEC \<equiv> 8"

text \<open>
  The part of \<^verbatim>\<open>sys_execve\<close> after the file has been read: \<open>shebang\<close> is the array of 256 bytes, \<open>vpath\<close>
  the expanded path.
\<close>

definition execve_loaded ::
    "'w proccalls \<Rightarrow> tsd \<Rightarrow> string \<Rightarrow> string \<Rightarrow> int \<Rightarrow> string \<Rightarrow> string option list \<Rightarrow> string option list \<Rightarrow>
     string option \<Rightarrow> 'w \<Rightarrow> (outcome \<times> string option \<times> 'w) option" where
  "execve_loaded P t fname vpath ret shebang argvp envp st w =
     (case script_head ret shebang of
        None \<Rightarrow> do { (out, w) \<leftarrow> run_image P vpath argvp envp w; Some (out, st, w) }
      | Some a \<Rightarrow>
          if CHR 0x0A \<notin> set (take (nat ret) a) then Some (Returned (- ENOEXEC), st, w)
          else let (interp, arg) = script_words (cstr (drop 2 (takeWhile (\<lambda>c. c \<noteq> CHR 0x0A) a))) in do {
            argvp \<leftarrow> script_argv argvp interp arg fname;
            (ret, path, st, w) \<leftarrow> vchroot_expand (pc_vfs P)
               \<lparr>ea_path = interp, ea_dfd = get_perthread_wd t, ea_follow = True\<rparr> st w;
            if ret < 0 then Some (Returned ret, st, w)
            else do { (out, w) \<leftarrow> run_image P path argvp envp w; Some (out, st, w) } })"

text \<open>The array after a read: the bytes read in front of what it held.\<close>

definition read_into :: "char list \<Rightarrow> u8 list \<Rightarrow> char list" where
  "read_into a bs = map (char_of \<circ> unat) bs @ drop (length bs) a"

definition sys_execve ::
    "'w proccalls \<Rightarrow> tsd \<Rightarrow> string \<Rightarrow> string option list \<Rightarrow> string option list \<Rightarrow> string option \<Rightarrow> 'w \<Rightarrow>
     (outcome \<times> string option \<times> 'w) option" where
  "sys_execve P t fname argvp envp st w = do {
     (r, st, w) \<leftarrow> expand_path (pc_vfs P) (get_perthread_wd t) fname True st w;
     case r of
       Inl e \<Rightarrow> Some (Returned e, st, w)
     | Inr vpath \<Rightarrow> do {
         (fd, st, w) \<leftarrow> sys_open_nocancel (pc_vfs P) (pc_file P) t (Some fname) 0 0 st w;
         if fd < 0 then Some (Returned fd, st, w)
         else let ((ret, bs), w) = sys_read_nocancel (pc_sys P) fd 256 w in
           if ret < 0 then Some (Returned ret, st, w)
           else let (_, w) = close_internal (pc_sys P) fd w in
             execve_loaded P t fname vpath ret (read_into (pc_stack P) bs) argvp envp st w } }"

section \<open>Spawning: the attributes\<close>

text \<open>
  A step of the child: it goes on, or jumps to \<^verbatim>\<open>fail\<close> with \<^verbatim>\<open>ret\<close>. Steps are composed in sequence.
\<close>

type_synonym 'w spawn_step = "string option \<Rightarrow> 'w \<Rightarrow> (int option \<times> string option \<times> 'w) option"

definition and_then :: "'w spawn_step \<Rightarrow> 'w spawn_step \<Rightarrow> 'w spawn_step" where
  "and_then f g st w = do {
     (r, st, w) \<leftarrow> f st w;
     case r of Some ret \<Rightarrow> Some (Some ret, st, w) | None \<Rightarrow> g st w }"

definition go_on :: "'w spawn_step" where
  "go_on st w = Some (None, st, w)"

definition on_flag :: "u16 \<Rightarrow> u16 \<Rightarrow> 'w spawn_step \<Rightarrow> 'w spawn_step" where
  "on_flag flags m f = (if flags AND m \<noteq> 0 then f else go_on)"

abbreviation (input) POSIX_SPAWN_RESETIDS :: u16 where "POSIX_SPAWN_RESETIDS \<equiv> 1"
abbreviation (input) POSIX_SPAWN_SETPGROUP :: u16 where "POSIX_SPAWN_SETPGROUP \<equiv> 2"
abbreviation (input) POSIX_SPAWN_SETSIGMASK :: u16 where "POSIX_SPAWN_SETSIGMASK \<equiv> 8"
abbreviation (input) POSIX_SPAWN_SETEXEC :: u16 where "POSIX_SPAWN_SETEXEC \<equiv> 0x40"
abbreviation (input) POSIX_SPAWN_START_SUSPENDED :: u16 where "POSIX_SPAWN_START_SUSPENDED \<equiv> 0x80"
abbreviation (input) POSIX_SPAWN_DISABLE_ASLR :: u16 where "POSIX_SPAWN_DISABLE_ASLR \<equiv> 0x100"
abbreviation (input) POSIX_SPAWN_CLOEXEC_DEFAULT :: u16 where "POSIX_SPAWN_CLOEXEC_DEFAULT \<equiv> 0x4000"
abbreviation (input) LINUX_ADDR_NO_RANDOMIZE :: u32 where "LINUX_ADDR_NO_RANDOMIZE \<equiv> 0x40000"
abbreviation (input) F_GETFD :: int where "F_GETFD \<equiv> 1"

record posix_spawnattr =
  psa_flags :: u16
  psa_sigmask :: u32
  psa_pgroup :: u32
  psa_binprefs :: "u32 list"

definition spawn_resetids :: "'w proccalls \<Rightarrow> 'w spawn_step" where
  "spawn_resetids P st w =
     (let (gid, w) = sys_getgid (pc_sys P) w; (_, w) = sys_setgid (pc_sys P) gid w;
          (uid, w) = sys_getuid (pc_sys P) w; (_, w) = sys_setuid (pc_sys P) uid w in
      go_on st w)"

definition spawn_setpgroup :: "'w proccalls \<Rightarrow> u32 \<Rightarrow> 'w spawn_step" where
  "spawn_setpgroup P pgroup st w =
     (let (ret, w) = sys_setpgid (pc_sys P) 0 (sint pgroup) w in
      Some (if ret \<noteq> 0 then Some ret else None, st, w))"

definition spawn_setsigmask :: "'w proccalls \<Rightarrow> u32 \<Rightarrow> 'w spawn_step" where
  "spawn_setsigmask P sset st w =
     (let (ret, _, w) = sys_sigprocmask (pc_sig P) 3 (Some sset) False w in
      Some (if ret \<noteq> 0 then Some ret else None, st, w))"

definition spawn_disable_aslr :: "'w proccalls \<Rightarrow> 'w spawn_step" where
  "spawn_disable_aslr P st w =
     (let (ret, w) = sysc (pc_sys P) ''personality'' [AInt 0xffffffff] w; pers = (word_of_int ret :: u32) in
      if pers AND LINUX_ADDR_NO_RANDOMIZE = 0
      then go_on st (snd (sysc (pc_sys P) ''personality'' [AInt (uint (pers OR LINUX_ADDR_NO_RANDOMIZE))] w))
      else go_on st w)"

text \<open>One descriptor is given a new \<^verbatim>\<open>FD_CLOEXEC\<close>, as a function of its flags.\<close>

definition spawn_fd_flags :: "'w proccalls \<Rightarrow> int \<Rightarrow> (int \<Rightarrow> int) \<Rightarrow> 'w spawn_step" where
  "spawn_fd_flags P fd f st w = do {
     ((ret, _), st, w) \<leftarrow> sys_fcntl_nocancel (pc_vfs P) (pc_file P) fd F_GETFD (BNum 0) st w;
     if ret < 0 then Some (Some ret, st, w)
     else do {
       ((ret, _), st, w) \<leftarrow> sys_fcntl_nocancel (pc_vfs P) (pc_file P) fd F_SETFD (BNum (word_of_int (f ret))) st w;
       Some (if ret < 0 then Some ret else None, st, w) } }"

definition entry_fd :: "u8 list \<Rightarrow> int" where
  "entry_fd name = sint (ucast (fst (simple_atoi (map (char_of \<circ> unat) name))) :: u32)"

text \<open>The entries of one buffer; an entry of length 0, at which the loop stays, is \<open>None\<close>.\<close>

function cloexec_entries :: "'w proccalls \<Rightarrow> u8 list \<Rightarrow> nat \<Rightarrow> nat \<Rightarrow> 'w spawn_step" where
  "cloexec_entries P buf len i st w =
     (if i < len then do {
        name \<leftarrow> cstring_at (i + 19) buf;
        reclen \<leftarrow> load 2 (i + 16) buf;
        if reclen = 0 then None
        else if (name \<noteq> [] \<and> hd name = 46) \<or> entry_fd name = 1023 then
          cloexec_entries P buf len (i + reclen) st w
        else do {
          (r, st, w) \<leftarrow> spawn_fd_flags P (entry_fd name) (\<lambda>fl. fl OR 1) st w;
          case r of Some ret \<Rightarrow> Some (Some ret, st, w) | None \<Rightarrow> cloexec_entries P buf len (i + reclen) st w } }
      else Some (None, st, w))"
  by pat_completeness auto
termination
  by (relation "measure (\<lambda>(P, buf, len, i, st, w). len - i)") auto

text \<open>
  The loop over the buffers. It ends when Linux has no more entries, which is up to Linux: not
  returning is \<open>None\<close>.
\<close>

partial_function (option) cloexec_loop :: "'w proccalls \<Rightarrow> int \<Rightarrow> 'w spawn_step" where
  "cloexec_loop P dir st w =
     (let ((len, buf), w) = sysc_buf (pc_sys P) ''getdents64'' [AInt dir, AInt 4096] w in
      if len > 0 then
        Option.bind (cloexec_entries P buf (nat len) 0 st w) (\<lambda>(r, st, w).
          case r of
            Some ret \<Rightarrow> Some (Some ret, st, snd (close_internal (pc_sys P) dir w))
          | None \<Rightarrow> cloexec_loop P dir st w)
      else
        let (_, w) = close_internal (pc_sys P) dir w in
        Some (if len < 0 then Some len else None, st, w))"

definition spawn_cloexec_default :: "'w proccalls \<Rightarrow> tsd \<Rightarrow> 'w spawn_step" where
  "spawn_cloexec_default P t st w = do {
     (dir, st, w) \<leftarrow> sys_open_nocancel (pc_vfs P) (pc_file P) t (Some ''/proc/self/fd'') 0 0 st w;
     if dir < 0 then Some (Some dir, st, w) else cloexec_loop P dir st w }"

definition spawn_attrs :: "'w proccalls \<Rightarrow> tsd \<Rightarrow> posix_spawnattr \<Rightarrow> 'w spawn_step" where
  "spawn_attrs P t a =
     (let fl = psa_flags a in
      and_then (on_flag fl POSIX_SPAWN_RESETIDS (spawn_resetids P))
     (and_then (on_flag fl POSIX_SPAWN_SETPGROUP (spawn_setpgroup P (psa_pgroup a)))
     (and_then (on_flag fl POSIX_SPAWN_SETSIGMASK (spawn_setsigmask P (psa_sigmask a)))
     (and_then (on_flag fl POSIX_SPAWN_DISABLE_ASLR (spawn_disable_aslr P))
     (and_then (on_flag fl POSIX_SPAWN_START_SUSPENDED (\<lambda>st w. go_on st (pc_stop_after_exec P w)))
       (on_flag fl POSIX_SPAWN_CLOEXEC_DEFAULT (spawn_cloexec_default P t)))))))"

section \<open>Spawning: the file actions\<close>

datatype psfa =
    PSFA_OPEN (psfao_oflag: u32) (psfao_mode: u32) (psfao_path: string)
  | PSFA_CLOSE
  | PSFA_DUP2 (psfad_newfiledes: int)
  | PSFA_INHERIT
  | PSFA_FILEPORT_DUP2
  | PSFA_CHDIR (psfac_path: string)
  | PSFA_FCHDIR

record psfa_action =
  psfaa_type :: psfa
  psfaa_filedes :: int

definition spawn_act :: "'w proccalls \<Rightarrow> tsd \<Rightarrow> psfa_action \<Rightarrow> 'w spawn_step" where
  "spawn_act P t act st w =
     (let fd = psfaa_filedes act; failing = (\<lambda>ret :: int. if ret < 0 then Some ret else None) in
      case psfaa_type act of
        PSFA_CLOSE \<Rightarrow>
          let (ret, w) = close_internal (pc_sys P) fd w in Some (if ret \<noteq> 0 then Some ret else None, st, w)
      | PSFA_DUP2 newfd \<Rightarrow>
          let (ret, w) = sys_dup2 (pc_sys P) fd newfd w in Some (failing ret, st, w)
      | PSFA_OPEN oflag mode path \<Rightarrow> do {
          (ret, st, w) \<leftarrow> sys_open_nocancel (pc_vfs P) (pc_file P) t (Some path) oflag mode st w;
          if ret < 0 \<or> ret = fd then Some (failing ret, st, w)
          else let (ret', w) = sys_dup2 (pc_sys P) ret fd w in
            if ret' < 0 then Some (Some ret', st, snd (close_internal (pc_sys P) ret w))
            else Some (None, st, w) }
      | PSFA_CHDIR path \<Rightarrow> do {
          (ret, st, w) \<leftarrow> sys_chdir (pc_vfs P) (pc_sys P) t path st w;
          Some (failing ret, st, w) }
      | PSFA_FCHDIR \<Rightarrow>
          let (ret, w) = sys_fchdir (pc_sys P) fd w in Some (failing ret, st, w)
      | PSFA_INHERIT \<Rightarrow> spawn_fd_flags P fd (\<lambda>fl. fl AND NOT 1) st w
      | PSFA_FILEPORT_DUP2 \<Rightarrow> go_on st w)"

text \<open>The pipe to the parent is moved out of the way of an action; the rest of the loop uses the new descriptor.\<close>

definition act_hits :: "psfa_action \<Rightarrow> int \<Rightarrow> bool" where
  "act_hits act fd \<longleftrightarrow> psfaa_filedes act = fd \<or> psfaa_type act = PSFA_DUP2 fd"

definition move_pipe :: "'w kernel \<Rightarrow> psfa_action \<Rightarrow> int \<Rightarrow> 'w \<Rightarrow> (int option \<times> int) \<times> 'w" where
  "move_pipe K act pipe1 w =
     (if act_hits act pipe1 then
        let (ret, w) = sys_dup K pipe1 w in
        if ret < 0 then ((Some ret, pipe1), w)
        else ((None, ret), snd (close_internal K pipe1 w))
      else ((None, pipe1), w))"

fun spawn_actions ::
    "'w proccalls \<Rightarrow> tsd \<Rightarrow> psfa_action list \<Rightarrow> int \<Rightarrow> string option \<Rightarrow> 'w \<Rightarrow>
     ((int option \<times> int) \<times> string option \<times> 'w) option" where
  "spawn_actions P t [] pipe1 st w = Some ((None, pipe1), st, w)"
| "spawn_actions P t (act # acts) pipe1 st w =
     (let ((r, pipe1), w) = move_pipe (pc_sys P) act pipe1 w in
      case r of
        Some ret \<Rightarrow> Some ((Some ret, pipe1), st, w)
      | None \<Rightarrow> do {
          (r, st, w) \<leftarrow> spawn_act P t act st w;
          case r of Some ret \<Rightarrow> Some ((Some ret, pipe1), st, w) | None \<Rightarrow> spawn_actions P t acts pipe1 st w })"

section \<open>Spawning: the process\<close>

definition setexec :: "posix_spawnattr option \<Rightarrow> bool" where
  "setexec attrp = (case attrp of None \<Rightarrow> False | Some a \<Rightarrow> psa_flags a AND POSIX_SPAWN_SETEXEC \<noteq> 0)"

text \<open>The environment with the entry for the loader in front, if the caller has preferences.\<close>

definition spawn_env :: "'w proccalls \<Rightarrow> posix_spawnattr option \<Rightarrow> string option list \<Rightarrow> string option list option" where
  "spawn_env P attrp envp =
     (case attrp of
        None \<Rightarrow> Some envp
      | Some a \<Rightarrow>
          (case psa_binprefs a of
             [] \<Rightarrow> None
           | b # bs \<Rightarrow>
          if b = 0 then Some envp
          else do {
            (buf, _) \<leftarrow> simple_vsprintf (pc_stack64 P) ''__mldr_bprefs=%x,%x,%x,%x''
              (map (VNum \<circ> pc_va_int P) (b # bs));
            if None \<in> set envp then Some (Some (cstr buf) # takeWhile (\<lambda>x. x \<noteq> None) envp @ [None]) else None }))"

text \<open>From \<^verbatim>\<open>no_fork\<close> to \<^verbatim>\<open>fail\<close>: the result that \<^verbatim>\<open>fail\<close> sees, if the program is not executed, and the pipe.\<close>

definition spawn_try ::
    "'w proccalls \<Rightarrow> tsd \<Rightarrow> string \<Rightarrow> posix_spawnattr option \<Rightarrow> psfa_action list option \<Rightarrow>
     string option list \<Rightarrow> string option list \<Rightarrow> int \<Rightarrow> string option \<Rightarrow> 'w \<Rightarrow>
     ((int option \<times> int) \<times> string option \<times> 'w) option" where
  "spawn_try P t path attrp factp argvp envp pipe1 st w = do {
     (r, st, w) \<leftarrow> (case attrp of None \<Rightarrow> go_on | Some a \<Rightarrow> spawn_attrs P t a) st w;
     case r of
       Some ret \<Rightarrow> Some ((Some ret, pipe1), st, w)
     | None \<Rightarrow> do {
         ((r, pipe1), st, w) \<leftarrow> spawn_actions P t (case factp of None \<Rightarrow> [] | Some acts \<Rightarrow> acts) pipe1 st w;
         case r of
           Some ret \<Rightarrow> Some ((Some ret, pipe1), st, w)
         | None \<Rightarrow> do {
             env \<leftarrow> spawn_env P attrp envp;
             (out, st, w) \<leftarrow> sys_execve P t path argvp env st w;
             Some ((case out of Returned ret \<Rightarrow> Some ret | _ \<Rightarrow> None, pipe1), st, w) } } }"

definition spawn_child ::
    "'w proccalls \<Rightarrow> tsd \<Rightarrow> string \<Rightarrow> posix_spawnattr option \<Rightarrow> psfa_action list option \<Rightarrow>
     string option list \<Rightarrow> string option list \<Rightarrow> int \<Rightarrow> string option \<Rightarrow> 'w \<Rightarrow>
     (outcome \<times> string option \<times> 'w) option" where
  "spawn_child P t path attrp factp argvp envp pipe1 st w = do {
     ((r, pipe1), st, w) \<leftarrow> spawn_try P t path attrp factp argvp envp pipe1 st w;
     case r of
       None \<Rightarrow> Some (Execed, st, w)
     | Some ret \<Rightarrow>
         if setexec attrp then Some (Returned (errno_linux_to_bsd ret), st, w)
         else
           let (_, w) = sys_write_nocancel (pc_sys P) pipe1 (int_enc ret) 4 w in
           Some (Exited 127, st, pc_native_exit P 127 w) }"

text \<open>The parent waits for the four bytes of the error, or for the end of the file.\<close>

definition spawn_parent :: "'w kernel \<Rightarrow> int \<Rightarrow> 'w \<Rightarrow> int \<times> 'w" where
  "spawn_parent K pipe0 w =
     (let ((n, bs), w) = sys_read_nocancel K pipe0 4 w; (_, w) = close_internal K pipe0 w in
      (if n \<noteq> 4 then 0 else int_val (le_val bs), w))"

abbreviation (input) LINUX_O_CLOEXEC_PIPE :: int where "LINUX_O_CLOEXEC_PIPE \<equiv> 0x80000"

definition sys_posix_spawn ::
    "'w proccalls \<Rightarrow> tsd \<Rightarrow> string \<Rightarrow> posix_spawnattr option \<Rightarrow> psfa_action list option \<Rightarrow>
     string option list \<Rightarrow> string option list \<Rightarrow> string option \<Rightarrow> 'w \<Rightarrow>
     ((outcome \<times> int option) \<times> string option \<times> 'w) option" where
  "sys_posix_spawn P t path attrp factp argvp envp st w =
     (if setexec attrp then do {
        (out, st, w) \<leftarrow> spawn_child P t path attrp factp argvp envp (- 1) st w;
        Some ((out, None), st, w) }
      else
        let ((ret, fds), w) = sysc_ints (pc_sys P) ''pipe2'' [AInt LINUX_O_CLOEXEC_PIPE] w in
        if ret < 0 then Some ((Returned ret, None), st, w)
        else case fds of
          [pipe0, pipe1] \<Rightarrow>
            let (my_pid, w) = sys_fork (pc_sys P) t w in
            if my_pid = 0 then do {
              (out, st, w) \<leftarrow> spawn_child P t path attrp factp argvp envp pipe1 st
                 (snd (close_internal (pc_sys P) pipe0 (pc_mach_driver_init P w)));
              Some ((out, None), st, w) }
            else let (_, w) = close_internal (pc_sys P) pipe1 w in
              if my_pid < 0 then Some ((Returned my_pid, None), st, w)
              else let (ret, w) = spawn_parent (pc_sys P) pipe0 w in Some ((Returned ret, Some my_pid), st, w)
        | _ \<Rightarrow> None)"

section \<open>Lemmas on the status\<close>

text \<open>
  What a status says: a Linux status made by the kernel, the status read with the macros of Darwin's
  \<^verbatim>\<open>sys/wait.h\<close>, and what becomes of an event. A signal for which Darwin has no number is 0, and a
  status with that is the one of a regular end.
\<close>

datatype wait_event = WExited nat | WSignaled int bool | WStopped int | WContinued

fun encode_linux :: "wait_event \<Rightarrow> u32" where
  "encode_linux (WExited c) = push_bit 8 (of_nat c)"
| "encode_linux (WSignaled n core) = word_of_int n OR (if core then 0x80 else 0)"
| "encode_linux (WStopped n) = 0x7f OR push_bit 8 (word_of_int n)"
| "encode_linux WContinued = 0xffff"

definition decode_bsd :: "u32 \<Rightarrow> wait_event" where
  "decode_bsd s =
     (if s AND 0x7f = 0 then WExited (unat (drop_bit 8 s AND 0xff))
      else if s AND 0x7f \<noteq> 0x7f then WSignaled (uint (s AND 0x7f)) (s AND 0x80 \<noteq> 0)
      else if drop_bit 8 s = 0x13 then WContinued
      else WStopped (uint (drop_bit 8 s)))"

fun event_ok :: "wait_event \<Rightarrow> bool" where
  "event_ok (WExited c) = (c < 256)"
| "event_ok (WSignaled n core) = (0 < n \<and> n < 127)"
| "event_ok (WStopped n) = (0 < n \<and> n < 256)"
| "event_ok WContinued = True"

fun event_bsd :: "wait_event \<Rightarrow> wait_event" where
  "event_bsd (WSignaled n core) =
     (if signum_linux_to_bsd n = 0 then WExited 0 else WSignaled (signum_linux_to_bsd n) core)"
| "event_bsd (WStopped n) =
     (if signum_linux_to_bsd n = 19 then WContinued else WStopped (signum_linux_to_bsd n))"
| "event_bsd e = e"

lemma signum_range: "signum_linux_to_bsd n \<in> {0..31}"
  using switch_range [of signum_linux_to_bsd_tab 0 n]
  unfolding signum_linux_to_bsd_def by (auto simp: signum_linux_to_bsd_tab_def)

lemma mask7: "(0x7f :: u32) = mask 7"
  by (simp add: mask_eq_exp_minus_1)

lemma low7_or:
  fixes x c :: u32
  assumes "take_bit 7 x = x" "c AND 0x7f = 0"
  shows "(x OR c) AND 0x7f = x" "(x OR c) AND NOT 0x7f = c"
proof -
  have c: "take_bit 7 c = 0" using assms(2) by (simp add: mask7 take_bit_eq_mask)
  show "(x OR c) AND 0x7f = x" using assms(1) c by (simp add: mask7 take_bit_eq_mask [symmetric])
  show "(x OR c) AND NOT 0x7f = c"
    unfolding mask7
  proof (rule bit_eqI)
    fix n assume "possible_bit TYPE(u32) n"
    moreover have "n < 7 \<Longrightarrow> \<not> bit c n" using c by (metis bit_take_bit_iff bit_0_eq bot_apply bot_bool_def)
    moreover have "\<not> n < 7 \<Longrightarrow> \<not> bit x n" using assms(1) by (metis bit_take_bit_iff)
    ultimately show "bit ((x OR c) AND NOT (mask 7)) n = bit c n"
      by (auto simp: bit_simps)
  qed
qed

lemma take7_small: "0 \<le> n \<Longrightarrow> n < 128 \<Longrightarrow> take_bit 7 (word_of_int n :: u32) = word_of_int n"
  by transfer (simp add: take_bit_int_eq_self)

lemma sint_status: "0 \<le> n \<Longrightarrow> n < 2 ^ 31 \<Longrightarrow> sint (word_of_int n :: u32) = n"
  by (simp add: signed_of_int signed_take_bit_int_eq_self)

lemma uint_status: "0 \<le> n \<Longrightarrow> n < 2 ^ 31 \<Longrightarrow> uint (word_of_int n :: u32) = n"
  by (simp add: uint_word_of_int)

lemma small_neq: "0 \<le> n \<Longrightarrow> n < 127 \<Longrightarrow> (word_of_int n :: u32) \<noteq> 0x7f"
  using uint_status [of n] by auto

lemma small_zero: "0 \<le> n \<Longrightarrow> n < 2 ^ 31 \<Longrightarrow> (word_of_int n :: u32) = 0 \<longleftrightarrow> n = 0"
  using uint_status [of n] by auto

lemma small_13: "0 \<le> n \<Longrightarrow> n < 127 \<Longrightarrow> (word_of_int n :: u32) = 0x13 \<longleftrightarrow> n = 19"
  using uint_status [of n] by auto

lemma small_bit7: "0 \<le> n \<Longrightarrow> n < 128 \<Longrightarrow> (word_of_int n :: u32) AND 0x80 = 0"
proof -
  assume "0 \<le> n" "n < 128"
  then have "(word_of_int n :: u32) = word_of_int n AND 0x7f"
    using take7_small [of n] by (simp add: mask7 take_bit_eq_mask)
  then show ?thesis by (rule ssubst) (simp add: and.assoc)
qed

lemma low7_shift: "push_bit 8 (x :: u32) AND 0x7f = 0"
  by (simp add: mask7 take_bit_eq_mask [symmetric] take_bit_push_bit)

lemma stopped_word:
  assumes "0 \<le> n" "n < 256"
  shows "0x7f OR push_bit 8 (word_of_int n) = (word_of_int (127 + 256 * n) :: u32)"
proof -
  have "(0x7f :: u32) OR push_bit 8 (word_of_int n) = 0x7f + push_bit 8 (word_of_int n)"
    using low7_shift [of "word_of_int n"] by (intro disjunctive_add_eq_or [symmetric]) (simp add: and.commute)
  then show ?thesis by (simp add: push_bit_eq_mult)
qed

lemma drop8: "0 \<le> k \<Longrightarrow> k < 256 \<Longrightarrow> 0 \<le> n \<Longrightarrow> n < 2 ^ 24 \<Longrightarrow>
  drop_bit 8 (word_of_int (k + 256 * n) :: u32) = word_of_int n"
  by transfer (simp add: take_bit_int_eq_self drop_bit_eq_div)

lemma wait_status_event:
  assumes "event_ok e"
  shows "decode_bsd (wait_status (encode_linux e)) = event_bsd e"
proof (cases e)
  case (WExited c)
  let ?s = "push_bit 8 (of_nat c) :: u32"
  have "wait_status ?s = ?s"
    using low7_or [of 0 ?s] low7_shift by (simp add: wait_status_def signum_linux_to_bsd_def signum_linux_to_bsd_tab_def)
  moreover have "drop_bit 8 ?s AND 0xff = of_nat c"
  proof -
    have "?s = word_of_int (0 + 256 * int c)" by (simp add: push_bit_eq_mult)
    then have "drop_bit 8 ?s = of_nat c" using drop8 [of 0 "int c"] WExited assms by simp
    moreover have "take_bit 8 (of_nat c :: u32) = of_nat c" 
      using WExited assms by transfer (simp add: take_bit_int_eq_self)
    ultimately show ?thesis by (simp add: take_bit_eq_mask mask_eq_exp_minus_1)
  qed
  ultimately show ?thesis using WExited assms low7_shift [of "of_nat c"]
    by (simp add: decode_bsd_def unat_of_nat)
next
  case (WSignaled n core)
  let ?c = "if core then 0x80 else 0 :: u32" and ?y = "word_of_int (signum_linux_to_bsd n) :: u32"
  have c: "?c AND 0x7f = 0" "(?c AND 0x80 \<noteq> 0) = core" by auto
  have n: "0 < n" "n < 127" using assms WSignaled by auto
  note x = low7_or [OF take7_small c(1), of n]
  have y: "0 \<le> signum_linux_to_bsd n" "signum_linux_to_bsd n \<le> 31" using signum_range [of n] by auto
  note z = low7_or(1) [OF take7_small c(1), of "signum_linux_to_bsd n"]
  have "wait_status (encode_linux e) = ?y OR ?c"
    using x n by (simp add: WSignaled wait_status_def word_of_int_inverse sint_status small_neq or.commute)
  then show ?thesis
    using WSignaled y z c(2) by (simp add: decode_bsd_def small_neq small_zero small_bit7 uint_status)
next
  case (WStopped n)
  have n: "0 < n" "n < 256" using assms WStopped by auto
  let ?y = "word_of_int (signum_linux_to_bsd n) :: u32"
  have y: "0 \<le> signum_linux_to_bsd n" "signum_linux_to_bsd n \<le> 31" using signum_range [of n] by auto
  have low: "(0x7f OR push_bit 8 x) AND 0x7f = 0x7f" for x :: u32
    using low7_or(1) [of "0x7f" "push_bit 8 x"] low7_shift by simp
  have "sint (encode_linux e) = 127 + 256 * n"
    using n unfolding WStopped encode_linux.simps by (subst stopped_word) (simp, simp, rule sint_status, simp_all del: of_int_add)
  then have "sint (encode_linux e) div 256 = n" "encode_linux e \<noteq> 0xffff"
    by (auto simp del: encode_linux.simps) presburger
  then have "wait_status (encode_linux e) = 0x7f OR push_bit 8 ?y"
    using low by (simp add: WStopped wait_status_def)
  moreover have "drop_bit 8 (0x7f OR push_bit 8 ?y) = ?y"
    using drop8 [of 127 "signum_linux_to_bsd n"] y by (subst stopped_word) auto
  ultimately show ?thesis using low y by (simp add: WStopped decode_bsd_def small_13 uint_status)
next
  case WContinued
  then show ?thesis by (simp add: wait_status_def decode_bsd_def)
qed

section \<open>Lemmas on scripts\<close>

lemma isspace_newline: "isspace (CHR 0x0A)"
  by (simp add: isspace_def)

lemma not_space_not_nl: "list_all (\<lambda>c. \<not> isspace c) s \<Longrightarrow> CHR 0x0A \<notin> set s"
  using isspace_newline by (auto simp: list_all_iff)

lemma script_words_plain:
  assumes "s \<noteq> []" "list_all (\<lambda>c. \<not> isspace c) s"
  shows "script_words s = (s, None)"
proof -
  have "dropWhile isspace s = s" using assms by (cases s) auto
  then show ?thesis using assms(2) by (simp add: script_words_def list_all_iff takeWhile_eq_all_conv [THEN iffD2])
qed

lemma script_words_arg:
  assumes "s \<noteq> []" "list_all (\<lambda>c. \<not> isspace c) s" "a \<noteq> []" "\<not> isspace (hd a)" "isspace c"
  shows "script_words (s @ c # a) = (s, Some a)"
proof -
  have 1: "dropWhile isspace (s @ c # a) = s @ c # a" using assms by (cases s) auto
  have 2: "dropWhile (\<lambda>c. \<not> isspace c) (s @ c # a) = c # a" "takeWhile (\<lambda>c. \<not> isspace c) (s @ c # a) = s"
    using assms by (auto simp: list_all_iff dropWhile_append2 takeWhile_append2)
  have 3: "dropWhile isspace a = a" using assms by (cases a) auto
  show ?thesis unfolding script_words_def Let_def 1 2 list.sel 3 using assms(3) by simp
qed

text \<open>A vector of pointers with a program name, arguments, the null pointer and what follows it.\<close>

definition argv_memory :: "string \<Rightarrow> string list \<Rightarrow> string option list \<Rightarrow> string option list" where
  "argv_memory name args after = Some name # map Some args @ None # after"

lemma argv_memory_len: "length (takeWhile (\<lambda>x. x \<noteq> None) (argv_memory name args after)) = Suc (length args)"
  by (simp add: argv_memory_def takeWhile_append)

lemma script_argv_plain:
  "script_argv (argv_memory name args (x # after)) interp None fname =
     Some (Some interp # Some fname # map Some args @ [None, x])"
  using argv_memory_len [of name args "x # after"]
  by (simp add: script_argv_def Let_def) (simp add: argv_memory_def)

lemma script_argv_exact: "script_argv (argv_memory name args []) interp arg fname = None"
  using argv_memory_len [of name args "[]"]
  by (simp add: script_argv_def Let_def) (simp add: argv_memory_def)

lemma script_argv_arg: "script_argv argvp interp (Some arg) fname = None"
  by (simp add: script_argv_def Let_def)

lemma vector_strings_map: "vector_strings (map Some ss @ None # after) = Some ss"
  by (simp add: vector_strings_def takeWhile_append)

text \<open>The contents of the array of a script whose first line is \<open>line\<close>.\<close>

lemma script_line:
  assumes "map (char_of \<circ> unat) bs = ''#!'' @ line @ CHR 0x0A # rest" "CHR 0x0A \<notin> set line" "line \<noteq> []"
  shows "script_head (int (length bs)) (read_into a bs) = Some (''#!'' @ line @ CHR 0x0A # rest @ drop (length bs) a)"
    and "CHR 0x0A \<in> set (take (length bs) (''#!'' @ line @ CHR 0x0A # rest @ drop (length bs) a))"
    and "takeWhile (\<lambda>c. c \<noteq> CHR 0x0A) (''#!'' @ line @ CHR 0x0A # rest @ drop (length bs) a) = ''#!'' @ line"
proof -
  have len: "length bs = 3 + length line + length rest" using assms(1) [THEN arg_cong, of length] by simp
  moreover have "0 < length line" using assms(3) by simp
  ultimately have "4 \<le> length bs" by linarith
  then show "script_head (int (length bs)) (read_into a bs) = Some (''#!'' @ line @ CHR 0x0A # rest @ drop (length bs) a)"
    unfolding script_head_def read_into_def assms(1) by simp
  show "CHR 0x0A \<in> set (take (length bs) (''#!'' @ line @ CHR 0x0A # rest @ drop (length bs) a))"
    using take_append [of "length bs" "''#!'' @ line @ CHR 0x0A # rest" "drop (length bs) a"] len by simp
  show "takeWhile (\<lambda>c. c \<noteq> CHR 0x0A) (''#!'' @ line @ CHR 0x0A # rest @ drop (length bs) a) = ''#!'' @ line"
    using assms(2) by (auto simp: takeWhile_append takeWhile_eq_all_conv)
qed


text \<open>
  The file is there: its path expands, it can be opened and is read without an error. The result
  is the expanded path, the bytes, and the state after the descriptor has been closed.
\<close>

definition load_file :: "'w proccalls \<Rightarrow> tsd \<Rightarrow> string \<Rightarrow> string option \<Rightarrow> 'w \<Rightarrow>
    (string \<times> u8 list \<times> string option \<times> 'w) option" where
  "load_file P t fname st w = do {
     (r, st, w) \<leftarrow> expand_path (pc_vfs P) (get_perthread_wd t) fname True st w;
     vpath \<leftarrow> (case r of Inl _ \<Rightarrow> None | Inr p \<Rightarrow> Some p);
     (fd, st, w) \<leftarrow> sys_open_nocancel (pc_vfs P) (pc_file P) t (Some fname) 0 0 st w;
     let ((ret, bs), w) = sys_read_nocancel (pc_sys P) fd 256 w in
     if fd < 0 \<or> ret \<noteq> int (length bs) then None
     else Some (vpath, bs, st, snd (close_internal (pc_sys P) fd w)) }"

lemma load_file_execve:
  assumes "load_file P t fname st w = Some (vpath, bs, st', w')"
  shows "sys_execve P t fname argvp envp st w =
    execve_loaded P t fname vpath (int (length bs)) (read_into (pc_stack P) bs) argvp envp st' w'"
  using assms unfolding load_file_def sys_execve_def
  by (auto simp: Let_def split: Option.bind_splits sum.splits prod.splits if_splits)

lemma run_image_vector:
  assumes "vector_strings envp = Some env"
  shows "run_image P path (map Some argv @ None # after) envp w =
    Some (case pc_execve P path argv env (snd (rt_sigprocmask (pc_sig P) 0 (Some (sigexc_suspend_set P)) w)) of
      (None, w) \<Rightarrow> (Execed, w)
    | (Some e, w) \<Rightarrow> (Returned (ret_bsd e), snd (rt_sigprocmask (pc_sig P) 1 (Some (sigexc_suspend_set P)) w)))"
  using assms by (simp add: run_image_def vector_strings_map Let_def split: prod.splits option.splits)

lemma execve_loaded_script:
  assumes "map (char_of \<circ> unat) bs = ''#!'' @ line @ CHR 0x0A # rest" "CHR 0x0A \<notin> set line" "line \<noteq> []"
    and "is_cstr line" "script_words line = (interp, arg)"
  shows "execve_loaded P t fname vpath (int (length bs)) (read_into a bs) argvp envp st w = do {
      argvp \<leftarrow> script_argv argvp interp arg fname;
      (ret, path, st, w) \<leftarrow> vchroot_expand (pc_vfs P)
         \<lparr>ea_path = interp, ea_dfd = get_perthread_wd t, ea_follow = True\<rparr> st w;
      if ret < 0 then Some (Returned ret, st, w)
      else do { (out, w) \<leftarrow> run_image P path argvp envp w; Some (out, st, w) } }"
  unfolding execve_loaded_def script_line(1) [OF assms(1-3)]
  using script_line(2, 3) [OF assms(1-3)] assms(4, 5) by (simp add: cstr_id)


section \<open>Lemmas on spawning\<close>

lemma spawn_parent_reads:
  assumes "sys_read_nocancel K pipe0 4 w = ((n, bs), w')"
  shows "spawn_parent K pipe0 w = (if n \<noteq> 4 then 0 else int_val (le_val bs), snd (close_internal K pipe0 w'))"
  using assms by (simp add: spawn_parent_def split: prod.splits)

lemma spawn_child_fails:
  assumes "spawn_try P t path attrp factp argvp envp p st w = Some ((Some ret, p'), st', w')" "\<not> setexec attrp"
  shows "spawn_child P t path attrp factp argvp envp p st w =
    Some (Exited 127, st', pc_native_exit P 127 (snd (sysc (pc_sys P) ''write'' [AInt p', ABuf (int_enc ret), AInt 4] w')))"
  using assms by (simp add: spawn_child_def sys_write_nocancel_def linux_call_def split: prod.splits)

text \<open>Without flags the attributes do nothing.\<close>

lemma spawn_attrs_none: "psa_flags a = 0 \<Longrightarrow> spawn_attrs P t a = go_on"
  by (rule ext)+ (simp add: spawn_attrs_def on_flag_def and_then_def go_on_def)

text \<open>A step that fails ends the list of actions; an action that is not known is skipped.\<close>

lemma spawn_actions_append:
  assumes "spawn_actions P t as p st w = Some ((r, p'), st', w')"
  shows "spawn_actions P t (as @ bs) p st w =
    (case r of None \<Rightarrow> spawn_actions P t bs p' st' w' | Some ret \<Rightarrow> Some ((Some ret, p'), st', w'))"
  using assms
proof (induction as arbitrary: p st w)
  case (Cons a as)
  then show ?case
    by (auto simp: Let_def split: prod.splits option.splits Option.bind_splits)
qed simp

section \<open>Properties\<close>

text \<open>
  C21: a wait status survives the translation. Whatever Linux reports of a process, an exit code, a
  terminating signal with or without a core dump, a stop or a continuation, the macros of Darwin read
  from the status that \<^verbatim>\<open>wait4\<close> stores as the same event with its signal renumbered. The two
  exceptions are explicit: a process killed by a signal without a Darwin number is reported as a
  regular exit with code 0, and a stop by \<^verbatim>\<open>SIGCONT\<close> as a continuation.
\<close>

theorem wait4_event:
  assumes "event_ok e" "0 \<le> ret"
    and "sysc_ints K ''wait4'' [AInt pid, AInt (sint (waitopts_bsd_to_linux options))] w =
      ((ret, [uint (encode_linux e)]), w')"
  shows "\<exists>s. sys_wait4_nocancel K pid status options w = ((ret, s), w') \<and> decode_bsd s = event_bsd e"
  using assms wait_status_event [of e] by (simp add: sys_wait4_nocancel_def)

definition killed_kernel :: "unit kernel" where
  "killed_kernel = quiet_kernel\<lparr>sysc_ints := \<lambda>nr args w. ((7, [34]), w)\<rparr>"

theorem wait4_event_witness:
  "(\<exists>s. sys_wait4_nocancel killed_kernel 7 0 0 () = ((7, s), ()) \<and> decode_bsd s = WExited 0)
    \<and> encode_linux (WSignaled 34 False) = 34"
  using wait4_event [of "WSignaled 34 False" 7 killed_kernel 7 0 "()" "()" 0]
  by (simp add: killed_kernel_def signum_linux_to_bsd_def signum_linux_to_bsd_tab_def)


definition script_bytes :: "string \<Rightarrow> u8 list" where
  "script_bytes s = map of_char s"

lemma script_bytes_chars [simp]: "map (char_of \<circ> unat) (script_bytes s) = s"
  by (simp add: script_bytes_def comp_def)

definition open_files :: "int \<Rightarrow> 'w filecalls" where
  "open_files fd = \<lparr>fc_openat = (\<lambda>d p f m w. (fd, w)), fc_fcntl = (\<lambda>d c a w. ((0, a), w)), fc_fsync = (\<lambda>d w. (0, w))\<rparr>"

definition script_host :: "string \<Rightarrow> unit proccalls" where
  "script_host s = \<lparr>pc_vfs = plain_fs, pc_file = open_files 3,
     pc_sys = quiet_kernel\<lparr>sysc_buf := \<lambda>nr args w. ((int (length s), script_bytes s), w)\<rparr>,
     pc_sig = quiet_calls,
     pc_execve = (\<lambda>path argv env w. (if argv = [''/bin/i'', ''/s'', ''x''] then None else Some (- 2), w)),
     pc_native_exit = (\<lambda>n w. w), pc_stop_after_exec = id, pc_mach_driver_init = id, pc_va_int = ucast,
     pc_sigrtmin = 34, pc_stack = replicate 256 (CHR ''-''), pc_stack64 = replicate 64 (CHR ''-'')\<rparr>"

lemma script_host_simps [simp]:
  "pc_vfs (script_host s) = plain_fs" "pc_sig (script_host s) = quiet_calls"
  "pc_execve (script_host s) path argv env w = (if argv = [''/bin/i'', ''/s'', ''x''] then None else Some (- 2), w)"
  by (simp_all add: script_host_def)

lemma load_script:
  "load_file (script_host (''#!/bin/i'' @ [CHR 0x0A])) \<lparr>tsd_100 = False, tsd_101 = 0\<rparr> ''/s'' (Some ''/pfx'') () =
     Some (''/pfx/s'', script_bytes (''#!/bin/i'' @ [CHR 0x0A]), Some ''/pfx'', ())"
  by code_simp


lemma expand_interp:
  "vchroot_expand (plain_fs :: unit vfs) \<lparr>ea_path = ''/bin/i'', ea_dfd = - 100, ea_follow = True\<rparr> (Some ''/pfx'') () =
     Some (0, ''/pfx/bin/i'', Some ''/pfx'', ())"
  by code_simp


text \<open>
  A script whose interpreter has an argument is executed with undefined behaviour: the new
  vector has two pointers more than the old one, and the code stores three more, whatever the
  arguments are.
\<close>

lemma execve_script_overrun:
  assumes "load_file P t fname st w = Some (vpath, bs, st', w')"
    and "map (char_of \<circ> unat) bs = ''#!'' @ interp @ line @ CHR 0x0A # rest"
    and "interp \<noteq> []" "list_all (\<lambda>c. \<not> isspace c) interp" "is_cstr (interp @ line)"
    and "line = CHR '' '' # arg" "arg \<noteq> []" "\<not> isspace (hd arg)" "CHR 0x0A \<notin> set arg"
  shows "sys_execve P t fname argvp envp st w = None"
proof -
  have "script_words (interp @ line) = (interp, Some arg)"
    unfolding assms(6) by (rule script_words_arg [OF assms(3, 4, 7, 8)]) (simp add: isspace_def)
  moreover have "CHR 0x0A \<notin> set (interp @ line)" using not_space_not_nl [OF assms(4)] assms(6, 9) by simp
  moreover have "map (char_of \<circ> unat) bs = ''#!'' @ (interp @ line) @ CHR 0x0A # rest" using assms(2) by simp
  ultimately show ?thesis
    using execve_loaded_script [of bs "interp @ line" rest interp "Some arg"] assms(3, 5)
    by (simp add: load_file_execve [OF assms(1)] script_argv_arg)
qed

lemma load_script_arg:
  "load_file (script_host (''#!/bin/i -u'' @ [CHR 0x0A])) \<lparr>tsd_100 = False, tsd_101 = 0\<rparr> ''/s'' (Some ''/pfx'') () =
     Some (''/pfx/s'', script_bytes (''#!/bin/i -u'' @ [CHR 0x0A]), Some ''/pfx'', ())"
  by code_simp

lemma execve_script_overrun_witness:
  "sys_execve (script_host (''#!/bin/i -u'' @ [CHR 0x0A])) \<lparr>tsd_100 = False, tsd_101 = 0\<rparr> ''/s''
     (argv_memory ''s'' [''x''] [None]) [None] (Some ''/pfx'') () = None"
  by (rule execve_script_overrun [OF load_script_arg, where interp = "''/bin/i''" and arg = "''-u''" and line = "'' -u''" and rest = "[]"])
    (simp_all add: isspace_def is_cstr_def)

text \<open>
  C19: the parent learns why the child failed. When a step of the child, an attribute, a file action
  or the execution, fails with \<open>ret\<close>, the child writes four bytes to the pipe and ends with the status
  127; the parent, which reads the pipe, returns \<open>ret\<close> if it gets those bytes, and 0 if it gets
  another number of bytes, which is what the end of a successful \<^verbatim>\<open>execve\<close> gives it.
\<close>

theorem posix_spawn_reports:
  assumes "\<not> setexec attrp" "int_ok ret"
    and child: "sysc_ints (pc_sys P) ''pipe2'' [AInt LINUX_O_CLOEXEC_PIPE] w = ((0, [r, p]), w1)"
      "sys_fork (pc_sys P) t w1 = (0, w2)"
      "spawn_try P t path attrp factp argvp envp p st (snd (close_internal (pc_sys P) r (pc_mach_driver_init P w2))) =
        Some ((Some ret, p'), st', w3)"
    and parent: "sysc_ints (pc_sys P) ''pipe2'' [AInt LINUX_O_CLOEXEC_PIPE] v = ((0, [r, p]), v1)"
      "sys_fork (pc_sys P) t v1 = (pid, v2)" "0 < pid"
      "sys_read_nocancel (pc_sys P) r 4 (snd (close_internal (pc_sys P) p v2)) = ((n, got), v3)"
  shows "\<exists>bs. sys_posix_spawn P t path attrp factp argvp envp st w =
      Some ((Exited 127, None), st',
        pc_native_exit P 127 (snd (sysc (pc_sys P) ''write'' [AInt p', ABuf bs, AInt 4] w3))) \<and>
    sys_posix_spawn P t path attrp factp argvp envp st v =
      Some ((Returned (if n = 4 then if got = bs then ret else int_val (le_val got) else 0), Some pid), st,
        snd (close_internal (pc_sys P) r v3))"
  using assms(1,2) child parent spawn_child_fails [OF child(3) assms(1)] spawn_parent_reads [OF parent(4)]
  by (intro exI [of _ "int_enc ret"]) (auto simp: sys_posix_spawn_def split: prod.splits)

definition forking_kernel :: "bool kernel" where
  "forking_kernel = quiet_kernel\<lparr>sysc := \<lambda>nr args w. (if nr = ''clone'' \<and> \<not> w then 9 else 0, w),
     sysc_ints := \<lambda>nr args w. ((0, [5, 6]), w), sysc_buf := \<lambda>nr args w. ((4, [0xfe, 0xff, 0xff, 0xff]), w)\<rparr>"


definition forking_host :: "bool proccalls" where
  "forking_host = \<lparr>pc_vfs = plain_fs, pc_file = open_files (- 2), pc_sys = forking_kernel, pc_sig = quiet_calls,
     pc_execve = (\<lambda>path argv env w. (None, w)),
     pc_native_exit = (\<lambda>n w. w), pc_stop_after_exec = id, pc_mach_driver_init = id, pc_va_int = ucast,
     pc_sigrtmin = 34, pc_stack = replicate 256 (CHR ''-''), pc_stack64 = replicate 64 (CHR ''-'')\<rparr>"

lemma try_missing:
  "spawn_try forking_host \<lparr>tsd_100 = False, tsd_101 = 0\<rparr> ''/x'' None None [None] [None] 6 (Some ''/pfx'') True =
     Some ((Some (- 2), 6), Some ''/pfx'', True)"
  by code_simp

theorem posix_spawn_reports_witness:
  "(\<exists>w. sys_posix_spawn forking_host \<lparr>tsd_100 = False, tsd_101 = 0\<rparr> ''/x'' None None [None] [None] (Some ''/pfx'') True =
      Some ((Exited 127, None), Some ''/pfx'', w)) \<and>
   sys_posix_spawn forking_host \<lparr>tsd_100 = False, tsd_101 = 0\<rparr> ''/x'' None None [None] [None] (Some ''/pfx'') False =
      Some ((Returned (- 2), Some 9), Some ''/pfx'', False)"
proof -
  let ?t = "\<lparr>tsd_100 = False, tsd_101 = 0\<rparr>"
  have P: "pc_sys forking_host = forking_kernel" "pc_mach_driver_init forking_host b = b" for b
    by (simp_all add: forking_host_def)
  have pipe: "sysc_ints forking_kernel nr args b = ((0, [5, 6]), b)" for nr args b
    by (simp add: forking_kernel_def)
  have fork: "sys_fork forking_kernel ?t b = (if b then 0 else 9, b)" for b
    by (simp add: sys_fork_def forking_kernel_def get_perthread_wd_def)
  have read: "sys_read_nocancel forking_kernel 5 4 b = ((4, [0xfe, 0xff, 0xff, 0xff]), b)" for b
    by (simp add: sys_read_nocancel_def forking_kernel_def)
  have close: "snd (close_internal forking_kernel d b) = b" for d b
    by (simp add: close_internal_def linux_call_def forking_kernel_def)
  have val: "int_val 4294967294 = - 2" by (simp add: int_val_def)
  show ?thesis
    using posix_spawn_reports [of None "- 2" forking_host True 5 6 True ?t True "''/x''" None "[None]" "[None]"
        "Some ''/pfx''" 6 "Some ''/pfx''" True False False 9 False 4 "[0xfe, 0xff, 0xff, 0xff]" False] try_missing
    by (auto simp: P pipe fork read close setexec_def int_ok_def val split: if_splits)
qed

end
