(* ===== verification/Ioctl.thy ===== *)
theory Ioctl
  imports Unistd Simple
begin

text \<open>
  Device control, \<^verbatim>\<open>src/kernel/emulation/linux/ioctl/\<close>: the dispatcher \<^verbatim>\<open>ioctl.c\<close> with its three
  handlers, for files (\<^verbatim>\<open>filio.c\<close>), sockets (\<^verbatim>\<open>socket.c\<close>) and terminals (\<^verbatim>\<open>termios.c\<close>), and the call
  of Linux in \<^verbatim>\<open>misc/ioctl.c\<close>.

  The argument of the call is a pointer to one of the structures of the constructors of \<open>ioctl_arg\<close>;
  a command on another structure is \<open>None\<close>, as is an access outside an array. The structures of
  \<^verbatim>\<open>sys/ioctl_compat.h\<close> have characters and short integers only.
\<close>

section \<open>Structures\<close>

record bsd_termios =
  bt_iflag :: u64
  bt_oflag :: u64
  bt_cflag :: u64
  bt_lflag :: u64
  bt_cc :: "u8 list"
  bt_ispeed :: u64
  bt_ospeed :: u64

record linux_termios =
  lt_iflag :: u32
  lt_oflag :: u32
  lt_cflag :: u32
  lt_lflag :: u32
  lt_line :: u8
  lt_cc :: "u8 list"
  lt_ispeed :: u32
  lt_ospeed :: u32

record sgttyb =
  sg_ispeed :: u8
  sg_ospeed :: u8
  sg_erase :: u8
  sg_kill :: u8
  sg_flags :: u16

record tchars =
  t_intrc :: u8
  t_quitc :: u8
  t_startc :: u8
  t_stopc :: u8
  t_eofc :: u8
  t_brkc :: u8

record ltchars =
  t_suspc :: u8
  t_dsuspc :: u8
  t_rprntc :: u8
  t_flushc :: u8
  t_werasc :: u8
  t_lnextc :: u8

datatype ioctl_arg =
    ATermios bsd_termios | ASgttyb sgttyb | ATchars tchars | ALtchars ltchars
  | AIntp int | AChars "char list" | APtr u64 | ANull

text \<open>
  The calls of Linux: \<open>tt_tcgets\<close> fills a structure, of which it leaves alone what the kernel's
  smaller structure does not have, \<open>tt_tcsets\<close> takes the command and a structure, and \<open>tt_ioctl\<close> is
  every other request. \<open>tt_socket_cmds\<close> are the numbers of the four commands that \<^verbatim>\<open>socket.c\<close> refuses,
  which depend on the sizes of structures of the system's headers.
\<close>

record 'w ttycalls =
  tt_tcgets :: "int \<Rightarrow> 'w \<Rightarrow> (int \<times> linux_termios) \<times> 'w"
  tt_tcsets :: "int \<Rightarrow> u32 \<Rightarrow> linux_termios \<Rightarrow> 'w \<Rightarrow> int \<times> 'w"
  tt_ioctl :: "int \<Rightarrow> u32 \<Rightarrow> ioctl_arg \<Rightarrow> 'w \<Rightarrow> (int \<times> ioctl_arg) \<times> 'w"
  tt_write :: "int \<Rightarrow> string \<Rightarrow> 'w \<Rightarrow> int \<times> 'w"
  tt_socket_cmds :: "u32 list"
  tt_stack512 :: "char list"

definition real_ioctl :: "'w ttycalls \<Rightarrow> int \<Rightarrow> u32 \<Rightarrow> ioctl_arg \<Rightarrow> 'w \<Rightarrow> (int \<times> ioctl_arg) \<times> 'w" where
  "real_ioctl T fd req arg w = (let ((ret, arg), w) = tt_ioctl T fd req arg w in ((ret_bsd ret, arg), w))"

definition tcgets :: "'w ttycalls \<Rightarrow> int \<Rightarrow> 'w \<Rightarrow> (int \<times> linux_termios) \<times> 'w" where
  "tcgets T fd w = (let ((ret, t), w) = tt_tcgets T fd w in ((ret_bsd ret, t), w))"

definition tcsets :: "'w ttycalls \<Rightarrow> int \<Rightarrow> u32 \<Rightarrow> linux_termios \<Rightarrow> 'w \<Rightarrow> int \<times> 'w" where
  "tcsets T fd cmd t w = (let (ret, w) = tt_tcsets T fd cmd t w in (ret_bsd ret, w))"

section \<open>Commands\<close>

definition BSD_IOC :: "u32 \<Rightarrow> char \<Rightarrow> u32 \<Rightarrow> u32 \<Rightarrow> u32" where
  "BSD_IOC inout g num len = inout OR push_bit 16 (len AND 0x1fff) OR push_bit 8 (of_char g) OR num"

abbreviation BSD_IO :: "char \<Rightarrow> u32 \<Rightarrow> u32" where "BSD_IO g n \<equiv> BSD_IOC 0x20000000 g n 0"
abbreviation BSD_IOR :: "char \<Rightarrow> u32 \<Rightarrow> u32 \<Rightarrow> u32" where "BSD_IOR g n len \<equiv> BSD_IOC 0x40000000 g n len"
abbreviation BSD_IOW :: "char \<Rightarrow> u32 \<Rightarrow> u32 \<Rightarrow> u32" where "BSD_IOW g n len \<equiv> BSD_IOC 0x80000000 g n len"

definition LINUX_IOC :: "u32 \<Rightarrow> char \<Rightarrow> u32 \<Rightarrow> u32 \<Rightarrow> u32" where
  "LINUX_IOC dir type nr sz = push_bit 30 dir OR push_bit 8 (of_char type) OR nr OR push_bit 16 sz"

text \<open>The size of \<^verbatim>\<open>struct bsd_termios\<close> on a 64-bit system is 72.\<close>

abbreviation "BSD_TIOCGETA \<equiv> BSD_IOR (CHR ''t'') 19 72"
abbreviation "BSD_TIOCSETA \<equiv> BSD_IOW (CHR ''t'') 20 72"
abbreviation "BSD_TIOCSETAW \<equiv> BSD_IOW (CHR ''t'') 21 72"
abbreviation "BSD_TIOCSETAF \<equiv> BSD_IOW (CHR ''t'') 22 72"
abbreviation (input) "BSD_TIOCGETP \<equiv> 0x40067408 :: u32"
abbreviation (input) "BSD_TIOCSETP \<equiv> 0x80067409 :: u32"
abbreviation (input) "BSD_TIOCGETC \<equiv> 0x40067412 :: u32"
abbreviation (input) "BSD_TIOCSETC \<equiv> 0x80067411 :: u32"
abbreviation (input) "BSD_TIOCGLTC \<equiv> 0x40067474 :: u32"
abbreviation (input) "BSD_TIOCSLTC \<equiv> 0x80067475 :: u32"
abbreviation (input) "BSD_TIOCISATTY \<equiv> 0x2000745E :: u32"
abbreviation "BSD_TIOCFLUSH \<equiv> BSD_IOW (CHR ''t'') 16 4"
abbreviation "BSD_TIOCIXON \<equiv> BSD_IO (CHR ''t'') 129"
abbreviation "BSD_TIOCIXOFF \<equiv> BSD_IO (CHR ''t'') 128"
abbreviation "BSD_TIOCPTYGNAME \<equiv> BSD_IOR (CHR ''t'') 83 128"
abbreviation "BSD_TIOCPTYGRANT \<equiv> BSD_IO (CHR ''t'') 84"
abbreviation "BSD_TIOCPTYUNLK \<equiv> BSD_IO (CHR ''t'') 82"

text \<open>
  The commands that are another number for Linux and nothing else: with the argument of the caller,
  and without one.
\<close>

definition tty_arg_cmds :: "(u32 \<times> u32) list" where
  "tty_arg_cmds = [(BSD_IOR (CHR ''t'') 104 8, 0x5413), (BSD_IOW (CHR ''t'') 103 8, 0x5414),
     (BSD_IOR (CHR ''t'') 119 4, 0x540F), (BSD_IOW (CHR ''t'') 118 4, 0x5410),
     (BSD_IOR (CHR ''t'') 26 4, 0x5424), (BSD_IOW (CHR ''t'') 27 4, 0x5423),
     (BSD_IOR (CHR ''t'') 115 4, 0x5411), (BSD_IO (CHR ''t'') 97, 0x540E)]"

definition tty_null_cmds :: "(u32 \<times> u32) list" where
  "tty_null_cmds = [(BSD_IO (CHR ''t'') 111, LINUX_IOC 0 (CHR ''t'') 111 0),
     (BSD_IO (CHR ''t'') 110, LINUX_IOC 0 (CHR ''t'') 110 0),
     (BSD_IO (CHR ''t'') 123, 0x5425), (BSD_IO (CHR ''t'') 122, 0x5426), (BSD_IOW (CHR ''t'') 98 4, 0x541D)]"

section \<open>Translations\<close>

definition c_l2b :: "u8 \<Rightarrow> u8" where "c_l2b c = (if c = 0 then 0xff else c)"
definition c_b2l :: "u8 \<Rightarrow> u8" where "c_b2l c = (if c = 0xff then 0 else c)"

text \<open>The indices of the control characters, Darwin's and Linux's.\<close>

definition cc_tab :: "(nat \<times> nat) list" where
  "cc_tab = [(0, 4), (1, 11), (2, 16), (3, 2), (4, 14), (5, 3), (6, 12), (8, 0), (9, 1), (10, 10), (12, 8), (13, 9),
     (14, 15), (15, 13), (16, 6), (17, 5)]"

definition cc_linux_to_bsd :: "u8 list \<Rightarrow> u8 list \<Rightarrow> u8 list" where
  "cc_linux_to_bsd l b = fold (\<lambda>(i, j) b. b[i := c_l2b (l ! j)]) cc_tab b"

definition cc_bsd_to_linux :: "u8 list \<Rightarrow> u8 list \<Rightarrow> u8 list" where
  "cc_bsd_to_linux b l = fold (\<lambda>(i, j) l. l[j := c_b2l (b ! i)]) cc_tab l"

definition iflag_tab :: "(u64 \<times> u32) list" where
  "iflag_tab = [(1, 1), (2, 2), (4, 4), (8, 8), (0x10, 0x10), (0x20, 0x20), (0x40, 0x40), (0x80, 0x80), (0x100, 0x100),
     (0x200, 0x400), (0x800, 0x800), (0x400, 0x1000), (0x2000, 0x2000), (0x4000, 0x4000)]"

definition oflag_tab :: "(u64 \<times> u32) list" where
  "oflag_tab = [(1, 1), (2, 4), (4, 0x1800)]"

definition cflag_tab :: "(u64 \<times> u32) list" where
  "cflag_tab = [(0x300, 0x30), (0x100, 0x10), (0x200, 0x20), (0x300, 0x30), (0x400, 0x40), (0x800, 0x80),
     (0x1000, 0x100), (0x2000, 0x200), (0x4000, 0x400), (0x8000, 0x800)]"

definition lflag_tab :: "(u64 \<times> u32) list" where
  "lflag_tab = [(0x80, 1), (0x100, 2), (8, 8), (2, 0x10), (1, 0x800), (4, 0x20), (0x10, 0x40), (0x80000000, 0x80),
     (0x400000, 0x100), (0x40, 0x200), (0x20, 0x400), (0x800000, 0x1000), (0x20000000, 0x4000), (0x400, 0x8000),
     (0x800, 0x10000)]"

definition speed_linux_to_bsd_tab :: "(u32 \<times> u64) list" where
  "speed_linux_to_bsd_tab = [(0, 0), (1, 50), (2, 75), (3, 110), (4, 134), (5, 150), (6, 200), (7, 300), (8, 600),
     (9, 1200), (10, 1800), (11, 2400), (12, 4800), (13, 9600), (14, 19200), (15, 38400),
     (0x1001, 57600), (0x1002, 115200), (0x1003, 230400)]"

definition speed_linux_to_bsd :: "u32 \<Rightarrow> u64" where
  "speed_linux_to_bsd l = switch speed_linux_to_bsd_tab 0 l"

definition speed_bsd_to_linux :: "u64 \<Rightarrow> u32" where
  "speed_bsd_to_linux b = switch (map prod.swap speed_linux_to_bsd_tab @
     [(7200, 12), (28800, 13), (14400, 13), (76800, 0x1001)]) 0 b"

abbreviation (input) LINUX_CBAUD :: u32 where "LINUX_CBAUD \<equiv> 0x100f"

definition termios_linux_to_bsd :: "linux_termios \<Rightarrow> bsd_termios" where
  "termios_linux_to_bsd t =
     (let baud = lt_cflag t AND LINUX_CBAUD;
          sp = (\<lambda>own. speed_linux_to_bsd (if baud = 0 then own else baud)) in
      \<lparr>bt_iflag = xlat (map prod.swap iflag_tab) (lt_iflag t) 0,
       bt_oflag = xlat (map prod.swap oflag_tab) (lt_oflag t) 0,
       bt_cflag = xlat (map prod.swap cflag_tab) (lt_cflag t) 0,
       bt_lflag = xlat (map prod.swap lflag_tab) (lt_lflag t) 0,
       bt_cc = cc_linux_to_bsd (lt_cc t) (replicate 20 0),
       bt_ispeed = sp (lt_ispeed t), bt_ospeed = sp (lt_ospeed t)\<rparr>)"

definition termios_bsd_to_linux :: "bsd_termios \<Rightarrow> linux_termios" where
  "termios_bsd_to_linux b =
     \<lparr>lt_iflag = xlat iflag_tab (bt_iflag b) 0, lt_oflag = xlat oflag_tab (bt_oflag b) 0,
      lt_cflag = xlat cflag_tab (bt_cflag b) 0, lt_lflag = xlat lflag_tab (bt_lflag b) 0,
      lt_line = 0, lt_cc = cc_bsd_to_linux (bt_cc b) (replicate 32 0),
      lt_ispeed = speed_bsd_to_linux (bt_ispeed b), lt_ospeed = speed_bsd_to_linux (bt_ospeed b)\<rparr>"

text \<open>The flags of the old interface: cbreak 2, echo 8, crmod 0x10, raw 0x20.\<close>

definition sgflag_linux_to_bsd :: "linux_termios \<Rightarrow> u16" where
  "sgflag_linux_to_bsd t =
     (if lt_lflag t AND 2 = 0 then if lt_lflag t AND 1 \<noteq> 0 then 0x2 else 0x20 else 0)
     OR (if lt_lflag t AND 8 \<noteq> 0 then 0x8 else 0)
     OR (if lt_oflag t AND 1 \<noteq> 0 \<and> lt_oflag t AND 4 \<noteq> 0 then 0x10 else 0)"

definition sgflag_bsd_to_linux :: "u16 \<Rightarrow> linux_termios \<Rightarrow> linux_termios" where
  "sgflag_bsd_to_linux sgflags t =
     (let cbreak = sgflags AND 0x02 \<noteq> 0; raw = sgflags AND 0x20 \<noteq> 0;
          iflag = (if cbreak \<or> raw then 0 else 0x500);
          oflag = (if sgflags AND 0x10 \<noteq> 0 then 5 else 0);
          lflag = 3 :: u32;
          lflag = (if cbreak then lflag AND 2 else lflag);
          lflag = (if sgflags AND 0x08 \<noteq> 0 then lflag OR (0x8 OR 0x10 OR 0x20 OR 0x200 OR 0x800 OR 0x8000) else lflag);
          lflag = (if raw then lflag AND NOT 3 else lflag) in
      t\<lparr>lt_iflag := iflag, lt_oflag := oflag, lt_lflag := lflag,
        lt_cc := if lflag AND 2 = 0 then (lt_cc t)[6 := 1, 5 := 0] else lt_cc t\<rparr>)"

section \<open>Terminals\<close>

definition tty_getp :: "linux_termios \<Rightarrow> sgttyb" where
  "tty_getp t = \<lparr>sg_ispeed = ucast (speed_linux_to_bsd (lt_ispeed t)), sg_ospeed = ucast (speed_linux_to_bsd (lt_ospeed t)),
     sg_erase = lt_cc t ! 2, sg_kill = lt_cc t ! 3, sg_flags = sgflag_linux_to_bsd t\<rparr>"

definition tty_setp :: "sgttyb \<Rightarrow> linux_termios \<Rightarrow> linux_termios" where
  "tty_setp s t = sgflag_bsd_to_linux (sg_flags s)
     (t\<lparr>lt_ispeed := speed_bsd_to_linux (scast (sg_ispeed s)), lt_ospeed := speed_bsd_to_linux (scast (sg_ospeed s)),
        lt_cc := (lt_cc t)[2 := sg_erase s, 3 := sg_kill s]\<rparr>)"

definition tty_getc :: "linux_termios \<Rightarrow> tchars" where
  "tty_getc t = (let c = lt_cc t in \<lparr>t_intrc = c ! 0, t_quitc = c ! 1, t_startc = c ! 8, t_stopc = c ! 9, t_eofc = c ! 4, t_brkc = c ! 16\<rparr>)"

definition tty_setc :: "tchars \<Rightarrow> linux_termios \<Rightarrow> linux_termios" where
  "tty_setc s t = t\<lparr>lt_cc := (lt_cc t)[0 := t_intrc s, 1 := t_quitc s, 8 := t_startc s, 9 := t_stopc s, 4 := t_eofc s, 16 := t_brkc s]\<rparr>"

definition tty_gltc :: "linux_termios \<Rightarrow> ltchars" where
  "tty_gltc t = (let c = lt_cc t in \<lparr>t_suspc = c ! 10, t_dsuspc = c ! 10, t_rprntc = c ! 12, t_flushc = c ! 16, t_werasc = c ! 14, t_lnextc = c ! 15\<rparr>)"

definition tty_sltc :: "ltchars \<Rightarrow> linux_termios \<Rightarrow> linux_termios" where
  "tty_sltc s t = t\<lparr>lt_cc := (lt_cc t)[10 := t_suspc s, 12 := t_rprntc s, 16 := t_flushc s, 14 := t_werasc s, 15 := t_lnextc s]\<rparr>"

text \<open>
  A handler ends with \<^verbatim>\<open>IOCTL_PASS\<close>, the inner \<open>None\<close>, or with the result and the structure of the
  caller. Two forms recur: the settings of the terminal are read and converted, whether or not Linux
  filled them in, or they are read, changed and written.
\<close>

type_synonym 'w handled = "((int \<times> ioctl_arg) option \<times> 'w) option"

definition tty_report :: "'w ttycalls \<Rightarrow> int \<Rightarrow> (linux_termios \<Rightarrow> ioctl_arg) \<Rightarrow> 'w \<Rightarrow> 'w handled" where
  "tty_report T fd f w = (let ((ret, t), w) = tcgets T fd w in Some (Some (ret, f t), w))"

definition tty_change :: "'w ttycalls \<Rightarrow> int \<Rightarrow> ioctl_arg \<Rightarrow> (linux_termios \<Rightarrow> linux_termios) \<Rightarrow> 'w \<Rightarrow> 'w handled" where
  "tty_change T fd arg f w =
     (let ((_, t), w) = tcgets T fd w; (ret, w) = tcsets T fd 0x5402 (f t) w in Some (Some (ret, arg), w))"

definition tty_ixon :: "'w ttycalls \<Rightarrow> 'w kernel \<Rightarrow> int \<Rightarrow> nat \<Rightarrow> ioctl_arg \<Rightarrow> 'w \<Rightarrow> 'w handled" where
  "tty_ixon T K fd i arg w =
     (let ((ret, t), w) = tcgets T fd w in
      if ret < 0 then Some (Some (ret, arg), w)
      else if lt_cc t ! i \<noteq> 0 then
        let (ret, w) = sys_write_nocancel K fd [lt_cc t ! i] 1 w in Some (Some (ret, arg), w)
      else Some (Some (0, arg), w))"

definition tty_flush :: "'w ttycalls \<Rightarrow> int \<Rightarrow> ioctl_arg \<Rightarrow> 'w \<Rightarrow> 'w handled" where
  "tty_flush T fd arg w =
     (case arg of
        AIntp n \<Rightarrow>
          if n \<in> {1, 2, 3} then
            let ((ret, _), w) = real_ioctl T fd 0x540B (APtr (word_of_int (n - 1))) w in Some (Some (ret, arg), w)
          else Some (Some (- 22, arg), w)
      | _ \<Rightarrow> None)"

definition tty_ptsname :: "'w ttycalls \<Rightarrow> int \<Rightarrow> ioctl_arg \<Rightarrow> 'w \<Rightarrow> 'w handled" where
  "tty_ptsname T fd arg w =
     (let ((ret, a), w) = real_ioctl T fd (LINUX_IOC 2 (CHR ''T'') 0x30 4) (AIntp 0) w in
      if ret \<noteq> 0 then Some (Some (ret, arg), w)
      else case (arg, a) of
        (AChars buf, AIntp n) \<Rightarrow> do {
          (buf, _) \<leftarrow> simple_vsprintf buf ''/dev/pts/%d'' [VNum (word_of_int n)];
          Some (Some (ret, AChars buf), w) }
      | _ \<Rightarrow> None)"

definition handle_termios :: "'w ttycalls \<Rightarrow> 'w kernel \<Rightarrow> int \<Rightarrow> u32 \<Rightarrow> ioctl_arg \<Rightarrow> 'w \<Rightarrow> 'w handled" where
  "handle_termios T K fd cmd arg w =
     (if cmd = BSD_TIOCGETA then tty_report T fd (ATermios \<circ> termios_linux_to_bsd) w
      else if cmd \<in> {BSD_TIOCSETA, BSD_TIOCSETAW, BSD_TIOCSETAF} then
        (case arg of
           ATermios b \<Rightarrow>
             let op = (if cmd = BSD_TIOCSETA then 0x5402 else if cmd = BSD_TIOCSETAW then 0x5403 else 0x5404);
                 (ret, w) = tcsets T fd op (termios_bsd_to_linux b) w in Some (Some (ret, arg), w)
         | _ \<Rightarrow> None)
      else if cmd = BSD_TIOCGETP then tty_report T fd (ASgttyb \<circ> tty_getp) w
      else if cmd = BSD_TIOCSETP then (case arg of ASgttyb s \<Rightarrow> tty_change T fd arg (tty_setp s) w | _ \<Rightarrow> None)
      else if cmd = BSD_TIOCGETC then tty_report T fd (ATchars \<circ> tty_getc) w
      else if cmd = BSD_TIOCSETC then (case arg of ATchars s \<Rightarrow> tty_change T fd arg (tty_setc s) w | _ \<Rightarrow> None)
      else if cmd = BSD_TIOCGLTC then tty_report T fd (ALtchars \<circ> tty_gltc) w
      else if cmd = BSD_TIOCSLTC then (case arg of ALtchars s \<Rightarrow> tty_change T fd arg (tty_sltc s) w | _ \<Rightarrow> None)
      else if cmd \<in> set (map fst tty_arg_cmds) then
        let (r, w) = real_ioctl T fd (switch tty_arg_cmds 0 cmd) arg w in Some (Some r, w)
      else if cmd \<in> set (map fst tty_null_cmds) then
        let ((ret, _), w) = real_ioctl T fd (switch tty_null_cmds 0 cmd) ANull w in Some (Some (ret, arg), w)
      else if cmd = BSD_TIOCIXON then tty_ixon T K fd 8 arg w
      else if cmd = BSD_TIOCIXOFF then tty_ixon T K fd 9 arg w
      else if cmd = BSD_TIOCPTYUNLK then
        let ((ret, _), w) = real_ioctl T fd (LINUX_IOC 1 (CHR ''T'') 0x31 4) (AIntp 0) w in Some (Some (ret, arg), w)
      else if cmd = BSD_TIOCPTYGNAME then tty_ptsname T fd arg w
      else if cmd = BSD_TIOCPTYGRANT then Some (Some (0, arg), w)
      else if cmd = BSD_TIOCFLUSH then tty_flush T fd arg w
      else if cmd = BSD_TIOCISATTY then
        let ((ret, _), w) = tcgets T fd w in Some (Some (if ret = 0 then 1 else 0, arg), w)
      else do {
        w \<leftarrow> simple_printf (tt_write T) (tt_stack512 T) (''Passing thru unhandled ioctl 0x%x on fd %d'' @ [CHR 0x0A])
          [VNum (ucast cmd), VNum (word_of_int fd)] w;
        Some (None, w) })"

section \<open>Files and sockets\<close>

definition filio_cmds :: "(u32 \<times> u32) list" where
  "filio_cmds = [(BSD_IOW (CHR ''f'') 126 4, 0x5421), (BSD_IOW (CHR ''f'') 125 4, 0x5452), (BSD_IO (CHR ''f'') 1, 0x5451),
     (BSD_IO (CHR ''f'') 2, 0x5450), (BSD_IOR (CHR ''f'') 127 4, 0x541B), (BSD_IOR (CHR ''f'') 123 4, 0x8903),
     (BSD_IOW (CHR ''f'') 124 4, 0x8901)]"

abbreviation "BSD_FIODTYPE \<equiv> BSD_IOR (CHR ''f'') 122 4"

definition get_fd_path :: "'w vfs \<Rightarrow> int \<Rightarrow> string option \<Rightarrow> 'w \<Rightarrow> (string option \<times> string option \<times> 'w) option" where
  "get_fd_path V fd st w = do {
     (ret, path, st, w) \<leftarrow> vchroot_fdpath V fd 256 st w;
     Some (if ret < 0 then None
           else if take 24 path = ''/Volumes/SystemRoot/dev/'' then Some (drop 19 path) else Some path, st, w) }"

text \<open>\<^verbatim>\<open>D_TAPE\<close> is 1, \<^verbatim>\<open>D_DISK\<close> 2, \<^verbatim>\<open>D_TTY\<close> 3.\<close>

definition device_type :: "string \<Rightarrow> int" where
  "device_type path =
     (if take 8 path = ''/dev/pts'' \<or> take 8 path = ''/dev/tty'' then 3
      else if take 7 path = ''/dev/st'' \<or> take 8 path = ''/dev/nst'' then 1 else 2)"

definition handle_filio ::
    "'w vfs \<Rightarrow> 'w ttycalls \<Rightarrow> int \<Rightarrow> u32 \<Rightarrow> ioctl_arg \<Rightarrow> string option \<Rightarrow> 'w \<Rightarrow>
     ((int \<times> ioctl_arg) option \<times> string option \<times> 'w) option" where
  "handle_filio V T fd cmd arg st w =
     (if cmd = BSD_FIODTYPE then
        (case arg of
           ANull \<Rightarrow> Some (Some (- 14, arg), st, w)
         | AIntp n \<Rightarrow> do {
             (p, st, w) \<leftarrow> get_fd_path V fd st w;
             Some (Some (case p of None \<Rightarrow> (- 9, arg) | Some path \<Rightarrow> (0, AIntp (device_type path))), st, w) }
         | _ \<Rightarrow> None)
      else if cmd \<in> set (map fst filio_cmds) then
        let ((ret, arg), w) = real_ioctl T fd (switch filio_cmds 0 cmd) arg w in Some (Some (ret_bsd ret, arg), st, w)
      else Some (None, st, w))"

definition handle_socket :: "'w ttycalls \<Rightarrow> u32 \<Rightarrow> ioctl_arg \<Rightarrow> (int \<times> ioctl_arg) option" where
  "handle_socket T cmd arg = (if cmd \<in> set (tt_socket_cmds T) then Some (- 45, arg) else None)"

definition sys_ioctl ::
    "'w vfs \<Rightarrow> 'w ttycalls \<Rightarrow> 'w kernel \<Rightarrow> int \<Rightarrow> u32 \<Rightarrow> ioctl_arg \<Rightarrow> string option \<Rightarrow> 'w \<Rightarrow>
     ((int \<times> ioctl_arg) \<times> string option \<times> 'w) option" where
  "sys_ioctl V T K fd cmd arg st w = do {
     (r, st, w) \<leftarrow> handle_filio V T fd cmd arg st w;
     case r of
       Some r \<Rightarrow> Some (r, st, w)
     | None \<Rightarrow>
         (case handle_socket T cmd arg of
            Some r \<Rightarrow> Some (r, st, w)
          | None \<Rightarrow> do {
              (r, w) \<leftarrow> handle_termios T K fd cmd arg w;
              case r of
                Some r \<Rightarrow> Some (r, st, w)
              | None \<Rightarrow> let (r, w) = real_ioctl T fd cmd arg w in Some (r, st, w) }) }"

section \<open>Lemmas\<close>

interpretation iflag: flag_codec iflag_tab
  by unfold_locales (simp_all add: iflag_tab_def single_bits64)

interpretation oflag: flag_codec oflag_tab
  by unfold_locales (simp_all add: oflag_tab_def single_bits64)

interpretation lflag: flag_codec lflag_tab
  by unfold_locales (simp_all add: lflag_tab_def single_bits64)

text \<open>The control flags without the size of a character.\<close>

definition cflag_pairs :: "(u64 \<times> u32) list" where
  "cflag_pairs = [(0x400, 0x40), (0x800, 0x80), (0x1000, 0x100), (0x2000, 0x200), (0x4000, 0x400), (0x8000, 0x800)]"

interpretation cflag: flag_codec cflag_pairs
  by unfold_locales (simp_all add: cflag_pairs_def single_bits64)

interpretation speed: switch_codec speed_linux_to_bsd_tab
  by unfold_locales (simp_all add: speed_linux_to_bsd_tab_def)

lemma cflag_split: "xlat cflag_tab f 0 = xlat cflag_pairs f 0 OR pick f 0x300 0x30"
proof -
  have "pick f 0x300 (0x30 :: u32) = pick f 0x100 0x30 OR pick f 0x200 0x30"
    using pick_or [of f "0x100" "0x200" "0x30 :: u32"] by simp
  moreover have "pick f m (0x30 :: u32) = pick f m 0x10 OR pick f m 0x20" for m
    using pick_simps(3) [of f m "0x10 :: u32" "0x20"] by simp
  ultimately show ?thesis
    by (simp add: cflag_tab_def cflag_pairs_def xlat_pick or_ac or.left_idem del: xlat.simps(2))
qed

lemma cflag_back: "xlat (map prod.swap cflag_tab) g 0 = xlat (map prod.swap cflag_pairs) g 0 OR pick g 0x30 0x300"
proof -
  have "pick g 0x30 (0x300 :: u64) = pick g 0x10 0x300 OR pick g 0x20 0x300"
    using pick_or [of g "0x10" "0x20" "0x300 :: u64"] by simp
  moreover have "pick g m (0x300 :: u64) = pick g m 0x100 OR pick g m 0x200" for m
    using pick_simps(3) [of g m "0x100 :: u64" "0x200"] by simp
  ultimately show ?thesis
    by (simp add: cflag_tab_def cflag_pairs_def xlat_pick or_ac or.left_idem del: xlat.simps(2))
qed

lemma cflag_roundtrip:
  "xlat (map prod.swap cflag_tab) (xlat cflag_tab f 0) 0 = (f AND 0xfc00) OR (if f AND 0x300 \<noteq> 0 then 0x300 else 0)"
proof -
  have m: "or_all (map fst cflag_pairs) = 0xfc00" by code_simp
  have a: "xlat (map prod.swap cflag_pairs) (pick f 0x300 0x30) 0 = 0"
    by (simp add: pick_def cflag_pairs_def)
  have "xlat cflag_pairs f 0 AND 0x30 = 0" by (simp add: cflag_pairs_def)
  then have b: "pick (xlat cflag_pairs f 0) 0x30 (0x300 :: u64) = 0"
    "pick (pick f 0x300 (0x30 :: u32)) 0x30 (0x300 :: u64) = (if f AND 0x300 \<noteq> 0 then 0x300 else 0)"
    by (simp_all add: pick_def)
  show ?thesis
    unfolding cflag_split cflag_back xlat_or [of _ "xlat cflag_pairs f 0"] cflag.roundtrip m a by (simp add: b)
qed

lemma fold_update:
  "distinct (map fst tab) \<Longrightarrow> k < length b \<Longrightarrow>
    fold (\<lambda>(i, j) b. b[i := f j]) tab b ! k = (case map_of tab k of Some j \<Rightarrow> f j | None \<Rightarrow> b ! k)"
proof (induction tab arbitrary: b)
  case (Cons p tab)
  obtain i j where "p = (i, j)" by force
  then show ?case using Cons by (auto simp: map_of_eq_None_iff [THEN iffD2] nth_list_update split: option.splits dest: map_of_SomeD)
qed simp

lemma sgflag_roundtrip: "sgflag_linux_to_bsd (sgflag_bsd_to_linux s t) = s AND 0x38"
proof -
  have one: "s AND m = (if s AND m \<noteq> 0 then m else 0)" if "m \<in> {8, 0x10, 0x20}" for m :: u16
  proof -
    have "single_bit m"
      using that single_bit_push [of 3, where 'a = 16] single_bit_push [of 4, where 'a = 16] single_bit_push [of 5, where 'a = 16]
      by auto
    then have "bit m n \<Longrightarrow> s AND m \<noteq> 0 \<longleftrightarrow> bit s n" for n by (rule and_single_bit)
    then have "s AND m \<noteq> 0 \<Longrightarrow> s AND m = m" by (auto simp: bit_eq_iff bit_and_iff)
    then show ?thesis by auto
  qed
  have "s AND 0x38 = (s AND 8) OR (s AND 0x10) OR (s AND 0x20)"
    by (simp add: bit.conj_disj_distrib [symmetric])
  then show ?thesis
    using one [of 8] one [of "0x10"] one [of "0x20"]
    by (simp add: sgflag_linux_to_bsd_def sgflag_bsd_to_linux_def Let_def split: if_splits)
qed

lemma cc_roundtrip:
  assumes "length b = 20" "i < 20"
  shows "cc_linux_to_bsd (cc_bsd_to_linux b (replicate 32 0)) (replicate 20 0) ! i =
    (if i \<in> fst ` set cc_tab then if b ! i = 0 then 0xff else b ! i else 0)"
proof -
  have d: "distinct (map fst cc_tab)" "distinct (map fst (map prod.swap cc_tab))" "\<forall>(i, j) \<in> set cc_tab. j < 32"
    by (simp_all add: cc_tab_def)
  have ret: "cc_bsd_to_linux b (replicate 32 0) ! j = c_b2l (b ! i)" if "(i, j) \<in> set cc_tab" for i j
  proof -
    have "map_of (map prod.swap cc_tab) j = Some i" using that d(2) by (intro map_of_is_SomeI) force+
    moreover have "cc_bsd_to_linux b l = fold (\<lambda>(j, i) l. l[j := c_b2l (b ! i)]) (map prod.swap cc_tab) l" for l
      by (simp add: cc_bsd_to_linux_def fold_map comp_def)
    ultimately show ?thesis
      using fold_update [OF d(2), of j "replicate 32 0" "\<lambda>i. c_b2l (b ! i)"] that d(3) by auto
  qed
  have upd: "cc_linux_to_bsd (cc_bsd_to_linux b (replicate 32 0)) (replicate 20 0) ! i =
      (case map_of cc_tab i of Some j \<Rightarrow> c_l2b (cc_bsd_to_linux b (replicate 32 0) ! j) | None \<Rightarrow> 0)"
    using assms fold_update [OF d(1), of i "replicate 20 0" "\<lambda>j. c_l2b (cc_bsd_to_linux b (replicate 32 0) ! j)"]
    unfolding cc_linux_to_bsd_def by (simp cong: option.case_cong)
  show ?thesis
  proof (cases "map_of cc_tab i")
    case None
    then have "i \<notin> fst ` set cc_tab" by (simp add: map_of_eq_None_iff)
    then show ?thesis unfolding upd None by simp
  next
    case (Some j)
    then have ij: "(i, j) \<in> set cc_tab" by (rule map_of_SomeD)
    then have "i \<in> fst ` set cc_tab" by force
    moreover have "c_l2b (c_b2l c) = (if c = 0 then 0xff else c)" for c by (simp add: c_l2b_def c_b2l_def)
    ultimately show ?thesis unfolding upd Some using ret [OF ij] by simp
  qed
qed

lemma length_fold_update [simp]: "length (fold (\<lambda>(i, j) b. b[i := f j]) tab b) = length b"
  by (induction tab arbitrary: b) auto

text \<open>What a terminal hands back of the settings it was given.\<close>

definition termios_kept :: "bsd_termios \<Rightarrow> bsd_termios \<Rightarrow> bool" where
  "termios_kept b b' \<longleftrightarrow>
     bt_iflag b' = bt_iflag b AND 0x6fff \<and> bt_oflag b' = bt_oflag b AND 7 \<and>
     bt_lflag b' = bt_lflag b AND 0xA0C00DFF \<and>
     bt_cflag b' = (bt_cflag b AND 0xfc00) OR (if bt_cflag b AND 0x300 \<noteq> 0 then 0x300 else 0) \<and>
     length (bt_cc b') = 20 \<and>
     (\<forall>i < 20. bt_cc b' ! i = (if i \<in> {7, 11, 18, 19} then 0 else if bt_cc b ! i = 0 then 0xff else bt_cc b ! i))"

lemma cc_used: "i < 20 \<Longrightarrow> i \<in> fst ` set cc_tab \<longleftrightarrow> i \<notin> {7, 11, 18, 19}"
proof -
  have "list_all (\<lambda>i. i \<in> fst ` set cc_tab \<longleftrightarrow> i \<notin> {7, 11, 18, 19}) [0..<20]" by (simp add: cc_tab_def upt_rec)
  then show "i < 20 \<Longrightarrow> ?thesis" by (simp add: list_all_iff)
qed

lemma termios_translated:
  assumes "length (bt_cc b) = 20"
  shows "termios_kept b (termios_linux_to_bsd (termios_bsd_to_linux b\<lparr>lt_line := x, lt_ispeed := y, lt_ospeed := z\<rparr>))"
proof -
  have "or_all (map fst iflag_tab) = 0x6fff" "or_all (map fst oflag_tab) = 7" "or_all (map fst lflag_tab) = 0xA0C00DFF"
    by code_simp+
  then show ?thesis
    using iflag.roundtrip [of "bt_iflag b"] oflag.roundtrip [of "bt_oflag b"] lflag.roundtrip [of "bt_lflag b"]
      cflag_roundtrip [of "bt_cflag b"] cc_roundtrip [OF assms] cc_used
    by (simp add: termios_kept_def termios_linux_to_bsd_def termios_bsd_to_linux_def Let_def)
      (simp add: cc_linux_to_bsd_def)
qed

lemma ioctl_numbers: "BSD_TIOCGETA = 0x40487413" "BSD_TIOCSETA = 0x80487414" "BSD_TIOCSETAW = 0x80487415" "BSD_TIOCSETAF = 0x80487416"
  by (simp_all add: BSD_IOC_def)

text \<open>The speed goes to the two fields that the kernel's structure does not have, never to the control flags.\<close>

lemma speed_not_in_cflag: "lt_cflag (termios_bsd_to_linux b) AND LINUX_CBAUD = 0"
  by (simp add: termios_bsd_to_linux_def cflag_tab_def)

definition tcset_cmds :: "(u32 \<times> u32) list" where
  "tcset_cmds = [(BSD_TIOCSETA, 0x5402), (BSD_TIOCSETAW, 0x5403), (BSD_TIOCSETAF, 0x5404)]"

lemma not_file_cmd:
  assumes "cmd \<in> {BSD_TIOCGETA, BSD_TIOCSETA, BSD_TIOCSETAW, BSD_TIOCSETAF}" "cmd \<notin> set (tt_socket_cmds T)"
  shows "sys_ioctl V T K fd cmd arg st w = do {
      (r, w) \<leftarrow> handle_termios T K fd cmd arg w;
      case r of Some r \<Rightarrow> Some (r, st, w) | None \<Rightarrow> let (r, w) = real_ioctl T fd cmd arg w in Some (r, st, w) }"
  using assms by (auto simp: sys_ioctl_def handle_filio_def handle_socket_def filio_cmds_def BSD_IOC_def)

section \<open>Properties\<close>

text \<open>
  C22: terminal settings. What \<^verbatim>\<open>tcsetattr\<close>, in each of its three forms, hands to a terminal that
  stores it is what \<^verbatim>\<open>tcgetattr\<close> returns, for every flag that both systems have and every control
  character; the exceptions are explicit. A character size other than five bits becomes eight bits, a
  control character 0, which is also how \<^verbatim>\<open>VMIN\<close> and \<^verbatim>\<open>VTIME\<close> say none, becomes 255, and the speed is
  whatever the two speed fields hold that Linux does not store.
\<close>

theorem termios_set_get:
  assumes "(cmd, op) \<in> set tcset_cmds" "length (bt_cc b) = 20"
    and "{cmd, BSD_TIOCGETA} \<inter> set (tt_socket_cmds T) = {}"
    and "tt_tcsets T fd op (termios_bsd_to_linux b) w = (0, w1)"
    and "tt_tcgets T fd w1 = ((0, termios_bsd_to_linux b\<lparr>lt_line := x, lt_ispeed := y, lt_ospeed := z\<rparr>), w2)"
  shows "sys_ioctl V T K fd cmd (ATermios b) st w = Some ((0, ATermios b), st, w1) \<and>
    (\<exists>b'. sys_ioctl V T K fd BSD_TIOCGETA arg st w1 = Some ((0, ATermios b'), st, w2) \<and> termios_kept b b' \<and>
      bt_ispeed b' = speed_linux_to_bsd y \<and> bt_ospeed b' = speed_linux_to_bsd z)"
proof -
  have c: "cmd \<in> {BSD_TIOCSETA, BSD_TIOCSETAW, BSD_TIOCSETAF}" using assms(1) by (auto simp: tcset_cmds_def)
  have op: "op = (if cmd = BSD_TIOCSETA then 0x5402 else if cmd = BSD_TIOCSETAW then 0x5403 else 0x5404)"
    using assms(1) by (auto simp: tcset_cmds_def BSD_IOC_def)
  have "cmd \<noteq> BSD_TIOCGETA" using c by (auto simp: BSD_IOC_def)
  then have "handle_termios T K fd cmd (ATermios b) w = Some (Some (0, ATermios b), w1)"
    using c op assms(4) by (simp add: handle_termios_def tcsets_def ret_bsd_def)
  then have one: "sys_ioctl V T K fd cmd (ATermios b) st w = Some ((0, ATermios b), st, w1)"
    using not_file_cmd [of cmd T] c assms(3) by simp
  let ?b = "termios_linux_to_bsd (termios_bsd_to_linux b\<lparr>lt_line := x, lt_ispeed := y, lt_ospeed := z\<rparr>)"
  have "sys_ioctl V T K fd BSD_TIOCGETA arg st w1 = Some ((0, ATermios ?b), st, w2)"
    using not_file_cmd [of BSD_TIOCGETA T] assms(3, 5)
    by (simp add: handle_termios_def tty_report_def tcgets_def ret_bsd_def)
  moreover have "bt_ispeed ?b = speed_linux_to_bsd y" "bt_ospeed ?b = speed_linux_to_bsd z"
    using speed_not_in_cflag [of b] by (simp_all add: termios_linux_to_bsd_def Let_def)
  ultimately show ?thesis
    using one termios_translated [OF assms(2), of z y x] by blast
qed

definition tty_host :: "linux_termios ttycalls" where
  "tty_host = \<lparr>tt_tcgets = (\<lambda>fd w. ((0, w), w)), tt_tcsets = (\<lambda>fd op t w. (0, t)),
     tt_ioctl = (\<lambda>fd req arg w. ((0, arg), w)), tt_write = (\<lambda>fd s w. (0, w)), tt_socket_cmds = [0xc0206911],
     tt_stack512 = replicate 512 (CHR ''-'')\<rparr>"

definition raw_termios :: bsd_termios where
  "raw_termios = \<lparr>bt_iflag = 0x200, bt_oflag = 0, bt_cflag = 0x100, bt_lflag = 8, bt_cc = replicate 20 1,
     bt_ispeed = 9600, bt_ospeed = 9600\<rparr>"

theorem termios_set_get_witness:
  "\<exists>b'. sys_ioctl plain_fs tty_host quiet_kernel 0 BSD_TIOCGETA ANull None (termios_bsd_to_linux raw_termios) =
      Some ((0, ATermios b'), None, termios_bsd_to_linux raw_termios) \<and> termios_kept raw_termios b' \<and> bt_cflag b' = 0x300"
proof -
  let ?t = "termios_bsd_to_linux raw_termios"
  have t: "?t\<lparr>lt_line := lt_line ?t, lt_ispeed := lt_ispeed ?t, lt_ospeed := lt_ospeed ?t\<rparr> = ?t" by simp
  show ?thesis
    using termios_set_get [where cmd = BSD_TIOCSETA and op = "0x5402" and b = raw_termios and T = tty_host and fd = 0 and
        w = ?t and ?w1.0 = ?t and ?w2.0 = ?t and x = "lt_line ?t" and y = "lt_ispeed ?t" and z = "lt_ospeed ?t" and
        V = plain_fs and K = quiet_kernel and arg = ANull and st = None, unfolded t]
    by (auto simp: tcset_cmds_def raw_termios_def tty_host_def BSD_IOC_def termios_kept_def)
qed

end
