(* ===== verification/Psynch.thy ===== *)
theory Psynch
  imports Unistd
begin

text \<open>
  Synchronisation of threads, \<^verbatim>\<open>src/kernel/emulation/linux/psynch/\<close>: the calls on mutexes, condition
  variables and read-write locks, which hand a structure to the kernel module and translate the error
  in the low byte of its result (\<^verbatim>\<open>psynch_errno.c\<close>), and \<^verbatim>\<open>ulock_wait\<close> and \<^verbatim>\<open>ulock_wake\<close> on the futex of
  Linux.

  The call of the kernel module is a parameter: a function of the name of the trap and of the fields of
  the structure, in the order of the initialiser. So is the futex, a function of the address, the
  operation, the value and the timeout.
\<close>

section \<open>Errors\<close>

text \<open>The error of the module is negated; 24 bits above it are kept.\<close>

definition psynch_errno :: "int \<Rightarrow> int" where
  "psynch_errno rv =
     (if rv \<ge> 0 then rv
      else let rv = - rv; upper = rv AND 0xffffff00 in - (errno_linux_to_bsd (rv AND 0xff) OR upper))"

section \<open>Calls of the module\<close>

type_synonym 'w lkm = "string \<Rightarrow> sarg list \<Rightarrow> 'w \<Rightarrow> int \<times> 'w"

definition psynch_call :: "'w lkm \<Rightarrow> string \<Rightarrow> sarg list \<Rightarrow> 'w \<Rightarrow> int \<times> 'w" where
  "psynch_call lkm nr args w = (let (rv, w) = lkm nr args w in (psynch_errno rv, w))"

definition sys_psynch_cvbroad ::
    "'w lkm \<Rightarrow> u64 \<Rightarrow> u64 \<Rightarrow> u64 \<Rightarrow> u32 \<Rightarrow> u64 \<Rightarrow> u64 \<Rightarrow> u64 \<Rightarrow> 'w \<Rightarrow> int \<times> 'w" where
  "sys_psynch_cvbroad lkm cv cvlsgen cvudgen flags mutex mugen tid w =
     psynch_call lkm ''psynch_cvbroad'' [AWord cv, AWord cvlsgen, AWord cvudgen, AWord mutex, AWord mugen, AWord tid,
       AInt (uint flags)] w"

definition sys_psynch_cvclrprepost ::
    "'w lkm \<Rightarrow> u64 \<Rightarrow> u32 \<Rightarrow> u32 \<Rightarrow> u32 \<Rightarrow> u32 \<Rightarrow> u32 \<Rightarrow> u32 \<Rightarrow> 'w \<Rightarrow> int \<times> 'w" where
  "sys_psynch_cvclrprepost lkm cv cvgen cvugen cvsgen prepocnt preposeq flags w =
     psynch_call lkm ''psynch_cvclrprepost'' (AWord cv # map (\<lambda>x. AInt (uint x)) [cvgen, cvugen, cvsgen, prepocnt, preposeq, flags]) w"

definition sys_psynch_cvsignal ::
    "'w lkm \<Rightarrow> u64 \<Rightarrow> u32 \<Rightarrow> u32 \<Rightarrow> int \<Rightarrow> u64 \<Rightarrow> u32 \<Rightarrow> u64 \<Rightarrow> u32 \<Rightarrow> 'w \<Rightarrow> int \<times> 'w" where
  "sys_psynch_cvsignal lkm cv cvlsgen cvugen thread_port mutex mugen tid flags w =
     psynch_call lkm ''psynch_cvsignal'' [AWord cv, AInt (uint cvlsgen), AInt (uint cvugen), AWord mutex, AInt (uint mugen),
       AWord tid, AInt thread_port, AInt (uint flags)] w"

definition sys_psynch_cvwait ::
    "'w lkm \<Rightarrow> u64 \<Rightarrow> u64 \<Rightarrow> u32 \<Rightarrow> u64 \<Rightarrow> u64 \<Rightarrow> u32 \<Rightarrow> int \<Rightarrow> u32 \<Rightarrow> 'w \<Rightarrow> int \<times> 'w" where
  "sys_psynch_cvwait lkm cv cvlsgen cvugen mutex mugen flags sec nsec w =
     psynch_call lkm ''psynch_cvwait'' [AWord cv, AWord cvlsgen, AInt (uint cvugen), AWord mutex, AWord mugen,
       AInt (uint flags), AInt sec, AInt (uint nsec)] w"

definition sys_psynch_mutexdrop :: "'w lkm \<Rightarrow> u64 \<Rightarrow> u32 \<Rightarrow> u32 \<Rightarrow> u64 \<Rightarrow> u32 \<Rightarrow> 'w \<Rightarrow> int \<times> 'w" where
  "sys_psynch_mutexdrop lkm mutex mgen ugen tid flags w =
     psynch_call lkm ''psynch_mutexdrop'' [AWord mutex, AInt (uint mgen), AInt (uint ugen), AWord tid, AInt (uint flags)] w"

definition sys_psynch_mutexwait :: "'w lkm \<Rightarrow> u64 \<Rightarrow> u32 \<Rightarrow> u32 \<Rightarrow> u64 \<Rightarrow> u32 \<Rightarrow> 'w \<Rightarrow> int \<times> 'w" where
  "sys_psynch_mutexwait lkm mutex mgen ugen tid flags w =
     psynch_call lkm ''psynch_mutexwait'' [AWord mutex, AInt (uint mgen), AInt (uint ugen), AWord tid, AInt (uint flags)] w"

definition sys_psynch_rw_rdlock :: "'w lkm \<Rightarrow> u64 \<Rightarrow> u32 \<Rightarrow> u32 \<Rightarrow> u32 \<Rightarrow> int \<Rightarrow> 'w \<Rightarrow> int \<times> 'w" where
  "sys_psynch_rw_rdlock lkm rwlock lgenval ugenval rw_wc flags w =
     psynch_call lkm ''psynch_rw_rdlock'' [AWord rwlock, AInt (uint lgenval), AInt (uint ugenval), AInt (uint rw_wc), AInt flags] w"

definition sys_psynch_rw_unlock :: "'w lkm \<Rightarrow> u64 \<Rightarrow> u32 \<Rightarrow> u32 \<Rightarrow> u32 \<Rightarrow> int \<Rightarrow> 'w \<Rightarrow> int \<times> 'w" where
  "sys_psynch_rw_unlock lkm rwlock lgenval ugenval rw_wc flags w =
     psynch_call lkm ''psynch_rw_unlock'' [AWord rwlock, AInt (uint lgenval), AInt (uint ugenval), AInt (uint rw_wc), AInt flags] w"

definition sys_psynch_rw_wrlock :: "'w lkm \<Rightarrow> u64 \<Rightarrow> u32 \<Rightarrow> u32 \<Rightarrow> u32 \<Rightarrow> int \<Rightarrow> 'w \<Rightarrow> int \<times> 'w" where
  "sys_psynch_rw_wrlock lkm rwlock lgenval ugenval rw_wc flags w =
     psynch_call lkm ''psynch_rw_wrlock'' [AWord rwlock, AInt (uint lgenval), AInt (uint ugenval), AInt (uint rw_wc), AInt flags] w"

section \<open>Locks on an address\<close>

record timespec =
  ts_sec :: int
  ts_nsec :: int

type_synonym 'w futex = "u64 \<Rightarrow> int \<Rightarrow> u64 \<Rightarrow> timespec option \<Rightarrow> 'w \<Rightarrow> int \<times> 'w"

abbreviation (input) ULF_NO_ERRNO :: u32 where "ULF_NO_ERRNO \<equiv> 0x1000000"
abbreviation (input) ULF_WAKE_ALL :: u32 where "ULF_WAKE_ALL \<equiv> 0x100"
abbreviation (input) ULF_WAKE_THREAD :: u32 where "ULF_WAKE_THREAD \<equiv> 0x200"

text \<open>The timeout, in microseconds, as the structure for Linux.\<close>

definition ulock_timeout :: "u32 \<Rightarrow> timespec option" where
  "ulock_timeout timeout =
     (if timeout = 0 then None
      else Some \<lparr>ts_sec = uint timeout div 1000 * 1000, ts_nsec = uint timeout mod (1000 * 1000) * 1000\<rparr>)"

text \<open>The errors of both calls: those of the argument, and those of Linux.\<close>

definition ulock_einval :: "u32 \<Rightarrow> int" where
  "ulock_einval operation = (if operation AND ULF_NO_ERRNO \<noteq> 0 then - (22 OR 0x800) else - 22)"

definition ulock_error :: "u32 \<Rightarrow> int \<Rightarrow> int" where
  "ulock_error operation ret =
     (let ret = errno_linux_to_bsd ret in if operation AND ULF_NO_ERRNO \<noteq> 0 then ret AND NOT 0x800 else ret)"

definition sys_ulock_wait :: "'w futex \<Rightarrow> u32 \<Rightarrow> u64 \<Rightarrow> u64 \<Rightarrow> u32 \<Rightarrow> 'w \<Rightarrow> int \<times> 'w" where
  "sys_ulock_wait futex operation addr value timeout w =
     (if operation AND 0xff \<in> {1, 2} then
        let (ret, w) = futex addr (0 OR 128) value (ulock_timeout timeout) w;
            ret = (if ret = 0 \<or> ret = - 11 then 1 else ret) in
        (if ret < 0 then ulock_error operation ret else ret, w)
      else (ulock_einval operation, w))"

definition sys_ulock_wake :: "'w futex \<Rightarrow> u32 \<Rightarrow> u64 \<Rightarrow> u64 \<Rightarrow> 'w \<Rightarrow> int \<times> 'w" where
  "sys_ulock_wake futex operation addr wake_value w =
     (if operation AND 0xff \<in> {1, 2} then
        let value = (if operation AND ULF_WAKE_ALL \<noteq> 0 then 2147483647
                     else if operation AND ULF_WAKE_THREAD \<noteq> 0 then 2147483647 else 1);
            (ret, w) = futex addr (1 OR 128) value None w in
        (if ret < 0 then ulock_error operation ret else 0, w)
      else (ulock_einval operation, w))"

section \<open>Lemmas\<close>

text \<open>
  The two ways in which an error is marked with the bit 0x800, on the positive number before it is
  negated and on the negative number by clearing the bit, give the same result.
\<close>

lemma mark_negative:
  fixes e :: int
  assumes "0 < e" "e < 0x800"
  shows "(- e) AND NOT 0x800 = - (e OR 0x800)"
proof -
  have z: "a AND 0x800 = 0" if "0 \<le> a" "a < 0x800" for a :: int
    using and_exp_eq_0_iff_not_bit [of a 11] that by (simp add: bit_iff_odd)
  have or: "a OR 0x800 = a + 0x800" if "0 \<le> a" "a < 0x800" for a :: int
    using disjunctive_add_eq_or [OF z [OF that]] by simp
  have "(- e) AND NOT 0x800 = NOT ((e - 1) OR 0x800)"
    by (simp only: minus_eq_not_minus_1 bit.de_Morgan_disj)
  also have "\<dots> = - (e OR 0x800)" using or [of e] or [of "e - 1"] assms by (simp add: not_int_def)
  finally show ?thesis .
qed

text \<open>
  The timeout that Linux gets is the one asked for, in microseconds, exactly if it is below a
  millisecond; from there on it is more than five hundred thousand times as long.
\<close>

lemma ulock_timeout_exact:
  assumes "timeout \<noteq> 0"
  shows "\<exists>ts. ulock_timeout timeout = Some ts \<and>
    (ts_sec ts * 1000000000 + ts_nsec ts = uint timeout * 1000 \<longleftrightarrow> uint timeout < 1000) \<and>
    (1000 \<le> uint timeout \<longrightarrow> 500000 * (uint timeout * 1000) < ts_sec ts * 1000000000 + ts_nsec ts)"
proof -
  let ?t = "uint timeout"
  have t: "0 \<le> ?t" by simp
  have small: "?t < 1000 \<Longrightarrow> ?t div 1000 * 1000 = 0 \<and> ?t mod 1000000 = ?t" using t by simp
  have "?t = ?t div 1000 * 1000 + ?t mod 1000" "0 \<le> ?t mod 1000" "?t mod 1000 < 1000" by simp_all
  moreover have "1000 \<le> ?t \<Longrightarrow> 1000 \<le> ?t div 1000 * 1000" using zdiv_mono1 [of 1000 ?t 1000] by simp
  moreover have "0 \<le> ?t mod 1000000" by simp
  ultimately have big: "1000 \<le> ?t \<Longrightarrow> 500000 * (?t * 1000) < ?t div 1000 * 1000 * 1000000000 + ?t mod 1000000 * 1000"
    by linarith
  show ?thesis using assms small big by (auto simp: ulock_timeout_def)
qed

text \<open>An error of the module keeps its upper bits, and its low byte is translated.\<close>

lemma errno_byte:
  assumes "0 < e" "e < 256"
  shows "0 < errno_linux_to_bsd e" "errno_linux_to_bsd e < 256"
proof -
  show "0 < errno_linux_to_bsd e" using assms(1) by (rule errno.tr_pos)
  have "switch linux_to_darwin_last e e < 256"
    using switch_range [of linux_to_darwin_last e e] last_range assms(2) by fastforce
  then show "errno_linux_to_bsd e < 256" using assms by (simp add: errno_switch)
qed

lemma psynch_errno_split:
  assumes "0 < e" "e < 256" "0 \<le> hi" "256 * hi + e < 2 ^ 31"
  shows "psynch_errno (- (256 * hi + e)) = - (256 * hi + errno_linux_to_bsd e)"
proof -
  let ?rv = "256 * hi + e"
  have low: "?rv AND 0xff = e"
  proof -
    have "?rv AND mask 8 = ?rv mod 256" by (simp add: take_bit_eq_mask [symmetric] take_bit_eq_mod)
    then show ?thesis using assms(1, 2) by (simp add: mask_eq_exp_minus_1)
  qed
  have "a AND push_bit 8 (mask 24) = push_bit 8 (take_bit 24 (drop_bit 8 a))" for a :: int
    by (rule bit_eqI) (auto simp: bit_simps)
  moreover have "(push_bit 8 (mask 24) :: int) = 0xffffff00" by (simp add: mask_eq_exp_minus_1 push_bit_eq_mult)
  ultimately have "?rv AND 0xffffff00 = push_bit 8 (take_bit 24 (drop_bit 8 ?rv))" by metis
  moreover have "drop_bit 8 ?rv = hi" using assms(1, 2) by (simp add: drop_bit_eq_div)
  moreover have "take_bit 24 hi = hi" using assms by (intro take_bit_int_eq_self) auto
  ultimately have high: "?rv AND 0xffffff00 = 256 * hi" by (simp add: push_bit_eq_mult)
  have "errno_linux_to_bsd e AND push_bit 8 hi = 0"
  proof (rule bit_eqI)
    fix n
    have "take_bit 8 (errno_linux_to_bsd e) = errno_linux_to_bsd e" using errno_byte [OF assms(1, 2)] by (intro take_bit_int_eq_self) auto
    then have "bit (errno_linux_to_bsd e) n \<Longrightarrow> n < 8" by (metis bit_take_bit_iff)
    then show "bit (errno_linux_to_bsd e AND push_bit 8 hi) n = bit 0 n" by (auto simp: bit_simps)
  qed
  then have "errno_linux_to_bsd e OR 256 * hi = errno_linux_to_bsd e + 256 * hi"
    using disjunctive_add_eq_or [of "errno_linux_to_bsd e" "push_bit 8 hi"] by (simp add: push_bit_eq_mult mult.commute)
  then show ?thesis using assms(1, 3) unfolding psynch_errno_def Let_def minus_minus low high by simp
qed

section \<open>Properties\<close>

text \<open>
  C34: errors of the lock calls are marked in one way. When the caller asks for errors without
  \<^verbatim>\<open>errno\<close>, an error of Linux and an argument that is refused are both returned as the negated Darwin
  number with the bit 0x800, although the code sets the bit of a positive number in one place and
  clears the bit of a negative number in the other; without the flag both are the negated number. A
  wake-up that succeeds is 0, and a wait that returns at once is 1.
\<close>

theorem ulock_results:
  assumes "- 256 < r"
    and "futex addr 128 value (ulock_timeout timeout) w = (r, w')" "futex addr 129 (if operation AND 0x300 \<noteq> 0 then 2147483647 else 1) None v = (r, v')"
  shows "let mark = (\<lambda>e. if operation AND ULF_NO_ERRNO \<noteq> 0 then - (e OR 0x800) else - e) in
    if operation AND 0xff \<in> {1, 2} then
      sys_ulock_wait futex operation addr value timeout w =
        (if r = 0 \<or> r = - 11 then 1 else if r < 0 then mark (errno_linux_to_bsd (- r)) else r, w') \<and>
      sys_ulock_wake futex operation addr wake_value v = (if r < 0 then mark (errno_linux_to_bsd (- r)) else 0, v')
    else sys_ulock_wait futex operation addr value timeout w = (mark 22, w) \<and>
      sys_ulock_wake futex operation addr wake_value v = (mark 22, v)"
proof -
  have neg: "errno_linux_to_bsd r = - errno_linux_to_bsd (- r)" using errno.tr_odd [of "- r"] by simp
  have err: "r < 0 \<Longrightarrow> ulock_error operation r =
      (if operation AND ULF_NO_ERRNO \<noteq> 0 then - (errno_linux_to_bsd (- r) OR 0x800) else - errno_linux_to_bsd (- r))"
    using errno_byte [of "- r"] mark_negative [of "errno_linux_to_bsd (- r)"] assms(1)
    by (simp add: ulock_error_def neg)
  have "operation AND 0x300 = (operation AND 0x100) OR (operation AND 0x200)"
    by (simp add: bit.conj_disj_distrib [symmetric])
  then have wake: "(if operation AND ULF_WAKE_ALL \<noteq> 0 then 2147483647
      else if operation AND ULF_WAKE_THREAD \<noteq> 0 then 2147483647 else 1) = (if operation AND 0x300 \<noteq> 0 then 2147483647 else 1 :: u64)"
    by (simp add: or_eq_0_iff)
  show ?thesis
    using assms(2, 3) err
    by (auto simp: Let_def sys_ulock_wait_def sys_ulock_wake_def ulock_einval_def wake)
qed

lemma etimedout: "errno_linux_to_bsd 110 = 60"
  by code_simp

theorem ulock_results_witness:
  "sys_ulock_wait (\<lambda>a p v t w. (- 110, w)) 0x1000001 0 0 5 () = (- 2108, ()) \<and>
   sys_ulock_wake (\<lambda>a p v t w. (- 110, w)) 0x1000001 0 0 () = (- 2108, ())"
  using ulock_results [of "- 110" "\<lambda>a p v t w. (- 110, w)" 0 0 5 "()" "()" "0x1000001" "()" "()" 0] etimedout
  by simp

end
