(* ===== verification/Times.thy ===== *)
theory Times
  imports Unistd Signals
begin

text \<open>
  Times and waiting for descriptors, \<^verbatim>\<open>src/kernel/emulation/linux/time/\<close> and \<^verbatim>\<open>select/\<close>: the calls on
  the time of day, the interval timers and the times of a file, and \<^verbatim>\<open>select\<close>, \<^verbatim>\<open>pselect\<close> and \<^verbatim>\<open>poll\<close>.
  The x86-64 variants are modelled, with \<^verbatim>\<open>__NR_poll\<close>, \<^verbatim>\<open>__NR_select\<close> and \<^verbatim>\<open>__NR_utimes\<close>.

  The calls of Linux that take or fill a structure are parameters, the fields of \<open>timecalls\<close>. The sets
  of descriptors and the array of \<^verbatim>\<open>poll\<close> are handed on as addresses.
\<close>

section \<open>Structures\<close>

record bsd_timeval =
  btv_sec :: u64
  btv_usec :: u32

record linux_timeval =
  ltv_sec :: u64
  ltv_usec :: u64

record bsd_itimerval =
  bit_interval :: bsd_timeval
  bit_value :: bsd_timeval

record linux_itimerval =
  lit_interval :: linux_timeval
  lit_value :: linux_timeval

definition timeval_bsd_to_linux :: "bsd_timeval \<Rightarrow> linux_timeval" where
  "timeval_bsd_to_linux t = \<lparr>ltv_sec = btv_sec t, ltv_usec = scast (btv_usec t)\<rparr>"

definition timeval_linux_to_bsd :: "linux_timeval \<Rightarrow> bsd_timeval" where
  "timeval_linux_to_bsd t = \<lparr>btv_sec = ltv_sec t, btv_usec = ucast (ltv_usec t)\<rparr>"

definition itimerval_bsd_to_linux :: "bsd_itimerval \<Rightarrow> linux_itimerval" where
  "itimerval_bsd_to_linux t = \<lparr>lit_interval = timeval_bsd_to_linux (bit_interval t), lit_value = timeval_bsd_to_linux (bit_value t)\<rparr>"

definition itimerval_linux_to_bsd :: "linux_itimerval \<Rightarrow> bsd_itimerval" where
  "itimerval_linux_to_bsd t = \<lparr>bit_interval = timeval_linux_to_bsd (lit_interval t), bit_value = timeval_linux_to_bsd (lit_value t)\<rparr>"

text \<open>
  \<open>tc_utimensat\<close> reads its two structures as seconds and nanoseconds, \<open>tc_utimes\<close> as seconds and
  microseconds; \<open>tc_pselect6\<close> reads its timeout as seconds and nanoseconds, and its last argument as a
  pair of the address of a mask and its size.
\<close>

record 'w timecalls =
  tc_gettimeofday :: "u64 \<Rightarrow> 'w \<Rightarrow> (int \<times> linux_timeval) \<times> 'w"
  tc_getitimer :: "int \<Rightarrow> 'w \<Rightarrow> (int \<times> linux_itimerval) \<times> 'w"
  tc_setitimer :: "int \<Rightarrow> linux_itimerval \<Rightarrow> 'w \<Rightarrow> (int \<times> linux_itimerval) \<times> 'w"
  tc_utimensat :: "int \<Rightarrow> linux_timeval \<times> linux_timeval \<Rightarrow> 'w \<Rightarrow> int \<times> 'w"
  tc_utimes :: "string \<Rightarrow> (linux_timeval \<times> linux_timeval) option \<Rightarrow> 'w \<Rightarrow> int \<times> 'w"
  tc_select :: "int \<Rightarrow> u64 \<Rightarrow> u64 \<Rightarrow> u64 \<Rightarrow> linux_timeval option \<Rightarrow> 'w \<Rightarrow> int \<times> 'w"
  tc_pselect6 :: "int \<Rightarrow> u64 \<Rightarrow> u64 \<Rightarrow> u64 \<Rightarrow> linux_timeval option \<Rightarrow> (u64 \<times> u64) option \<Rightarrow> 'w \<Rightarrow> int \<times> 'w"
  tc_poll :: "u64 \<Rightarrow> u32 \<Rightarrow> int \<Rightarrow> 'w \<Rightarrow> int \<times> 'w"

section \<open>Time of day and timers\<close>

text \<open>The pointer \<^verbatim>\<open>tv\<close> is not tested: storing through a null pointer is \<open>None\<close>.\<close>

definition sys_gettimeofday :: "'w timecalls \<Rightarrow> bool \<Rightarrow> u64 \<Rightarrow> 'w \<Rightarrow> ((int \<times> bsd_timeval option) \<times> 'w) option" where
  "sys_gettimeofday T has_tv tz w =
     (let ((ret, ltv), w) = tc_gettimeofday T tz w in
      if ret < 0 then Some ((errno_linux_to_bsd ret, None), w)
      else if has_tv then Some ((ret, Some (timeval_linux_to_bsd ltv)), w) else None)"

definition sys_getitimer :: "'w timecalls \<Rightarrow> int \<Rightarrow> bool \<Rightarrow> 'w \<Rightarrow> (int \<times> bsd_itimerval option) \<times> 'w" where
  "sys_getitimer T which has_oitv w =
     (if \<not> has_oitv then ((- 14, None), w)
      else let ((ret, out), w) = tc_getitimer T which w in
        if ret < 0 then ((errno_linux_to_bsd ret, None), w)
        else ((ret, Some (itimerval_linux_to_bsd out)), w))"

definition sys_setitimer ::
    "'w timecalls \<Rightarrow> int \<Rightarrow> bsd_itimerval option \<Rightarrow> bool \<Rightarrow> 'w \<Rightarrow> (int \<times> bsd_itimerval option) \<times> 'w" where
  "sys_setitimer T which itv has_oitv w =
     (case itv of
        None \<Rightarrow> ((- 14, None), w)
      | Some itv \<Rightarrow>
          let ((ret, out), w) = tc_setitimer T which (itimerval_bsd_to_linux itv) w in
          if ret < 0 then ((errno_linux_to_bsd ret, None), w)
          else ((ret, if has_oitv then Some (itimerval_linux_to_bsd out) else None), w))"

section \<open>Times of a file\<close>

definition sys_futimes :: "'w timecalls \<Rightarrow> int \<Rightarrow> (bsd_timeval \<times> bsd_timeval) option \<Rightarrow> 'w \<Rightarrow> (int \<times> 'w) option" where
  "sys_futimes T fd tv w =
     (case tv of
        None \<Rightarrow> None
      | Some (a, m) \<Rightarrow>
          let (ret, w) = tc_utimensat T fd (timeval_bsd_to_linux a, timeval_bsd_to_linux m) w in Some (ret_bsd ret, w))"

definition sys_utimes ::
    "'w vfs \<Rightarrow> 'w timecalls \<Rightarrow> tsd \<Rightarrow> string \<Rightarrow> (bsd_timeval \<times> bsd_timeval) option \<Rightarrow> string option \<Rightarrow> 'w \<Rightarrow>
     (int \<times> string option \<times> 'w) option" where
  "sys_utimes V T t path tv st w = do {
     (r, st, w) \<leftarrow> expand_path V (get_perthread_wd t) path True st w;
     case r of
       Inl e \<Rightarrow> Some (e, st, w)
     | Inr p \<Rightarrow>
         let (ret, w) = tc_utimes T p (map_option (map_prod timeval_bsd_to_linux timeval_bsd_to_linux) tv) w in
         Some (ret_bsd ret, st, w) }"

section \<open>Waiting for descriptors\<close>

definition sys_select_nocancel ::
    "'w timecalls \<Rightarrow> int \<Rightarrow> u64 \<Rightarrow> u64 \<Rightarrow> u64 \<Rightarrow> bsd_timeval option \<Rightarrow> 'w \<Rightarrow> int \<times> 'w" where
  "sys_select_nocancel T nfds rfds wfds efds timeout w =
     (let (ret, w) = tc_select T nfds rfds wfds efds (map_option timeval_bsd_to_linux timeout) w in (ret_bsd ret, w))"

text \<open>The first of the two numbers for the mask is the mask, and not its address.\<close>

definition sys_pselect_nocancel ::
    "'w timecalls \<Rightarrow> int \<Rightarrow> u64 \<Rightarrow> u64 \<Rightarrow> u64 \<Rightarrow> bsd_timeval option \<Rightarrow> u32 option \<Rightarrow> 'w \<Rightarrow> int \<times> 'w" where
  "sys_pselect_nocancel T nfds rfds wfds efds timeout sset w =
     (let (ret, w) = tc_pselect6 T nfds rfds wfds efds (map_option timeval_bsd_to_linux timeout)
        (map_option (\<lambda>s. (sigset_bsd_to_linux s, 65 div 8)) sset) w in (ret_bsd ret, w))"

definition sys_poll_nocancel :: "'w timecalls \<Rightarrow> u64 \<Rightarrow> u32 \<Rightarrow> int \<Rightarrow> 'w \<Rightarrow> int \<times> 'w" where
  "sys_poll_nocancel T fds nfds timeout w = (let (ret, w) = tc_poll T fds nfds timeout w in (ret_bsd ret, w))"

section \<open>Lemmas\<close>

lemma narrow_widened [simp]: "(ucast (scast (x :: u32) :: u64) :: u32) = x"
proof (rule bit_eqI)
  fix n assume "possible_bit TYPE(u32) n"
  then show "bit (ucast (scast x :: u64) :: u32) n = bit x n" by (cases "n = 31") (auto simp: bit_simps min_def)
qed

lemma timeval_roundtrip [simp]: "timeval_linux_to_bsd (timeval_bsd_to_linux t) = t"
  by (simp add: timeval_linux_to_bsd_def timeval_bsd_to_linux_def)

lemma itimerval_roundtrip [simp]: "itimerval_linux_to_bsd (itimerval_bsd_to_linux t) = t"
  by (simp add: itimerval_linux_to_bsd_def itimerval_bsd_to_linux_def)

text \<open>The microseconds of a time that is in order are kept in the wider field, for negative ones too.\<close>

lemma timeval_usec: "sint (ltv_usec (timeval_bsd_to_linux t)) = sint (btv_usec t)"
  using sint_greater_eq [of "btv_usec t"] sint_less [of "btv_usec t"]
  by (simp add: timeval_bsd_to_linux_def signed_scast_eq signed_take_bit_int_eq_self)

text \<open>
  A timer that was set is read back: by \<^verbatim>\<open>getitimer\<close>, and as the old value by the next \<^verbatim>\<open>setitimer\<close>.
\<close>

lemma itimer_set_get:
  assumes "tc_setitimer T which (itimerval_bsd_to_linux itv) w = ((0, old), w1)"
    and "tc_getitimer T which w1 = ((0, itimerval_bsd_to_linux itv), w2)"
  shows "sys_setitimer T which (Some itv) has w = ((0, if has then Some (itimerval_linux_to_bsd old) else None), w1) \<and>
    sys_getitimer T which True w1 = ((0, Some itv), w2)"
  using assms by (simp add: sys_setitimer_def sys_getitimer_def)

text \<open>
  \<^verbatim>\<open>futimes\<close> hands microseconds to a call that reads nanoseconds: the time a file gets differs from the
  requested one unless the microseconds are 0.
\<close>

definition nanoseconds :: "linux_timeval \<Rightarrow> int" where
  "nanoseconds t = uint (ltv_sec t) * 1000000000 + sint (ltv_usec t)"

definition microseconds :: "bsd_timeval \<Rightarrow> int" where
  "microseconds t = uint (btv_sec t) * 1000000 + sint (btv_usec t)"

lemma futimes_scale: "nanoseconds (timeval_bsd_to_linux t) = microseconds t * 1000 \<longleftrightarrow> btv_usec t = 0"
proof -
  have "nanoseconds (timeval_bsd_to_linux t) = uint (btv_sec t) * 1000000000 + sint (btv_usec t)"
    by (simp add: nanoseconds_def timeval_usec) (simp add: timeval_bsd_to_linux_def)
  moreover have "sint (btv_usec t) = 0 \<longleftrightarrow> btv_usec t = 0" by (metis signed_0 signed_word_eqI)
  ultimately show ?thesis by (auto simp: microseconds_def)
qed

end
