(* ===== verification/Threads.thy ===== *)
theory Threads
  imports Times
begin

text \<open>
  The calls on threads and on semaphores: \<^verbatim>\<open>src/kernel/emulation/linux/bsdthread/\<close> without the work queue,
  \<^verbatim>\<open>synch/semwait_signal.c\<close> and \<^verbatim>\<open>sysv_sem/\<close>. The build defines \<^verbatim>\<open>BSDTHREAD_WRAP_LINUX_PTHREAD\<close>: a thread is
  created and ended by two functions outside the directory, which are parameters, as are the traps of
  the kernel module and the calls of Linux. The x86-64 variant is modelled.
\<close>

record 'w threadcalls =
  th_pthread_canceled :: "int \<Rightarrow> 'w \<Rightarrow> int \<times> 'w"
  th_pthread_markcancel :: "int \<Rightarrow> 'w \<Rightarrow> int \<times> 'w"
  th_pthread_kill :: "int \<Rightarrow> int \<Rightarrow> 'w \<Rightarrow> int \<times> 'w"
  th_set_handles :: "u64 \<Rightarrow> u64 \<Rightarrow> 'w \<Rightarrow> 'w"
  th_death_announce :: "'w \<Rightarrow> 'w"
  th_sigexc_setup :: "'w \<Rightarrow> 'w"
  th_create :: "u64 \<Rightarrow> u32 \<Rightarrow> u64 \<Rightarrow> u64 \<Rightarrow> u64 \<Rightarrow> u32 \<Rightarrow> u64 \<Rightarrow> 'w \<Rightarrow> u64 \<times> 'w"
  th_terminate :: "u64 \<Rightarrow> u64 \<Rightarrow> u32 \<Rightarrow> 'w \<Rightarrow> int \<times> 'w"
  th_semaphore_wait :: "int \<Rightarrow> 'w \<Rightarrow> int \<times> 'w"
  th_semaphore_wait_signal :: "int \<Rightarrow> int \<Rightarrow> 'w \<Rightarrow> int \<times> 'w"
  th_semaphore_timedwait :: "int \<Rightarrow> u32 \<Rightarrow> u32 \<Rightarrow> 'w \<Rightarrow> int \<times> 'w"
  th_semaphore_timedwait_signal :: "int \<Rightarrow> int \<Rightarrow> u32 \<Rightarrow> u32 \<Rightarrow> 'w \<Rightarrow> int \<times> 'w"
  th_semaphore_signal :: "int \<Rightarrow> 'w \<Rightarrow> int \<times> 'w"

section \<open>Cancelation and signals of a thread\<close>

text \<open>\<open>threads\<close> is \<^verbatim>\<open>uses_threads()\<close>: whether a thread was ever created.\<close>

definition sys_pthread_canceled :: "'w threadcalls \<Rightarrow> bool \<Rightarrow> int \<Rightarrow> 'w \<Rightarrow> int \<times> 'w" where
  "sys_pthread_canceled T threads action w =
     (if action = 0 \<and> \<not> threads then (- 22, w)
      else let (ret, w) = th_pthread_canceled T action w in (ret_bsd ret, w))"

text \<open>The macro before the calls that have a variant that cannot be canceled.\<close>

definition CANCELATION_POINT :: "'w threadcalls \<Rightarrow> bool \<Rightarrow> ('w \<Rightarrow> (int \<times> 'w) option) \<Rightarrow> 'w \<Rightarrow> (int \<times> 'w) option" where
  "CANCELATION_POINT T threads nocancel w =
     (let (c, w) = sys_pthread_canceled T threads 0 w in if c = 0 then Some (- 4, w) else nocancel w)"

definition sys_pthread_markcancel :: "'w threadcalls \<Rightarrow> int \<Rightarrow> 'w \<Rightarrow> int \<times> 'w" where
  "sys_pthread_markcancel T thread_port w = (let (ret, w) = th_pthread_markcancel T thread_port w in (ret_bsd ret, w))"

definition sys_pthread_kill :: "'w threadcalls \<Rightarrow> int \<Rightarrow> int \<Rightarrow> 'w \<Rightarrow> int \<times> 'w" where
  "sys_pthread_kill T thread_port sig w =
     (let (ret, w) = th_pthread_kill T thread_port (signum_bsd_to_linux sig) w in (ret_bsd ret, w))"

definition sys_disable_threadsignal :: "'w threadcalls \<Rightarrow> 'w sigcalls \<Rightarrow> bool \<Rightarrow> int \<Rightarrow> 'w \<Rightarrow> int \<times> 'w" where
  "sys_disable_threadsignal T S threads disable w =
     (if disable = 0 then (- 45, w)
      else let (_, w) = sys_pthread_canceled T threads 2 w;
               (ret, _, w) = sys_sigprocmask S 1 (Some (- 1)) False w in (ret, w))"

section \<open>The working directory of a thread\<close>

text \<open>
  The flags are \<^verbatim>\<open>O_RDONLY\<close>, \<^verbatim>\<open>O_DIRECTORY\<close> and \<^verbatim>\<open>O_CLOEXEC\<close>. The state of the thread is returned changed.
\<close>

definition close_wd :: "'w kernel \<Rightarrow> tsd \<Rightarrow> 'w \<Rightarrow> 'w" where
  "close_wd K t w = (if get_perthread_wd t \<noteq> LINUX_AT_FDCWD then snd (close_internal K (get_perthread_wd t) w) else w)"

definition sys_pthread_chdir ::
    "'w vfs \<Rightarrow> 'w filecalls \<Rightarrow> 'w kernel \<Rightarrow> tsd \<Rightarrow> string option \<Rightarrow> string option \<Rightarrow> 'w \<Rightarrow> ((int \<times> tsd) \<times> string option \<times> 'w) option" where
  "sys_pthread_chdir V F K t path st w = do {
     (newfd, st, w) \<leftarrow> sys_open_nocancel V F t path 0x1100000 0 st w;
     if newfd < 0 then Some ((newfd, t), st, w)
     else Some ((0, set_perthread_wd newfd t), st, close_wd K t w) }"

definition sys_pthread_fchdir ::
    "'w vfs \<Rightarrow> 'w filecalls \<Rightarrow> 'w kernel \<Rightarrow> tsd \<Rightarrow> int \<Rightarrow> string option \<Rightarrow> 'w \<Rightarrow> ((int \<times> tsd) \<times> string option \<times> 'w) option" where
  "sys_pthread_fchdir V F K t newfd st w =
     (let w = close_wd K t w in
      if newfd = - 1 then Some ((0, set_perthread_wd LINUX_AT_FDCWD t), st, w)
      else let (newfd, w) = sys_dup K newfd w in
        if newfd < 0 then Some ((newfd, t), st, w)
        else do { (_, st, w) \<leftarrow> sys_fcntl_nocancel V F newfd F_SETFD (BNum 1) st w;
                  Some ((0, set_perthread_wd newfd t), st, w) })"

section \<open>Creation and end of a thread\<close>

record thread_globals =
  pthread_obj_size :: u32
  pthread_entry_point :: u64
  wqueue_entry_point :: u64
  pth_dispatch_queue_offset :: u64
  pth_tsd_offset :: u32
  uses_threads :: bool

definition dispatch_qaddr :: "thread_globals \<Rightarrow> u64 \<Rightarrow> u64" where
  "dispatch_qaddr g self = self + ucast (pth_tsd_offset g) + pth_dispatch_queue_offset g"

definition sys_bsdthread_register ::
    "'w threadcalls \<Rightarrow> u64 \<Rightarrow> u64 \<Rightarrow> u64 \<Rightarrow> u32 \<Rightarrow> u64 \<Rightarrow> u32 \<Rightarrow> thread_globals \<Rightarrow> 'w \<Rightarrow> (int \<times> thread_globals) \<times> 'w" where
  "sys_bsdthread_register T self thread_start wqthread pthsize dispatch_queue_offset tsd_offset g w =
     (let g = g\<lparr>pthread_obj_size := pthsize, pthread_entry_point := thread_start, wqueue_entry_point := wqthread,
                pth_dispatch_queue_offset := dispatch_queue_offset, pth_tsd_offset := tsd_offset\<rparr> in
      ((0, g), th_set_handles T self (dispatch_qaddr g self) w))"

text \<open>What a new thread does first; it then calls the entry point with its arguments unchanged.\<close>

definition pthread_entry_point_wrapper ::
    "'w threadcalls \<Rightarrow> (u64 \<Rightarrow> 'args \<Rightarrow> u64 \<Rightarrow> 'w \<Rightarrow> 'w) \<Rightarrow> thread_globals \<Rightarrow> u64 \<Rightarrow> 'args \<Rightarrow> 'w \<Rightarrow> 'w" where
  "pthread_entry_point_wrapper T call g self args w =
     (let w = th_sigexc_setup T w; w = th_set_handles T self (dispatch_qaddr g self) w in
      call (pthread_entry_point g) args self w)"

definition wqueue_entry_point_wrapper ::
    "'w threadcalls \<Rightarrow> (u64 \<Rightarrow> 'args \<Rightarrow> u64 \<Rightarrow> 'w \<Rightarrow> 'w) \<Rightarrow> thread_globals \<Rightarrow> u64 \<Rightarrow> 'args \<Rightarrow> 'w \<Rightarrow> 'w" where
  "wqueue_entry_point_wrapper T call g self args w = call (wqueue_entry_point g) args self (th_sigexc_setup T w)"

definition sys_bsdthread_create ::
    "'w threadcalls \<Rightarrow> u64 \<Rightarrow> u64 \<Rightarrow> u64 \<Rightarrow> u64 \<Rightarrow> u32 \<Rightarrow> thread_globals \<Rightarrow> 'w \<Rightarrow> (u64 \<times> thread_globals) \<times> 'w" where
  "sys_bsdthread_create T thread_start arg stack pthread flags g w =
     (let g = g\<lparr>uses_threads := True\<rparr>;
          (ret, w) = th_create T stack (pthread_obj_size g) thread_start arg stack flags pthread w in
      ((ret, g), w))"

abbreviation (input) STACK_GUARD_SIZE :: u64 where "STACK_GUARD_SIZE \<equiv> 4096"

text \<open>\<^verbatim>\<open>PROT_READ | PROT_WRITE\<close> and \<^verbatim>\<open>MAP_ANON | MAP_PRIVATE\<close>; 0 is the null pointer.\<close>

definition thread_stack_allocate :: "'w mmcalls \<Rightarrow> thread_globals \<Rightarrow> u64 \<Rightarrow> 'w \<Rightarrow> u64 \<times> 'w" where
  "thread_stack_allocate M g stacksize w =
     (let allocsize = stacksize + scast (pthread_obj_size g) + STACK_GUARD_SIZE;
          allocsize = (allocsize + 4095) AND NOT 4095;
          (stack, w) = sys_mmap M 0 allocsize 3 0x1002 (- 1) 0 w;
          (_, w) = sys_mprotect M stack STACK_GUARD_SIZE 0 w in
      (if - 4095 \<le> sint stack \<and> sint stack < 0 then 0 else stack + stacksize + STACK_GUARD_SIZE, w))"

definition sys_bsdthread_terminate :: "'w threadcalls \<Rightarrow> u64 \<Rightarrow> u64 \<Rightarrow> int \<Rightarrow> thread_globals \<Rightarrow> 'w \<Rightarrow> int \<times> 'w" where
  "sys_bsdthread_terminate T stackaddr freesize join_sem g w =
     (let (_, w) = th_semaphore_signal T join_sem w; w = th_death_announce T w in
      th_terminate T stackaddr freesize (pthread_obj_size g) w)"

section \<open>Waiting for a semaphore\<close>

text \<open>
  The time that is left until a time of day. The microseconds and nanoseconds are signed numbers of
  32 bits, the seconds of 64; the traps take the seconds without a sign and in 32 bits.
\<close>

definition time_left :: "bsd_timeval \<Rightarrow> u64 \<times> u32 \<Rightarrow> u64 \<times> u32" where
  "time_left tv = (\<lambda>(tv_sec, tv_nsec).
     if sint (btv_usec tv * 1000) < sint tv_nsec then (tv_sec - btv_sec tv, tv_nsec - btv_usec tv * 1000)
     else (tv_sec - 1 - btv_sec tv, 1000000000 + tv_nsec - btv_usec tv * 1000))"

definition semwait_result :: "int \<Rightarrow> int" where
  "semwait_result kr = (if kr = 14 then - 4 else if kr = 49 then - 60 else if kr \<noteq> 0 then - 22 else 0)"

text \<open>If the time of day cannot be read the code goes on with a structure that was not filled, \<open>None\<close>.\<close>

definition sys_semwait_signal_nocancel ::
    "'w threadcalls \<Rightarrow> 'w timecalls \<Rightarrow> int \<Rightarrow> int \<Rightarrow> bool \<Rightarrow> bool \<Rightarrow> u64 \<times> u32 \<Rightarrow> 'w \<Rightarrow> (int \<times> 'w) option" where
  "sys_semwait_signal_nocancel T C cond_sem mutex_sem timeout relative tv w =
     (if timeout then do {
        (tv, w) \<leftarrow> (if relative then Some (tv, w)
          else do { ((_, now), w) \<leftarrow> sys_gettimeofday C True 0 w; now \<leftarrow> now; Some (time_left now tv, w) });
        let (sec, nsec) = tv in let
            (kr, w) = (if mutex_sem \<noteq> 0 then th_semaphore_timedwait_signal T cond_sem mutex_sem (ucast sec) nsec w
                       else th_semaphore_timedwait T cond_sem (ucast sec) nsec w) in
        Some (semwait_result kr, w) }
      else let (kr, w) = (if mutex_sem \<noteq> 0 then th_semaphore_wait_signal T cond_sem mutex_sem w
                          else th_semaphore_wait T cond_sem w) in
        Some (semwait_result kr, w))"

definition sys_semwait_signal ::
    "'w threadcalls \<Rightarrow> 'w timecalls \<Rightarrow> bool \<Rightarrow> int \<Rightarrow> int \<Rightarrow> bool \<Rightarrow> bool \<Rightarrow> u64 \<times> u32 \<Rightarrow> 'w \<Rightarrow> (int \<times> 'w) option" where
  "sys_semwait_signal T C threads cond_sem mutex_sem timeout relative tv w =
     CANCELATION_POINT T threads (sys_semwait_signal_nocancel T C cond_sem mutex_sem timeout relative tv) w"

section \<open>The semaphores of System V\<close>

definition sem_cmd_map :: "int list" where
  "sem_cmd_map = [0, 1, 2, 14, 11, 12, 13, 15, 16, 17]"

text \<open>
  The structure of Linux is read from the memory of the caller and the one of macOS is written there:
  owner, group, their creator, mode, the number of semaphores and two times, at their offsets.
\<close>

definition semid_ds_linux_to_bsd :: "u8 list \<Rightarrow> u8 list option" where
  "semid_ds_linux_to_bsd m = do {
     orig \<leftarrow> load_bytes 48 0 m;
     ids \<leftarrow> load_bytes 18 4 orig;
     nsems \<leftarrow> load_bytes 2 40 orig;
     otime \<leftarrow> load_bytes 8 24 orig;
     ctime \<leftarrow> load_bytes 8 32 orig;
     m \<leftarrow> store 0 ids m;
     m \<leftarrow> store 20 (le_enc 4 0) m;
     m \<leftarrow> store 24 nsems m;
     m \<leftarrow> store 32 otime m;
     store 48 ctime m }"

definition sys_semctl ::
    "(int \<Rightarrow> int \<Rightarrow> int \<Rightarrow> u8 list \<Rightarrow> 'w \<Rightarrow> (int \<times> u8 list) \<times> 'w) \<Rightarrow> int \<Rightarrow> int \<Rightarrow> int \<Rightarrow> u8 list \<Rightarrow> 'w \<Rightarrow> ((int \<times> u8 list) \<times> 'w) option" where
  "sys_semctl semctl semid semnum cmd m w =
     (if cmd < 0 \<or> int (length sem_cmd_map) \<le> cmd then Some ((- 22, m), w)
      else let ((ret, m), w) = semctl semid semnum (sem_cmd_map ! nat cmd) m w in
        if ret < 0 then Some ((errno_linux_to_bsd ret, m), w)
        else if cmd = 1 \<or> cmd = 2 then do { m \<leftarrow> semid_ds_linux_to_bsd m; Some ((0, m), w) }
        else Some ((0, m), w))"

definition sys_semget :: "'w kernel \<Rightarrow> int \<Rightarrow> int \<Rightarrow> int \<Rightarrow> 'w \<Rightarrow> int \<times> 'w" where
  "sys_semget K key n fl w =
     (let (ret, w) = sysc K ''semget'' [AInt key, AInt n, AInt fl] w in (if ret < 0 then errno_linux_to_bsd ret else 0, w))"

definition sys_semop :: "'w kernel \<Rightarrow> int \<Rightarrow> u64 \<Rightarrow> int \<Rightarrow> 'w \<Rightarrow> int \<times> 'w" where
  "sys_semop K semid sops nsops w =
     (let (ret, w) = sysc K ''semop'' [AInt semid, AWord sops, AInt nsops] w in (if ret < 0 then errno_linux_to_bsd ret else 0, w))"

section \<open>Lemmas\<close>

lemma borrow_small: "0 \<le> u \<Longrightarrow> u < 1000000 \<Longrightarrow> 0 \<le> n \<Longrightarrow> n < 1000000000 \<Longrightarrow>
    (n - u * 1000 + (if u * 1000 < n then 0 else 1000000000)) mod 2 ^ 32 = n - u * 1000 + (if u * 1000 < n then 0 else (1000000000 :: int))"
  by (intro mod_pos_pos_trivial) auto

text \<open>
  The time left, as numbers: exact modulo the 32 bits of the seconds. The nanoseconds are positive, and
  may be a whole second.
\<close>

lemma time_left_value:
  assumes "uint (btv_usec tv) < 1000000" "uint nsec < 1000000000" "time_left tv (sec, nsec) = (a, b)"
  shows "uint a = (uint sec - uint (btv_sec tv) - (if uint (btv_usec tv) * 1000 < uint nsec then 0 else 1)) mod 2 ^ 64"
    "uint b = uint nsec - uint (btv_usec tv) * 1000 + (if uint (btv_usec tv) * 1000 < uint nsec then 0 else 1000000000)"
proof -
  have u: "uint (btv_usec tv * 1000 :: u32) = uint (btv_usec tv) * 1000"
    using assms(1) by (simp add: uint_word_ariths)
  have s: "sint (btv_usec tv * 1000 :: u32) = uint (btv_usec tv) * 1000" "sint nsec = uint nsec"
    using assms(1,2) by (simp_all add: sint_low u)
  let ?c = "uint (btv_usec tv) * 1000 < uint nsec"
  have a: "a = sec - btv_sec tv - (if ?c then 0 else 1)" and b: "b = nsec - btv_usec tv * 1000 + (if ?c then 0 else 1000000000)"
    using assms(3) by (auto simp: time_left_def s split: if_splits)
  show "uint a = (uint sec - uint (btv_sec tv) - (if ?c then 0 else 1)) mod 2 ^ 64"
    unfolding a by (simp add: uint_word_ariths mod_simps)
  have "uint b = (uint nsec - uint (btv_usec tv) * 1000 + (if ?c then 0 else 1000000000)) mod 2 ^ 32"
    unfolding b by (simp add: uint_word_ariths mod_simps)
  also have "\<dots> = uint nsec - uint (btv_usec tv) * 1000 + (if ?c then 0 else 1000000000)"
    using assms(1,2) by (intro borrow_small) simp_all
  finally show "uint b = uint nsec - uint (btv_usec tv) * 1000 + (if ?c then 0 else 1000000000)" .
qed

text \<open>Differences of seconds, and what the 32 bits of the trap make of them.\<close>

lemma seconds_wrap:
  assumes "0 \<le> x" "x < 2 ^ 32" "0 \<le> y" "y < 2 ^ 32" "k \<in> {0, 1 :: int}"
  shows "(x - y - k) mod 2 ^ 64 mod 2 ^ 32 = (if y + k \<le> x then x - y - k else x - y - k + 2 ^ 32)"
proof -
  have "(x - y - k) mod 2 ^ 64 mod 2 ^ 32 = (x - y - k) mod 2 ^ 32" by (intro mod_mod_cancel) simp
  also have "\<dots> = (if y + k \<le> x then x - y - k else x - y - k + 2 ^ 32)"
  proof (cases "y + k \<le> x")
    case True
    then have "(x - y - k) mod 2 ^ 32 = x - y - k" using assms by (intro mod_pos_pos_trivial) auto
    then show ?thesis using True by (simp only: if_True)
  next
    case False
    then have "(x - y - k + 2 ^ 32) mod 2 ^ 32 = x - y - k + 2 ^ 32" using assms by (intro mod_pos_pos_trivial) auto
    then show ?thesis using False by (simp only: mod_add_self2 if_False)
  qed
  finally show ?thesis .
qed

definition nanoseconds :: "int \<Rightarrow> int \<Rightarrow> int" where
  "nanoseconds s n = s * 1000000000 + n"

lemma nanoseconds_diff:
  assumes "0 \<le> u" "u < 1000000" "0 \<le> n" "n < 1000000000"
  shows "nanoseconds (if y + (if u * 1000 < n then 0 else 1) \<le> x then x - y - (if u * 1000 < n then 0 else 1)
        else x - y - (if u * 1000 < n then 0 else 1) + 2 ^ 32) (n - u * 1000 + (if u * 1000 < n then 0 else 1000000000)) =
    (if 0 < nanoseconds x n - nanoseconds y (u * 1000) then nanoseconds x n - nanoseconds y (u * 1000)
     else nanoseconds x n - nanoseconds y (u * 1000) + 2 ^ 32 * 1000000000)"
  using assms by (auto simp: nanoseconds_def split: if_splits)

lemma time_left_nanoseconds:
  assumes "uint (btv_usec tv) < 1000000" "uint nsec < 1000000000" "uint sec < 2 ^ 32" "uint (btv_sec tv) < 2 ^ 32"
    and "time_left tv (sec, nsec) = (a, b)"
  shows "nanoseconds (uint (ucast a :: u32)) (uint b) =
    (let d = nanoseconds (uint sec) (uint nsec) - nanoseconds (uint (btv_sec tv)) (uint (btv_usec tv) * 1000) in
     if 0 < d then d else d + 2 ^ 32 * 1000000000)"
proof -
  let ?k = "if uint (btv_usec tv) * 1000 < uint nsec then 0 else 1 :: int"
  note v = time_left_value [OF assms(1,2,5)]
  have "uint (ucast a :: u32) = uint a mod 2 ^ 32" by (simp add: unsigned_ucast_eq take_bit_eq_mod)
  also have "\<dots> = (if uint (btv_sec tv) + ?k \<le> uint sec then uint sec - uint (btv_sec tv) - ?k else uint sec - uint (btv_sec tv) - ?k + 2 ^ 32)"
    unfolding v(1) using assms(3,4) by (intro seconds_wrap) simp_all
  finally have a: "uint (ucast a :: u32) = \<dots>" .
  show ?thesis unfolding a v(2) Let_def using assms(1,2) by (intro nanoseconds_diff) simp_all
qed

text \<open>
  The memory for a stack: the pages below the stack are the guard, and the stack and the thread object
  above it lie in the mapping.
\<close>

lemma thread_stack_layout:
  assumes "mm_mmap M 0 len (prot_bsd_to_linux 3) (xlat map_tab 0x1002 0) (- 1) 0 w = (addr, w')" "uint addr < 2 ^ 63"
    and "len = (stacksize + scast (pthread_obj_size g) + STACK_GUARD_SIZE + 4095) AND NOT 4095"
  shows "thread_stack_allocate M g stacksize w = (addr + stacksize + STACK_GUARD_SIZE, snd (mm_mprotect M addr STACK_GUARD_SIZE 0 w'))"
proof -
  have "sint addr = uint addr" using assms(2) by (simp add: sint_low)
  moreover have "\<not> - 4096 < addr" using assms(2) by (simp add: word_less_alt)
  ultimately show ?thesis
    using assms(1,3) by (auto simp: thread_stack_allocate_def sys_mmap_def sys_mprotect_def case_prod_beta prot_bsd_to_linux_def prot_tab_def)
qed

text \<open>A process that has never created a thread is not canceled.\<close>

lemma cancelation_point_single: "CANCELATION_POINT T False nocancel w = nocancel w"
  by (simp add: CANCELATION_POINT_def sys_pthread_canceled_def)

text \<open>The working directory of a thread changes only when the call returns 0.\<close>

lemma pthread_chdir_sets: "sys_pthread_chdir V F K t path st w = Some ((ret, t'), st', w') \<Longrightarrow>
    t' = t \<and> ret < 0 \<or> ret = 0 \<and> 0 \<le> get_perthread_wd t'"
  by (cases "sys_open_nocancel V F t path 0x1100000 0 st w")
    (auto simp: sys_pthread_chdir_def get_perthread_wd_def set_perthread_wd_def split: if_splits)

text \<open>
  When the descriptor cannot be duplicated \<^verbatim>\<open>__pthread_fchdir\<close> fails, and the thread keeps a working
  directory whose descriptor has been closed.
\<close>

lemma pthread_fchdir_dangling:
  assumes "get_perthread_wd t = d" "d \<noteq> LINUX_AT_FDCWD" "fd \<noteq> - 1" "sys_dup K fd (snd (close_internal K d w)) = (e, w')" "e < 0"
  shows "sys_pthread_fchdir V F K t fd st w = Some ((e, t), st, w')"
  using assms by (simp add: sys_pthread_fchdir_def close_wd_def)

text \<open>The identifier of a set of semaphores and the value of a semaphore are not returned.\<close>

lemma semget_zero: "0 \<le> fst (sysc K ''semget'' [AInt key, AInt n, AInt fl] w) \<Longrightarrow> fst (sys_semget K key n fl w) = 0"
  by (auto simp: sys_semget_def case_prod_beta)

lemma semctl_zero:
  assumes "0 \<le> cmd" "cmd < 10" "cmd \<noteq> 1" "cmd \<noteq> 2" "semctl semid semnum (sem_cmd_map ! nat cmd) m w = ((v, m'), w')" "0 \<le> v"
  shows "sys_semctl semctl semid semnum cmd m w = Some ((0, m'), w')"
  using assms by (simp add: sys_semctl_def) (simp add: sem_cmd_map_def)

text \<open>The fields of the structure of Linux reach the structure of macOS.\<close>

lemma semid_ds_fields:
  assumes "length ids = 18" "length otime = 8" "length ctime = 8" "length nsems = 2" "length k = 4" "length p = 2" "length r = 22"
  shows "semid_ds_linux_to_bsd (k @ ids @ p @ otime @ ctime @ nsems @ r) =
    Some (ids @ take 2 (drop 14 ids) @ le_enc 4 0 @ nsems @ drop 2 otime @ otime @ nsems @ take 6 r @ ctime @ drop 14 r)"
  using assms by (simp add: semid_ds_linux_to_bsd_def load_bytes_def store_def)

section \<open>Properties\<close>

text \<open>
  C36: A wait for a semaphore until a time of day waits exactly as long as is left: the seconds and
  nanoseconds given to the trap are the time of the request minus the time of day, whenever that time
  is in the future, and the result of the trap is mapped to 0, \<^verbatim>\<open>EINTR\<close>, \<^verbatim>\<open>ETIMEDOUT\<close> or \<^verbatim>\<open>EINVAL\<close>. For a time that
  has passed or is now, the wait is \<open>2 ^ 32\<close> seconds longer than that: about 136 years instead of none.
\<close>

theorem semwait_deadline:
  assumes "tc_gettimeofday C 0 w = ((ret, now), w')" "0 \<le> ret" "uint (ltv_usec now) < 1000000" "uint (ltv_sec now) < 2 ^ 32"
    and "uint sec < 2 ^ 32" "uint nsec < 1000000000"
    and "d = nanoseconds (uint sec) (uint nsec) - nanoseconds (uint (ltv_sec now)) (uint (ltv_usec now) * 1000)"
  shows "\<exists>a b. nanoseconds (uint a) (uint b) = (if 0 < d then d else d + 2 ^ 32 * 1000000000) \<and>
    sys_semwait_signal_nocancel T C cs ms True False (sec, nsec) w =
      (let (kr, w'') = (if ms \<noteq> 0 then th_semaphore_timedwait_signal T cs ms a b w' else th_semaphore_timedwait T cs a b w') in
       Some (semwait_result kr, w''))"
proof -
  let ?tv = "timeval_linux_to_bsd now"
  have usec: "uint (btv_usec ?tv) = uint (ltv_usec now)" 
    using assms(3) by (simp add: timeval_linux_to_bsd_def unsigned_ucast_eq take_bit_int_eq_self)
  have s: "btv_sec ?tv = ltv_sec now" by (simp add: timeval_linux_to_bsd_def)
  obtain a b where ab: "time_left ?tv (sec, nsec) = (a, b)" by (cases "time_left ?tv (sec, nsec)")
  have "nanoseconds (uint (ucast a :: u32)) (uint b) = (if 0 < d then d else d + 2 ^ 32 * 1000000000)"
    using time_left_nanoseconds [OF _ assms(6,5) _ ab] assms(3,4,7) by (simp add: usec s Let_def)
  moreover have "sys_semwait_signal_nocancel T C cs ms True False (sec, nsec) w =
      (let (kr, w'') = (if ms \<noteq> 0 then th_semaphore_timedwait_signal T cs ms (ucast a) b w' else th_semaphore_timedwait T cs (ucast a) b w') in
       Some (semwait_result kr, w''))"
    using assms(1,2) by (simp add: sys_semwait_signal_nocancel_def sys_gettimeofday_def ab)
  ultimately show ?thesis by blast
qed

text \<open>Traps that record the last timed wait, and a clock.\<close>

definition recording_traps :: "(u32 \<times> u32) threadcalls" where
  "recording_traps = \<lparr>th_pthread_canceled = (\<lambda>a w. (- 22, w)), th_pthread_markcancel = (\<lambda>p w. (0, w)), th_pthread_kill = (\<lambda>p s w. (0, w)),
     th_set_handles = (\<lambda>h q w. w), th_death_announce = (\<lambda>w. w), th_sigexc_setup = (\<lambda>w. w), th_create = (\<lambda>s z f a k g p w. (p, w)),
     th_terminate = (\<lambda>s f z w. (0, w)), th_semaphore_wait = (\<lambda>c w. (0, w)), th_semaphore_wait_signal = (\<lambda>c m w. (0, w)),
     th_semaphore_timedwait = (\<lambda>c s n w. (49, (s, n))), th_semaphore_timedwait_signal = (\<lambda>c m s n w. (49, (s, n))),
     th_semaphore_signal = (\<lambda>c w. (0, w))\<rparr>"

lemma recording_traps_timedwait [simp]: "th_semaphore_timedwait recording_traps c s n w = (49, (s, n))"
  by (simp add: recording_traps_def)

definition clock :: "linux_timeval \<Rightarrow> 'w timecalls" where
  "clock now = \<lparr>tc_gettimeofday = (\<lambda>z w. ((0, now), w)), tc_getitimer = (\<lambda>i w. ((0, \<lparr>lit_interval = now, lit_value = now\<rparr>), w)),
     tc_setitimer = (\<lambda>i v w. ((0, v), w)), tc_utimensat = (\<lambda>f t w. (0, w)), tc_utimes = (\<lambda>p t w. (0, w)),
     tc_select = (\<lambda>n a b c t w. (0, w)), tc_pselect6 = (\<lambda>n a b c t m w. (0, w)), tc_poll = (\<lambda>a n t w. (0, w))\<rparr>"

lemma clock_time [simp]: "tc_gettimeofday (clock now) z w = ((0, now), w)"
  by (simp add: clock_def)

theorem semwait_deadline_witness:
  "\<exists>a b. nanoseconds (uint a) (uint b) = 1500000000 \<and>
    sys_semwait_signal_nocancel recording_traps (clock \<lparr>ltv_sec = 100, ltv_usec = 500000\<rparr>) 5 0 True False (102, 0) (0, 0) =
      Some (- 60, (a, b))"
  using semwait_deadline [of "clock \<lparr>ltv_sec = 100, ltv_usec = 500000\<rparr>" "(0, 0)" 0 "\<lparr>ltv_sec = 100, ltv_usec = 500000\<rparr>" "(0, 0)"
      102 0 1500000000 recording_traps 5 0]
  by (simp add: semwait_result_def) (simp add: nanoseconds_def)

end
