(* ===== verification/XLock.thy ===== *)
theory XLock
  imports Emu_Prelude
begin

text \<open>
  The lock and the once of the tracer: \<^verbatim>\<open>xtrace/lock.c\<close>. Threads run the operations concurrently: each
  step of the relations is one atomic access of the word or one call of the futex. All accesses are to
  one word, so their order is the order of the steps.

  The futex of Linux is a parameter: \<open>sleeps v e\<close>, whether a wait for the value \<open>e\<close> may sleep when the
  word is \<open>v\<close>, and \<open>wakes n S W\<close>, whether a wake of at most \<open>n\<close> threads may wake \<open>W\<close> of the sleepers \<open>S\<close>.
  A wait may also return at any time. Only the thread that holds the lock releases it.
\<close>

section \<open>The lock\<close>

abbreviation (input) xtrace_lock_state_unlocked :: u32 where "xtrace_lock_state_unlocked \<equiv> 0"
abbreviation (input) xtrace_lock_state_locked_uncontended :: u32 where "xtrace_lock_state_locked_uncontended \<equiv> 1"
abbreviation (input) xtrace_lock_state_locked_contended :: u32 where "xtrace_lock_state_locked_contended \<equiv> 2"


text \<open>The value found, and the word afterwards.\<close>

definition cmpxchg_wrapper_u32 :: "u32 \<Rightarrow> u32 \<Rightarrow> u32 \<Rightarrow> u32 \<times> u32" where
  "cmpxchg_wrapper_u32 v expected desired = (v, if v = expected then desired else v)"

text \<open>
  Where a thread is: outside; before the first exchange of \<^verbatim>\<open>xtrace_lock_lock\<close>; at the head of its loop
  with a value of \<^verbatim>\<open>prev\<close>; before and inside the wait; before the exchange of the loop condition;
  behind \<^verbatim>\<open>xtrace_lock_lock\<close>; before the wake of \<^verbatim>\<open>xtrace_lock_unlock\<close>.
\<close>

datatype lock_pc = Out | First | Loop u32 | Wait | Sleeping | Retry | Held | Wake

fun xtrace_lock_lock :: "lock_pc \<Rightarrow> u32 \<Rightarrow> (lock_pc \<times> u32) option" where
  "xtrace_lock_lock Out v = Some (First, v)"
| "xtrace_lock_lock First v =
     (let (prev, v) = cmpxchg_wrapper_u32 v xtrace_lock_state_unlocked xtrace_lock_state_locked_uncontended in
      Some (if prev \<noteq> xtrace_lock_state_unlocked then Loop prev else Held, v))"
| "xtrace_lock_lock (Loop prev) v =
     (if prev = xtrace_lock_state_locked_contended then Some (Wait, v)
      else let (found, v) = cmpxchg_wrapper_u32 v xtrace_lock_state_locked_uncontended xtrace_lock_state_locked_contended in
        Some (if found \<noteq> xtrace_lock_state_unlocked then Wait else Retry, v))"
| "xtrace_lock_lock Retry v =
     (let (prev, v) = cmpxchg_wrapper_u32 v xtrace_lock_state_unlocked xtrace_lock_state_locked_contended in
      Some (if prev \<noteq> xtrace_lock_state_unlocked then Loop prev else Held, v))"
| "xtrace_lock_lock _ v = None"

fun xtrace_lock_unlock :: "lock_pc \<Rightarrow> u32 \<Rightarrow> (lock_pc \<times> u32) option" where
  "xtrace_lock_unlock Held v =
     Some (if v = xtrace_lock_state_locked_contended then Wake else Out, xtrace_lock_state_unlocked)"
| "xtrace_lock_unlock _ v = None"

type_synonym sleeps = "u32 \<Rightarrow> u32 \<Rightarrow> bool"
type_synonym wakes = "nat \<Rightarrow> nat set \<Rightarrow> nat set \<Rightarrow> bool"

inductive xlock_step :: "sleeps \<Rightarrow> wakes \<Rightarrow> u32 \<times> (nat \<Rightarrow> lock_pc) \<Rightarrow> u32 \<times> (nat \<Rightarrow> lock_pc) \<Rightarrow> bool"
  for sl wk where
  lock: "xtrace_lock_lock (p i) v = Some (c, v') \<Longrightarrow> xlock_step sl wk (v, p) (v', p(i := c))"
| unlock: "xtrace_lock_unlock (p i) v = Some (c, v') \<Longrightarrow> xlock_step sl wk (v, p) (v', p(i := c))"
| sleep: "p i = Wait \<Longrightarrow> sl v xtrace_lock_state_locked_contended \<Longrightarrow> xlock_step sl wk (v, p) (v, p(i := Sleeping))"
| awake: "p i = Wait \<or> p i = Sleeping \<Longrightarrow> xlock_step sl wk (v, p) (v, p(i := Retry))"
| wake: "p i = Wake \<Longrightarrow> wk 1 {j. p j = Sleeping} W \<Longrightarrow>
    xlock_step sl wk (v, p) (v, (\<lambda>j. if j \<in> W then Retry else p j)(i := Out))"

definition xlock_start :: "u32 \<times> (nat \<Rightarrow> lock_pc)" where
  "xlock_start = (0, \<lambda>_. Out)"

text \<open>
  What Linux documents of the futex: a wait sleeps only when the word has the expected value, and a
  wake wakes threads that sleep, at least one of them when there is one.
\<close>

definition futex_ok :: "sleeps \<Rightarrow> wakes \<Rightarrow> bool" where
  "futex_ok sl wk \<longleftrightarrow> (\<forall>v e. sl v e \<longrightarrow> v = e) \<and> (\<forall>n S. \<exists>W. wk n S W) \<and>
     (\<forall>n S W. wk n S W \<longrightarrow> W \<subseteq> S \<and> (0 < n \<longrightarrow> S \<noteq> {} \<longrightarrow> W \<noteq> {}))"

definition wakes_only :: "wakes \<Rightarrow> bool" where
  "wakes_only wk \<longleftrightarrow> (\<forall>n S W. wk n S W \<longrightarrow> W \<subseteq> S)"

section \<open>Invariants of the lock\<close>

definition xlock_inv :: "u32 \<times> (nat \<Rightarrow> lock_pc) \<Rightarrow> bool" where
  "xlock_inv = (\<lambda>(v, p). (v = 0 \<or> v = 1 \<or> v = 2) \<and> (v = 0 \<longleftrightarrow> (\<forall>i. p i \<noteq> Held)) \<and>
     (\<forall>i j. p i = Held \<longrightarrow> p j = Held \<longrightarrow> i = j))"

fun trying :: "lock_pc \<Rightarrow> bool" where
  "trying (Loop _) = True" | "trying Wait = True" | "trying Retry = True" | "trying Wake = True" | "trying _ = False"

definition wake_inv :: "u32 \<times> (nat \<Rightarrow> lock_pc) \<Rightarrow> bool" where
  "wake_inv = (\<lambda>(v, p). (\<exists>i. p i = Sleeping) \<longrightarrow> v = 2 \<or> (\<exists>i. trying (p i)))"

lemma xlock_inv_I:
  "v = 0 \<or> v = 1 \<or> v = 2 \<Longrightarrow> v = 0 \<longleftrightarrow> (\<forall>i. p i \<noteq> Held) \<Longrightarrow> (\<And>i j. p i = Held \<Longrightarrow> p j = Held \<Longrightarrow> i = j) \<Longrightarrow> xlock_inv (v, p)"
  by (simp add: xlock_inv_def)

text \<open>A step that neither takes nor releases the lock, one that takes it and one that releases it.\<close>

lemma xlock_inv_other:
  assumes "xlock_inv (v, p)" "\<forall>i. p' i = Held \<longleftrightarrow> p i = Held" "v' = v \<or> v = 1 \<and> v' = 2"
  shows "xlock_inv (v', p')"
  using assms by (auto simp: xlock_inv_def)

lemma xlock_inv_take: "xlock_inv (0, p) \<Longrightarrow> v' = 1 \<or> v' = 2 \<Longrightarrow> xlock_inv (v', p(i := Held))"
  by (auto simp: xlock_inv_def)

lemma xlock_inv_release: "xlock_inv (v, p) \<Longrightarrow> p i = Held \<Longrightarrow> c \<noteq> Held \<Longrightarrow> xlock_inv (0, p(i := c))"
  by (auto simp: xlock_inv_def)

lemma lock_lock_cases:
  assumes "xtrace_lock_lock c v = Some (c', v')"
  shows "c \<noteq> Held \<and> c \<noteq> Sleeping \<and> c' \<noteq> Sleeping \<and>
    (c' = Held \<and> v = 0 \<and> (v' = 1 \<or> v' = 2) \<and> (c \<noteq> First \<longrightarrow> v' = 2) \<or>
     c' \<noteq> Held \<and> (v' = v \<or> v = 1 \<and> v' = 2) \<and> (trying c \<longrightarrow> trying c'))"
  using assms by (cases c) (auto simp: cmpxchg_wrapper_u32_def Let_def split: if_splits)

lemma lock_unlock_cases:
  assumes "xtrace_lock_unlock c v = Some (c', v')"
  shows "c = Held \<and> v' = 0 \<and> (c' = Wake \<or> c' = Out \<and> v \<noteq> 2)"
  using assms by (cases c) (auto split: if_splits)

lemma xlock_keeps_inv: "xlock_step sl wk s s' \<Longrightarrow> wakes_only wk \<Longrightarrow> xlock_inv s \<Longrightarrow> xlock_inv s'"
proof (induction rule: xlock_step.induct)
  case (lock p i v c v')
  from lock_lock_cases [OF lock(1)] show ?case
  proof (elim conjE disjE)
    assume "c = Held" "v = 0" "v' = 1" then show ?thesis using lock xlock_inv_take [of p v' i] by simp
  next
    assume "c = Held" "v = 0" "v' = 2" then show ?thesis using lock xlock_inv_take [of p v' i] by simp
  qed (rule xlock_inv_other [OF lock(3)]; simp)+
next
  case (unlock p i v c v')
  then show ?case using lock_unlock_cases [OF unlock(1)] xlock_inv_release [OF unlock(3), of i c] by auto
next
  case (wake p i W v)
  then have "W \<subseteq> {j. p j = Sleeping}" by (auto simp: wakes_only_def)
  then show ?case using wake by (intro xlock_inv_other [OF wake(4)]) auto
next
  case (sleep p i v)
  then show ?case by (intro xlock_inv_other [OF sleep(4)]) auto
next
  case (awake p i v)
  then show ?case by (intro xlock_inv_other [OF awake(3)]) auto
qed

lemma wake_inv_upd:
  assumes "wake_inv (v, p)" "c \<noteq> Sleeping" "v = 2 \<Longrightarrow> v' = 2 \<or> trying c" "trying (p i) \<Longrightarrow> v' = 2 \<or> trying c"
  shows "wake_inv (v', p(i := c))"
proof -
  have "v' = 2 \<or> (\<exists>k. trying ((p(i := c)) k))" if "(p(i := c)) j = Sleeping" for j
  proof -
    have "p j = Sleeping" using that assms(2) by (auto split: if_splits)
    then consider "v = 2" | k where "trying (p k)" using assms(1) by (auto simp: wake_inv_def)
    then show ?thesis
    proof cases
      case 1
      then show ?thesis using assms(3) by (metis fun_upd_same)
    next
      case (2 k)
      then show ?thesis using assms(4) by (cases "k = i") (metis fun_upd_same, metis fun_upd_other)
    qed
  qed
  then show ?thesis unfolding wake_inv_def prod.case by blast
qed

lemma xlock_keeps_wake: "xlock_step sl wk s s' \<Longrightarrow> futex_ok sl wk \<Longrightarrow> wake_inv s \<Longrightarrow> wake_inv s'"
proof (induction rule: xlock_step.induct)
  case (lock p i v c v')
  have "trying (p i) \<Longrightarrow> p i \<noteq> First" by auto
  then show ?case using lock_lock_cases [OF lock(1)] by (intro wake_inv_upd [OF lock(3)]) auto
next
  case (unlock p i v c v')
  then show ?case using lock_unlock_cases [OF unlock(1)] by (intro wake_inv_upd [OF unlock(3)]) auto
next
  case (sleep p i v)
  then show ?case by (auto simp: wake_inv_def futex_ok_def)
next
  case (awake p i v)
  then show ?case by (auto simp: wake_inv_def intro!: exI [of _ i])
next
  case (wake p i W v)
  let ?S = "{j. p j = Sleeping}"
  have W: "W \<subseteq> ?S" "?S \<noteq> {} \<longrightarrow> W \<noteq> {}" using wake by (auto simp: futex_ok_def)
  show ?case
  proof (cases "?S = {}")
    case True then show ?thesis using W by (auto simp: wake_inv_def)
  next
    case False
    then obtain j where "j \<in> W" using W by blast
    then have "j \<noteq> i" using W wake(1) by auto
    then show ?thesis using \<open>j \<in> W\<close> by (auto simp: wake_inv_def intro!: exI [of _ j])
  qed
qed

lemma init_inv: "xlock_inv xlock_start" "wake_inv xlock_start"
  by (simp_all add: xlock_start_def xlock_inv_def wake_inv_def)

lemma reach_inv: "(xlock_step sl wk)\<^sup>*\<^sup>* xlock_start s \<Longrightarrow> wakes_only wk \<Longrightarrow> xlock_inv s"
  by (induction rule: rtranclp_induct) (simp_all add: init_inv xlock_keeps_inv)

lemma reach_wake: "(xlock_step sl wk)\<^sup>*\<^sup>* xlock_start s \<Longrightarrow> futex_ok sl wk \<Longrightarrow> wake_inv s"
  by (induction rule: rtranclp_induct) (simp_all add: init_inv xlock_keeps_wake)

lemma trying_step:
  assumes "futex_ok sl wk" "p j = Held \<or> trying (p j)"
  shows "\<exists>s'. xlock_step sl wk (v, p) s' \<and> snd s' j \<noteq> p j"
proof (cases "p j = Wake")
  case True
  obtain W where "wk 1 {j. p j = Sleeping} W" using assms(1) unfolding futex_ok_def by blast
  then show ?thesis using xlock_step.wake [of p j wk W sl v] True by (intro exI conjI) auto
next
  case False
  have "\<exists>c v'. xtrace_lock_lock (p j) v = Some (c, v') \<and> c \<noteq> p j" if "p j \<noteq> Wait" "p j \<noteq> Held"
    using that False assms(2) by (cases "p j") (simp_all add: cmpxchg_wrapper_u32_def)
  then consider "p j = Wait" | "p j = Held" | c v' where "xtrace_lock_lock (p j) v = Some (c, v')" "c \<noteq> p j"
    by blast
  then show ?thesis
  proof cases
    case 1
    then show ?thesis using xlock_step.awake [of p j sl wk v] by (intro exI conjI) auto
  next
    case 2
    then show ?thesis using xlock_step.unlock [of p j v _ _ sl wk] by (intro exI conjI) (auto split: if_splits)
  next
    case (3 c v')
    then show ?thesis using xlock_step.lock [of p j v c v' sl wk] by (intro exI conjI) auto
  qed
qed

lemma futex_ok_only: "futex_ok sl wk \<Longrightarrow> wakes_only wk"
  unfolding futex_ok_def wakes_only_def by blast

section \<open>The once\<close>

abbreviation (input) xtrace_once_state_untriggered :: u32 where "xtrace_once_state_untriggered \<equiv> 0"
abbreviation (input) xtrace_once_state_triggered_uncontended :: u32 where "xtrace_once_state_triggered_uncontended \<equiv> 1"
abbreviation (input) xtrace_once_state_triggered_contended :: u32 where "xtrace_once_state_triggered_contended \<equiv> 2"
abbreviation (input) xtrace_once_state_completed :: u32 where "xtrace_once_state_completed \<equiv> 3"
abbreviation (input) LINUX_INT_MAX :: nat where "LINUX_INT_MAX \<equiv> 2 ^ 31 - 1"


text \<open>
  Where a thread is: before the call; in the callback; before the exchange behind it; before the wake;
  at the head of the loop with a value of \<^verbatim>\<open>prev\<close>; before and inside the wait; before the load behind
  it; returned. The third component of a step counts the runs of the callback that have ended.
\<close>

datatype once_pc = Call | Callback | Finish | WakeAll | Eval u32 | OWait u32 | OSleeping | Reload | Returned

fun xtrace_once :: "once_pc \<Rightarrow> u32 \<Rightarrow> nat \<Rightarrow> (once_pc \<times> u32 \<times> nat) option" where
  "xtrace_once Call v n =
     (if v = xtrace_once_state_untriggered then Some (Callback, xtrace_once_state_triggered_uncontended, n)
      else Some (Eval v, v, n))"
| "xtrace_once Callback v n = Some (Finish, v, n + 1)"
| "xtrace_once Finish v n =
     Some (if v = xtrace_once_state_triggered_contended then WakeAll else Returned, xtrace_once_state_completed, n)"
| "xtrace_once (Eval prev) v n =
     (if prev = xtrace_once_state_completed then Some (Returned, v, n)
      else if prev = xtrace_once_state_triggered_uncontended then
        if v = prev then Some (OWait xtrace_once_state_triggered_contended, xtrace_once_state_triggered_contended, n)
        else Some (Eval v, v, n)
      else if prev = xtrace_once_state_triggered_contended then Some (OWait prev, v, n)
      else Some (Eval prev, v, n))"
| "xtrace_once Reload v n = Some (Eval v, v, n)"
| "xtrace_once _ v n = None"

inductive once_step :: "sleeps \<Rightarrow> wakes \<Rightarrow> u32 \<times> nat \<times> (nat \<Rightarrow> once_pc) \<Rightarrow> u32 \<times> nat \<times> (nat \<Rightarrow> once_pc) \<Rightarrow> bool"
  for sl wk where
  run: "xtrace_once (p i) v n = Some (c, v', n') \<Longrightarrow> once_step sl wk (v, n, p) (v', n', p(i := c))"
| sleep: "p i = OWait e \<Longrightarrow> sl v e \<Longrightarrow> once_step sl wk (v, n, p) (v, n, p(i := OSleeping))"
| awake: "p i = OWait e \<or> p i = OSleeping \<Longrightarrow> once_step sl wk (v, n, p) (v, n, p(i := Reload))"
| wake: "p i = WakeAll \<Longrightarrow> wk LINUX_INT_MAX {j. p j = OSleeping} W \<Longrightarrow>
    once_step sl wk (v, n, p) (v, n, (\<lambda>j. if j \<in> W then Reload else p j)(i := Returned))"

definition once_init :: "u32 \<times> nat \<times> (nat \<Rightarrow> once_pc)" where
  "once_init = (0, 0, \<lambda>_. Call)"

text \<open>
  The word and the runs of the callback: before the call of any thread; one thread in the callback;
  one thread behind it; completed. A thread returns, or knows of the completion, only then.
\<close>

definition leader :: "once_pc \<Rightarrow> bool" where
  "leader c \<longleftrightarrow> c = Callback \<or> c = Finish"

definition knows :: "once_pc \<Rightarrow> bool" where
  "knows c \<longleftrightarrow> c = Returned \<or> c = WakeAll \<or> c = Eval 3"

definition leaders :: "(nat \<Rightarrow> once_pc) \<Rightarrow> nat set" where
  "leaders p = {i. leader (p i)}"

definition once_phase :: "u32 \<Rightarrow> nat \<Rightarrow> (nat \<Rightarrow> once_pc) \<Rightarrow> bool" where
  "once_phase v n p \<longleftrightarrow> v = 0 \<and> n = 0 \<and> leaders p = {} \<or>
     (v = 1 \<or> v = 2) \<and> (\<exists>i. leaders p = {i} \<and> n = (if p i = Finish then 1 else 0)) \<or>
     v = 3 \<and> n = 1 \<and> leaders p = {}"

definition once_inv :: "u32 \<times> nat \<times> (nat \<Rightarrow> once_pc) \<Rightarrow> bool" where
  "once_inv = (\<lambda>(v, n, p). once_phase v n p \<and> (\<forall>i. knows (p i) \<longrightarrow> v = 3))"

lemma once_inv_iff: "once_inv (v, n, p) \<longleftrightarrow> once_phase v n p \<and> (\<forall>i. knows (p i) \<longrightarrow> v = 3)"
  by (simp add: once_inv_def)

lemma once_phase_other:
  assumes "once_phase v n p" "leaders p' = leaders p" "\<And>i. leader (p i) \<Longrightarrow> p' i = p i" "v' = v \<or> v = 1 \<and> v' = 2"
  shows "once_phase v' n p'"
proof -
  have "p' i = p i" if "leaders p = {i}" for i using that assms(3) [of i] by (auto simp: leaders_def)
  then show ?thesis using assms(1,2,4) unfolding once_phase_def by auto
qed

lemma once_phase_leader:
  assumes "once_phase v n p" "leader (p i)"
  shows "leaders p = {i}" "v = 1 \<or> v = 2" "n = (if p i = Finish then 1 else 0)"
proof -
  have "i \<in> leaders p" using assms(2) by (simp add: leaders_def)
  then show "leaders p = {i}" "v = 1 \<or> v = 2" "n = (if p i = Finish then 1 else 0)"
    using assms(1) unfolding once_phase_def by auto
qed

lemma leaders_upd: "leaders (p(i := c)) = (if leader c then insert i (leaders p) else leaders p - {i})"
  by (auto simp: leaders_def)

lemma once_inv_enter:
  assumes "once_inv (0, n, p)" shows "once_inv (1, n, p(i := Callback))"
proof -
  have "leaders p = {}" "n = 0" "\<forall>i. \<not> knows (p i)" using assms by (simp_all add: once_inv_iff once_phase_def)
  then show ?thesis by (auto simp: once_inv_iff once_phase_def leaders_upd leader_def knows_def)
qed

lemma once_inv_called:
  assumes "once_inv (v, n, p)" "p i = Callback" shows "once_inv (v, n + 1, p(i := Finish))"
proof -
  have l: "leaders p = {i}" "v = 1 \<or> v = 2" "n = 0"
    using assms once_phase_leader [of v n p i] by (simp_all add: once_inv_iff leader_def)
  then have "\<forall>i. \<not> knows (p i)" using assms(1) by (auto simp: once_inv_iff)
  then show ?thesis using l by (auto simp: once_inv_iff once_phase_def leaders_upd leader_def knows_def)
qed

lemma once_inv_finish:
  assumes "once_inv (v, n, p)" "p i = Finish" "c = WakeAll \<or> c = Returned" shows "once_inv (3, n, p(i := c))"
proof -
  have "leaders p = {i}" "n = 1" using assms(1,2) once_phase_leader [of v n p i] by (simp_all add: once_inv_iff leader_def)
  then show ?thesis using assms(3) by (auto simp: once_inv_iff once_phase_def leaders_upd leader_def)
qed

lemma once_inv_other:
  assumes "once_inv (v, n, p)" "leaders p' = leaders p" "\<And>i. leader (p i) \<Longrightarrow> p' i = p i" "v' = v \<or> v = 1 \<and> v' = 2"
    "\<And>i. knows (p' i) \<Longrightarrow> v' = 3"
  shows "once_inv (v', n, p')"
  using assms once_phase_other [of v n p p' v'] by (simp add: once_inv_iff)

lemma once_inv_done: "once_inv (v, n, p) \<Longrightarrow> knows (p i) \<Longrightarrow> v = 3 \<and> n = 1"
  by (auto simp: once_inv_iff once_phase_def)

lemma once_step_other:
  assumes "xtrace_once c v n = Some (c', v', n')" "\<not> leader c" "c = Call \<Longrightarrow> v \<noteq> 0"
  shows "n' = n" "\<not> leader c'" "v' = v \<or> v = 1 \<and> v' = 2" "knows c' \<Longrightarrow> knows c \<or> v = 3 \<and> v' = 3"
  using assms by (cases c; auto simp: leader_def knows_def split: if_splits)+

lemma once_keeps_inv: "once_step sl wk s s' \<Longrightarrow> wakes_only wk \<Longrightarrow> once_inv s \<Longrightarrow> once_inv s'"
proof (induction rule: once_step.induct)
  case (run p i v n c v' n')
  consider "p i = Callback" | "p i = Finish" | "p i = Call" "v = 0" | "\<not> leader (p i)" "p i = Call \<Longrightarrow> v \<noteq> 0"
    by (auto simp: leader_def)
  then show ?case
  proof cases
    case 1
    then show ?thesis using run(1) once_inv_called [OF run(3)] by simp
  next
    case 2
    then show ?thesis using run(1) once_inv_finish [OF run(3), of i c] by (auto split: if_splits)
  next
    case 3
    then show ?thesis using run once_inv_enter [of n p i] by (auto)
  next
    case 4
    note st = once_step_other [OF run(1) 4]
    have "v' = 3" if "knows ((p(i := c)) j)" for j
      using that st(3,4) once_inv_done [OF run(3), of i] once_inv_done [OF run(3), of j] by (auto split: if_splits)
    then have "once_inv (v', n, p(i := c))" using st(2,3) 4(1)
      by (intro once_inv_other [OF run(3)]) (auto simp only: leaders_def fun_upd_apply split: if_splits)
    then show ?thesis using st(1) by simp
  qed
next
  case (sleep p i e v n)
  show ?case using once_inv_done [OF sleep(4)] sleep(1)
    by (intro once_inv_other [OF sleep(4)]) (auto simp: leader_def leaders_def knows_def split: if_splits)
next
  case (awake p i e v n)
  show ?case using once_inv_done [OF awake(3)] awake(1)
    by (intro once_inv_other [OF awake(3)]) (auto simp: leader_def leaders_def knows_def split: if_splits)
next
  case (wake p i W v n)
  then have W: "W \<subseteq> {j. p j = OSleeping}" by (auto simp: wakes_only_def)
  have "v = 3" using once_inv_done [OF wake(4), of i] wake(1) by (simp add: knows_def)
  then show ?case using W wake(1)
    by (intro once_inv_other [OF wake(4)]) (auto simp: leader_def leaders_def split: if_splits)
qed

lemma once_reach: "(once_step sl wk)\<^sup>*\<^sup>* once_init s \<Longrightarrow> wakes_only wk \<Longrightarrow> once_inv s"
proof (induction rule: rtranclp_induct)
  case base
  show ?case by (simp add: once_init_def once_inv_iff once_phase_def leaders_def leader_def knows_def)
qed (rule once_keeps_inv)

section \<open>Properties\<close>

text \<open>
  C13: the lock excludes. In every state that any number of threads reach by calling lock and unlock,
  whatever threads the futex lets sleep and whichever of them it wakes, the word is 0, 1 or 2; while it
  is 0 no thread holds the lock, and otherwise exactly one thread does.
\<close>

theorem xtrace_lock_excludes:
  assumes "(xlock_step sl wk)\<^sup>*\<^sup>* xlock_start (v, p)" "wakes_only wk"
  shows "v \<in> {0, 1, 2} \<and> (if v = 0 then {i. p i = Held} = {} else \<exists>h. {i. p i = Held} = {h})"
proof -
  have inv: "xlock_inv (v, p)" using reach_inv [OF assms] .
  then show ?thesis
  proof (cases "v = 0")
    case False
    then obtain h where h: "p h = Held" using inv by (auto simp: xlock_inv_def)
    then have "{i. p i = Held} = {h}" using inv by (auto simp: xlock_inv_def)
    then show ?thesis using inv False by (auto simp: xlock_inv_def)
  qed (auto simp: xlock_inv_def)
qed

definition wakes_one :: wakes where
  "wakes_one n S W \<longleftrightarrow> (if S = {} then W = {} else \<exists>j \<in> S. W = {j})"

lemma wakes_one_ok: "wakes_only wakes_one" "futex_ok (=) wakes_one"
  by (auto simp: wakes_only_def futex_ok_def wakes_one_def split: if_splits)

text \<open>A run in which a second thread meets the lock held and sleeps.\<close>

definition contended :: "nat \<Rightarrow> lock_pc" where
  "contended = (\<lambda>_. Out)(0 := Held, 1 := Sleeping)"

lemma reach_lock:
  "r\<^sup>*\<^sup>* s (v, p) \<Longrightarrow> r = xlock_step sl wk \<Longrightarrow> xtrace_lock_lock (p i) v = Some (c, v') \<Longrightarrow> r\<^sup>*\<^sup>* s (v', p(i := c))"
  by (auto intro: rtranclp.rtrancl_into_rtrancl xlock_step.lock)

lemma reach_contended: "(xlock_step (=) wk)\<^sup>*\<^sup>* xlock_start (2, contended)"
proof -
  let ?r = "xlock_step (=) wk" and ?p = "(\<lambda>_. Out) :: nat \<Rightarrow> lock_pc"
  have "?r\<^sup>*\<^sup>* xlock_start (0, ?p)" by (simp add: xlock_start_def)
  then have "?r\<^sup>*\<^sup>* xlock_start (0, ?p(0 := First))" by (rule reach_lock) simp_all
  then have "?r\<^sup>*\<^sup>* xlock_start (1, ?p(0 := First, 0 := Held))"
    by (rule reach_lock) (simp_all add: cmpxchg_wrapper_u32_def)
  then have "?r\<^sup>*\<^sup>* xlock_start (1, ?p(0 := First, 0 := Held, 1 := First))" by (rule reach_lock) simp_all
  then have "?r\<^sup>*\<^sup>* xlock_start (1, ?p(0 := First, 0 := Held, 1 := First, 1 := Loop 1))"
    by (rule reach_lock) (simp_all add: cmpxchg_wrapper_u32_def)
  then have "?r\<^sup>*\<^sup>* xlock_start (2, ?p(0 := First, 0 := Held, 1 := First, 1 := Loop 1, 1 := Wait))"
    by (rule reach_lock) (simp_all add: cmpxchg_wrapper_u32_def)
  then have "?r\<^sup>*\<^sup>* xlock_start (2, ?p(0 := First, 0 := Held, 1 := First, 1 := Loop 1, 1 := Wait, 1 := Sleeping))"
    by (rule rtranclp.rtrancl_into_rtrancl) (rule xlock_step.sleep, simp_all)
  then show ?thesis by (simp add: contended_def)
qed

theorem xtrace_lock_excludes_witness:
  "(xlock_step (=) wakes_one)\<^sup>*\<^sup>* xlock_start (2, contended) \<and> (\<exists>h. {i. contended i = Held} = {h})"
  using xtrace_lock_excludes [OF reach_contended wakes_one_ok(1)] reach_contended by simp

text \<open>
  C14: no wake-up is lost. Whenever a thread sleeps in the wait of the lock, another thread is at work on
  it, holding it or on its way to take it or to wake a sleeper, and that thread has a next step; so the
  threads never all wait for one another. The futex is assumed to behave as Linux documents it.
\<close>

theorem xtrace_lock_progress:
  assumes "(xlock_step sl wk)\<^sup>*\<^sup>* xlock_start (v, p)" "futex_ok sl wk" "p i = Sleeping"
  shows "\<exists>j s'. p j \<noteq> Out \<and> p j \<noteq> Sleeping \<and> xlock_step sl wk (v, p) s' \<and> snd s' j \<noteq> p j"
proof -
  have "v = 2 \<or> (\<exists>j. trying (p j))" using reach_wake [OF assms(1,2)] assms(3) by (auto simp: wake_inv_def)
  moreover have "\<exists>j. p j = Held" if "v = 2"
    using that reach_inv [OF assms(1) futex_ok_only [OF assms(2)]] by (auto simp: xlock_inv_def)
  ultimately obtain j where j: "p j = Held \<or> trying (p j)" by blast
  then have "\<exists>s'. xlock_step sl wk (v, p) s' \<and> snd s' j \<noteq> p j" using trying_step [OF assms(2)] by blast
  moreover have "p j \<noteq> Out" "p j \<noteq> Sleeping" using j by auto
  ultimately show ?thesis by blast
qed

theorem xtrace_lock_progress_witness:
  "contended 1 = Sleeping \<and>
   (\<exists>j s'. contended j \<noteq> Out \<and> contended j \<noteq> Sleeping \<and> xlock_step (=) wakes_one (2, contended) s' \<and> snd s' j \<noteq> contended j)"
  using xtrace_lock_progress [OF reach_contended wakes_one_ok(2), of 1] by (simp add: contended_def)

text \<open>
  C17: the callback of \<^verbatim>\<open>xtrace_once\<close> runs once. In every state that any number of threads reach by
  calling it, with any futex, at most one run of the callback has ended, at most one thread is in the
  callback, and once a thread has returned the run has ended and no thread is in it.
\<close>

theorem xtrace_once_runs_once:
  assumes "(once_step sl wk)\<^sup>*\<^sup>* once_init (v, n, p)" "wakes_only wk"
  shows "n \<le> 1 \<and> (\<exists>h. {i. p i = Callback} \<subseteq> {h}) \<and> (n = 1 \<longrightarrow> {i. p i = Callback} = {}) \<and>
    ({i. p i = Returned} \<noteq> {} \<longrightarrow> n = 1)"
proof -
  have inv: "once_inv (v, n, p)" using once_reach [OF assms] .
  have c: "leaders p = {i} \<and> n = 0" if "p i = Callback" for i
    using that inv once_phase_leader [of v n p i] by (simp add: once_inv_iff leader_def)
  have one: "i = j" if "p i = Callback" "p j = Callback" for i j using c [OF that(1)] c [OF that(2)] by simp
  have "n \<le> 1" using inv by (auto simp: once_inv_iff once_phase_def)
  moreover have "\<exists>h. {i. p i = Callback} \<subseteq> {h}" using one by blast
  moreover have "n = 1 \<longrightarrow> {i. p i = Callback} = {}" using c by auto
  moreover have "{i. p i = Returned} \<noteq> {} \<longrightarrow> n = 1" using once_inv_done [OF inv] by (auto simp: knows_def)
  ultimately show ?thesis by blast
qed

definition completed :: "nat \<Rightarrow> once_pc" where
  "completed = (\<lambda>_. Call)(0 := Returned)"

lemma reach_completed: "(once_step sl wk)\<^sup>*\<^sup>* once_init (3, 1, completed)"
proof -
  let ?r = "once_step sl wk" and ?p = "(\<lambda>_. Call) :: nat \<Rightarrow> once_pc"
  have "?r once_init (1, 0, ?p(0 := Callback))" unfolding once_init_def by (rule once_step.run) (simp)
  moreover have "?r (1, 0, ?p(0 := Callback)) (1, 1, ?p(0 := Callback, 0 := Finish))" by (rule once_step.run) simp
  moreover have "?r (1, 1, ?p(0 := Callback, 0 := Finish)) (3, 1, ?p(0 := Callback, 0 := Finish, 0 := Returned))"
    by (rule once_step.run) (simp)
  ultimately show ?thesis by (simp add: completed_def)
qed

theorem xtrace_once_runs_once_witness:
  "(once_step (=) wakes_one)\<^sup>*\<^sup>* once_init (3, 1, completed) \<and> completed 0 = Returned \<and> {i. completed i = Callback} = {}"
  using xtrace_once_runs_once [OF reach_completed wakes_one_ok(1)] reach_completed by (simp add: completed_def)

end
