(* ===== verification/Workq.thy ===== *)
theory Workq
  imports XLock
begin

text \<open>
  The work queue, \<^verbatim>\<open>src/kernel/emulation/linux/bsdthread/workq_kernreturn.c\<close>: the semaphore on a futex
  with \<^verbatim>\<open>sem_down\<close> and \<^verbatim>\<open>sem_up\<close>, and \<^verbatim>\<open>sys_workq_kernreturn\<close>, by which threads are requested and parked.

  The semaphore is modelled at the granularity of its accesses: each step is one atomic addition, one
  plain store, or one call of the futex, of any thread. The futex is the parameter it is for the locks of
  the tracer. The word is an integer here: an overflow takes \<open>2 ^ 31\<close> calls that are not answered.

  The queue is modelled at the granularity of its critical sections, which hold \<^verbatim>\<open>workq_parked_lock\<close>.
  A thread that is parked is known by a number, which stands for the structure on its stack; the
  events are addresses, with 0 for none.
\<close>

section \<open>The semaphore\<close>

text \<open>
  Where a thread is: outside; before the addition, the store and the wait of \<^verbatim>\<open>sem_down\<close>; asleep in the
  wait; behind \<^verbatim>\<open>sem_down\<close> with result 1 or 0; before the addition, the store and the wake of \<^verbatim>\<open>sem_up\<close>.
\<close>

datatype sem_pc = Idle | DownDec | DownStore | DownWait | DownAsleep | Granted | Refused | UpInc | UpStore | UpWake

fun sem_down :: "sem_pc \<Rightarrow> int \<Rightarrow> (sem_pc \<times> int) option" where
  "sem_down DownDec s = (let result = s - 1 in Some (if result < 0 then DownStore else Granted, result))"
| "sem_down DownStore s = Some (DownWait, - 1)"
| "sem_down _ s = None"

fun sem_up :: "sem_pc \<Rightarrow> int \<Rightarrow> (sem_pc \<times> int) option" where
  "sem_up UpInc s = (let result = s + 1 in Some (if result = 0 then UpStore else Idle, result))"
| "sem_up UpStore s = Some (UpWake, 1)"
| "sem_up _ s = None"

text \<open>
  The word, the threads, and two counters that no code reads: how often \<^verbatim>\<open>sem_up\<close> has added one, and how
  often \<^verbatim>\<open>sem_down\<close> has returned 1.
\<close>

record semaphore =
  sem_word :: int
  sem_pcs :: "nat \<Rightarrow> sem_pc"
  sem_ups :: nat
  sem_grants :: nat

definition sem_start :: "int \<Rightarrow> semaphore" where
  "sem_start n = \<lparr>sem_word = n, sem_pcs = (\<lambda>_. Idle), sem_ups = 0, sem_grants = 0\<rparr>"

definition sem_move :: "nat \<Rightarrow> sem_pc \<Rightarrow> semaphore \<Rightarrow> semaphore" where
  "sem_move i c s = s\<lparr>sem_pcs := (sem_pcs s)(i := c)\<rparr>"

text \<open>
  \<^verbatim>\<open>__linux_futex\<close> returns -1 for every error, a timeout, an interruption, or a word that has changed;
  \<^verbatim>\<open>sem_down\<close> then returns 0.
\<close>

inductive sem_step :: "sleeps \<Rightarrow> wakes \<Rightarrow> semaphore \<Rightarrow> semaphore \<Rightarrow> bool"
  for sl wk where
  call: "sem_pcs s i \<in> {Idle, Granted, Refused} \<Longrightarrow> c \<in> {Idle, DownDec, UpInc} \<Longrightarrow> sem_step sl wk s (sem_move i c s)"
| down: "sem_down (sem_pcs s i) (sem_word s) = Some (c, v) \<Longrightarrow>
    sem_step sl wk s (sem_move i c (s\<lparr>sem_word := v, sem_grants := sem_grants s + (if c = Granted then 1 else 0)\<rparr>))"
| up: "sem_up (sem_pcs s i) (sem_word s) = Some (c, v) \<Longrightarrow>
    sem_step sl wk s (sem_move i c (s\<lparr>sem_word := v, sem_ups := sem_ups s + (if sem_pcs s i = UpInc then 1 else 0)\<rparr>))"
| sleep: "sem_pcs s i = DownWait \<Longrightarrow> sl (word_of_int (sem_word s)) (- 1) \<Longrightarrow> sem_step sl wk s (sem_move i DownAsleep s)"
| again: "sem_pcs s i \<in> {DownWait, DownAsleep} \<Longrightarrow> sem_step sl wk s (sem_move i DownDec s)"
| fail: "sem_pcs s i \<in> {DownWait, DownAsleep} \<Longrightarrow> sem_step sl wk s (sem_move i Refused s)"
| wake: "sem_pcs s i = UpWake \<Longrightarrow> wk 1 {j. sem_pcs s j = DownAsleep} W \<Longrightarrow>
    sem_step sl wk s (sem_move i Idle (s\<lparr>sem_pcs := \<lambda>j. if j \<in> W then DownDec else sem_pcs s j\<rparr>))"

section \<open>The queue\<close>

abbreviation (input) WQ_MAX_THREADS :: int where "WQ_MAX_THREADS \<equiv> 64"

abbreviation (input) WQ_FLAG_THREAD_PRIO_QOS :: u32 where "WQ_FLAG_THREAD_PRIO_QOS \<equiv> 0x4000"
abbreviation (input) WQ_FLAG_THREAD_OVERCOMMIT :: u32 where "WQ_FLAG_THREAD_OVERCOMMIT \<equiv> 0x10000"
abbreviation (input) WQ_FLAG_THREAD_REUSE :: u32 where "WQ_FLAG_THREAD_REUSE \<equiv> 0x20000"
abbreviation (input) WQ_FLAG_THREAD_NEWSPI :: u32 where "WQ_FLAG_THREAD_NEWSPI \<equiv> 0x40000"
abbreviation (input) WQ_FLAG_THREAD_KEVENT :: u32 where "WQ_FLAG_THREAD_KEVENT \<equiv> 0x80000"

text \<open>
  The class of a priority and its flag for more threads than processors are defined by a header of
  \<^verbatim>\<open>libpthread\<close>: parameters.
\<close>

record qos_header =
  thread_qos :: "u32 \<Rightarrow> u32"
  overcommit_flag :: u32

definition extract_wq_flags :: "qos_header \<Rightarrow> u32 \<Rightarrow> u32" where
  "extract_wq_flags H priority =
     (let flags = WQ_FLAG_THREAD_NEWSPI OR thread_qos H priority OR WQ_FLAG_THREAD_PRIO_QOS in
      if priority AND overcommit_flag H \<noteq> 0 then flags OR WQ_FLAG_THREAD_OVERCOMMIT else flags)"

record parked_thread =
  pk_sem :: int
  pk_flags :: u32
  pk_event :: u64

record kevent_data =
  ke_events :: "u64 list"
  ke_nevents :: int
  ke_sem :: int

record workq =
  workq_sem :: int
  workq_parked :: "nat list"
  workq_cell :: "nat \<Rightarrow> parked_thread"
  workq_kevents :: "u64 \<Rightarrow> kevent_data"
  wq_event_pending :: u64

text \<open>What \<^verbatim>\<open>sem_up\<close> leaves when no other thread uses the semaphore meanwhile.\<close>

definition up_value :: "int \<Rightarrow> int" where
  "up_value s = (case sem_up UpInc s of Some (UpStore, _) \<Rightarrow> 1 | Some (_, v) \<Rightarrow> v)"

text \<open>
  One round of the loop of \<^verbatim>\<open>WQOPS_QUEUE_REQTHREADS\<close>: the first parked thread is woken, or a thread is
  created. With no permit left \<^verbatim>\<open>sem_down\<close> waits, \<open>None\<close>; when the wait is interrupted it leaves -1, and the
  round goes on without a permit, since the result is not looked at.
\<close>

datatype wq_action = Resume nat | Spawn u32 "u64 list" int

definition wq_request :: "bool \<Rightarrow> u32 \<Rightarrow> u64 \<Rightarrow> workq \<Rightarrow> (wq_action \<times> workq) option" where
  "wq_request interrupted flags event q =
     do { s \<leftarrow> (if workq_sem q > 0 then Some (workq_sem q - 1) else if interrupted then Some (- 1) else None);
          let q = q\<lparr>workq_sem := s\<rparr>;
          case workq_parked q of
            t # ts \<Rightarrow>
              let m = workq_cell q t in
              Some (Resume t, q\<lparr>workq_cell := (workq_cell q)(t := m\<lparr>pk_flags := flags, pk_event := event,
                 pk_sem := up_value (pk_sem m)\<rparr>), workq_parked := ts\<rparr>)
          | [] \<Rightarrow>
              Some (Spawn flags (if event \<noteq> 0 then ke_events (workq_kevents q event) else [])
                 (if event \<noteq> 0 then ke_nevents (workq_kevents q event) else 0), q\<lparr>wq_event_pending := event\<rparr>) }"

text \<open>
  The rounds, with what becomes of a wait in each; the flag tells that the loop has ended, and not that
  it waits.
\<close>

fun wq_requests :: "bool list \<Rightarrow> u32 \<Rightarrow> u64 \<Rightarrow> workq \<Rightarrow> wq_action list \<times> bool \<times> workq" where
  "wq_requests [] flags event q = ([], True, q)"
| "wq_requests (i # is) flags event q =
     (case wq_request i flags event q of
        None \<Rightarrow> ([], False, q)
      | Some (a, q) \<Rightarrow> let (as, r) = wq_requests is flags event q in (a # as, r))"

text \<open>
  \<^verbatim>\<open>WQOPS_THREAD_KEVENT_RETURN\<close> hands events to the thread that waits for them. The copy is undefined, \<open>None\<close>,
  when the list or the array that takes it is shorter than the number.
\<close>

definition wq_kevent_return :: "u64 list \<Rightarrow> int \<Rightarrow> workq \<Rightarrow> workq option" where
  "wq_kevent_return keventlist nkevents q =
     (let e = wq_event_pending q; d = workq_kevents q e; n = nat nkevents in
      if e = 0 then Some q
      else if n > length keventlist \<or> n > length (ke_events d) then None
      else Some (q\<lparr>workq_kevents := (workq_kevents q)(e := \<lparr>ke_events = take n keventlist @ drop n (ke_events d),
             ke_nevents = nkevents, ke_sem = up_value (ke_sem d)\<rparr>), wq_event_pending := 0\<rparr>))"

text \<open>\<^verbatim>\<open>WQOPS_THREAD_RETURN\<close> up to the wait; \<^verbatim>\<open>me.event\<close> is not set.\<close>

definition wq_park :: "nat \<Rightarrow> u32 \<Rightarrow> workq \<Rightarrow> workq" where
  "wq_park me flags q =
     q\<lparr>workq_cell := (workq_cell q)(me := (workq_cell q me)\<lparr>pk_sem := 0, pk_flags := flags\<rparr>),
       workq_parked := me # workq_parked q, workq_sem := up_value (workq_sem q)\<rparr>"

text \<open>
  Behind the wait: the semaphore of the thread has been raised, or the fifteen seconds are over and it is
  still down. The outcome is what the entry point is called with: the flags, the events and their
  number, -1 for a thread that shall end. To remove a thread that is not in the queue is undefined.
\<close>

definition wq_unpark :: "nat \<Rightarrow> workq \<Rightarrow> ((u32 \<times> u64 list \<times> int) \<times> workq) option" where
  "wq_unpark me q =
     (let m = workq_cell q me; flags = pk_flags m OR WQ_FLAG_THREAD_REUSE; e = pk_event m in
      if pk_sem m > 0 then
        if e \<noteq> 0 then Some ((flags, ke_events (workq_kevents q e), ke_nevents (workq_kevents q e)), q\<lparr>wq_event_pending := e\<rparr>)
        else Some ((flags, [], 0), q)
      else if me \<in> set (workq_parked q) then Some ((flags, [], - 1), q\<lparr>workq_parked := remove1 me (workq_parked q)\<rparr>)
      else None)"

text \<open>
  The dispatch on the option. \<open>me\<close> is the calling thread and \<open>my_prio\<close> its class, \<open>intr\<close> what becomes of the waits.
  The call returns a number after its actions, waits for a permit after them, or has parked the thread,
  which goes on with \<open>wq_unpark\<close>.
\<close>

datatype wq_result = WqReturn int "wq_action list" | WqWaits "wq_action list" | WqParked

definition sys_workq_kernreturn ::
    "qos_header \<Rightarrow> nat \<Rightarrow> u32 \<Rightarrow> (nat \<Rightarrow> bool) \<Rightarrow> int \<Rightarrow> u64 \<Rightarrow> u64 list \<Rightarrow> int \<Rightarrow> u32 \<Rightarrow> workq \<Rightarrow> (wq_result \<times> workq) option" where
  "sys_workq_kernreturn H me my_prio intr options item keventlist affinity prio q =
     (if options = 0x40 then
        do { q \<leftarrow> wq_kevent_return keventlist affinity q; Some (WqParked, wq_park me (extract_wq_flags H my_prio) q) }
      else if options = 4 then Some (WqParked, wq_park me (extract_wq_flags H my_prio) q)
      else if options \<in> {0x80, 0x10} then Some (WqReturn 0 [], q)
      else if options \<in> {0x100020, 0x30, 0x20} then
        let event = (if options = 0x100020 then item else 0);
            n = (if options = 0x100020 then 1 else affinity);
            flags = extract_wq_flags H prio;
            flags = (if event \<noteq> 0 then flags OR WQ_FLAG_THREAD_KEVENT else flags);
            (as, ended, q) = wq_requests (map intr [0..<nat n]) flags event q in
        Some (if ended then WqReturn 0 as else WqWaits as, q)
      else if options = 0x400 then Some (WqReturn 0 [], q)
      else Some (WqReturn (- 45) [], q))"

definition priority_to_class :: "u32 \<Rightarrow> int" where
  "priority_to_class prio =
     switch [(0x20, 1), (0x10, 0x19), (8, 0x15), (4, 0x11), (2, 9), (1, 5)] 0 (uint (drop_bit 8 (prio AND 0xff00)))"

text \<open>
  The threads around the queue: those that hold a permit, and those in the wait of \<^verbatim>\<open>WQOPS_THREAD_RETURN\<close>. A
  thread that is created gets a number that is not in use.
\<close>

record wq_system =
  wq :: workq
  running :: "nat set"
  waiting :: "nat set"

definition wq_start :: wq_system where
  "wq_start = \<lparr>wq = \<lparr>workq_sem = WQ_MAX_THREADS, workq_parked = [], workq_cell = (\<lambda>_. \<lparr>pk_sem = 0, pk_flags = 0, pk_event = 0\<rparr>),
     workq_kevents = (\<lambda>_. \<lparr>ke_events = [], ke_nevents = 0, ke_sem = 0\<rparr>), wq_event_pending = 0\<rparr>, running = {}, waiting = {}\<rparr>"

inductive wq_step :: "wq_system \<Rightarrow> wq_system \<Rightarrow> bool" where
  resume: "wq_request False flags event (wq s) = Some (Resume t, q) \<Longrightarrow>
    wq_step s (s\<lparr>wq := q, running := insert t (running s)\<rparr>)"
| spawn: "wq_request False flags event (wq s) = Some (Spawn f evs n, q) \<Longrightarrow> t \<notin> running s \<union> waiting s \<Longrightarrow>
    wq_step s (s\<lparr>wq := q, running := insert t (running s)\<rparr>)"
| kevent: "wq_kevent_return evs n (wq s) = Some q \<Longrightarrow> wq_step s (s\<lparr>wq := q\<rparr>)"
| park: "t \<in> running s - waiting s \<Longrightarrow>
    wq_step s (s\<lparr>wq := wq_park t flags (wq s), running := running s - {t}, waiting := insert t (waiting s)\<rparr>)"
| unpark: "t \<in> waiting s \<Longrightarrow> wq_unpark t (wq s) = Some (r, q) \<Longrightarrow>
    wq_step s (s\<lparr>wq := q, waiting := waiting s - {t}\<rparr>)"

section \<open>Lemmas on the semaphore\<close>

lemma sem_move_simps [simp]:
  "sem_word (sem_move i c s) = sem_word s" "sem_pcs (sem_move i c s) = (sem_pcs s)(i := c)"
  "sem_ups (sem_move i c s) = sem_ups s" "sem_grants (sem_move i c s) = sem_grants s"
  by (simp_all add: sem_move_def)

text \<open>
  What has been granted, what the word offers, and the stores of \<^verbatim>\<open>sem_up\<close> that are under way never exceed
  what the semaphore began with and what has been added.
\<close>

definition storing :: "semaphore \<Rightarrow> nat set" where
  "storing s = {i. sem_pcs s i = UpStore}"

definition sem_inv :: "int \<Rightarrow> semaphore \<Rightarrow> bool" where
  "sem_inv n s \<longleftrightarrow> finite (storing s) \<and>
     int (sem_grants s) + max 0 (sem_word s) + int (card (storing s)) \<le> n + int (sem_ups s)"

lemma storing_upd: "storing (sem_move i c s) = (if c = UpStore then insert i (storing s) else storing s - {i})"
  by (auto simp: storing_def)

lemma storing_iff [simp]: "i \<in> storing s \<longleftrightarrow> sem_pcs s i = UpStore"
  by (simp add: storing_def)

lemma storing_update [simp]:
  "storing (s\<lparr>sem_word := v, sem_grants := g\<rparr>) = storing s" "storing (s\<lparr>sem_word := v, sem_ups := u\<rparr>) = storing s"
  by (simp_all add: storing_def)

lemma card_storing:
  assumes "finite (storing s)"
  shows "int (card (storing (sem_move i c s))) =
    int (card (storing s)) - (if sem_pcs s i = UpStore then 1 else 0) + (if c = UpStore then 1 else 0)"
proof -
  have "card (storing s) = Suc (card (storing s - {i}))" if "sem_pcs s i = UpStore"
    using card.remove [OF assms, of i] that by simp
  then show ?thesis
    using assms by (cases "sem_pcs s i = UpStore") (simp_all add: storing_upd insert_absorb)
qed

lemma sem_inv_move:
  assumes "sem_inv n s" "sem_pcs s i \<noteq> UpStore" "c \<noteq> UpStore"
  shows "sem_inv n (sem_move i c s)"
  using assms by (simp add: sem_inv_def card_storing) (simp add: storing_upd)

lemma sem_inv_word:
  assumes "sem_inv n s"
    and "int g + max 0 v + (if c = UpStore then 1 else 0) - int u \<le>
      int (sem_grants s) + max 0 (sem_word s) + (if sem_pcs s i = UpStore then 1 else 0) - int (sem_ups s)"
  shows "sem_inv n (sem_move i c (s\<lparr>sem_word := v, sem_grants := g, sem_ups := u\<rparr>))"
proof -
  let ?s = "s\<lparr>sem_word := v, sem_grants := g, sem_ups := u\<rparr>"
  have same: "storing ?s = storing s" by (simp add: storing_def)
  have fin: "finite (storing ?s)" using assms(1) by (simp add: sem_inv_def same)
  have "finite (storing (sem_move i c ?s))" using fin by (simp add: storing_upd)
  then show ?thesis
    using assms card_storing [OF fin, of i c] unfolding sem_inv_def same by simp
qed

lemma sem_step_inv:
  assumes "sem_step sl wk s s'" "sem_inv n s"
    and "wakes_only wk"
  shows "sem_inv n s'"
  using assms(1,2)
proof induction
  case (down s i c v)
  then have "sem_inv n (sem_move i c (s\<lparr>sem_word := v, sem_grants := sem_grants s + (if c = Granted then 1 else 0), sem_ups := sem_ups s\<rparr>))"
    by (intro sem_inv_word) (auto elim!: sem_down.elims simp: Let_def split: if_splits)
  then show ?case by simp
next
  case (up s i c v)
  then have "sem_inv n (sem_move i c (s\<lparr>sem_word := v, sem_grants := sem_grants s, sem_ups := sem_ups s + (if sem_pcs s i = UpInc then 1 else 0)\<rparr>))"
    by (intro sem_inv_word) (auto elim!: sem_up.elims simp: Let_def split: if_splits)
  then show ?case by simp
next
  case (wake s i W)
  let ?s = "s\<lparr>sem_pcs := \<lambda>j. if j \<in> W then DownDec else sem_pcs s j\<rparr>"
  have "W \<subseteq> {j. sem_pcs s j = DownAsleep}" using wake assms(3) by (auto simp: wakes_only_def)
  then have "storing ?s = storing s" by (auto simp: storing_def)
  then have "sem_inv n ?s" using wake by (simp add: sem_inv_def)
  then show ?case using wake by (intro sem_inv_move) auto
qed (auto intro!: sem_inv_move)

lemma sem_reach_inv: "(sem_step sl wk)\<^sup>*\<^sup>* s s' \<Longrightarrow> wakes_only wk \<Longrightarrow> sem_inv n s \<Longrightarrow> sem_inv n s'"
  by (induction rule: rtranclp_induct) (auto intro: sem_step_inv)

lemma sem_start_inv: "0 \<le> n \<Longrightarrow> sem_inv n (sem_start n)"
  by (simp add: sem_inv_def sem_start_def storing_def)

text \<open>The steps of one thread with everything else as it is, for runs that are written out.\<close>

lemma sem_reach_call: "(sem_step sl wk)\<^sup>*\<^sup>* s\<^sub>0 s \<Longrightarrow> sem_pcs s i = Idle \<Longrightarrow> c \<in> {DownDec, UpInc} \<Longrightarrow>
    s' = sem_move i c s \<Longrightarrow> (sem_step sl wk)\<^sup>*\<^sup>* s\<^sub>0 s'"
  using sem_step.call [of s i c sl wk] by (auto intro: rtranclp.rtrancl_into_rtrancl)

lemma sem_reach_down: "(sem_step sl wk)\<^sup>*\<^sup>* s\<^sub>0 s \<Longrightarrow> sem_down (sem_pcs s i) (sem_word s) = Some (c, v) \<Longrightarrow>
    s' = sem_move i c (s\<lparr>sem_word := v, sem_grants := sem_grants s + (if c = Granted then 1 else 0)\<rparr>) \<Longrightarrow>
    (sem_step sl wk)\<^sup>*\<^sup>* s\<^sub>0 s'"
  using sem_step.down [of s i c v sl wk] by (auto intro: rtranclp.rtrancl_into_rtrancl)

lemma sem_reach_up: "(sem_step sl wk)\<^sup>*\<^sup>* s\<^sub>0 s \<Longrightarrow> sem_up (sem_pcs s i) (sem_word s) = Some (c, v) \<Longrightarrow>
    s' = sem_move i c (s\<lparr>sem_word := v, sem_ups := sem_ups s + (if sem_pcs s i = UpInc then 1 else 0)\<rparr>) \<Longrightarrow>
    (sem_step sl wk)\<^sup>*\<^sup>* s\<^sub>0 s'"
  using sem_step.up [of s i c v sl wk] by (auto intro: rtranclp.rtrancl_into_rtrancl)

lemma sem_reach_sleep: "(sem_step (=) wk)\<^sup>*\<^sup>* s\<^sub>0 s \<Longrightarrow> sem_pcs s i = DownWait \<Longrightarrow> sem_word s = - 1 \<Longrightarrow>
    s' = sem_move i DownAsleep s \<Longrightarrow> (sem_step (=) wk)\<^sup>*\<^sup>* s\<^sub>0 s'"
  using sem_step.sleep [of s i "(=)" wk] by (auto intro: rtranclp.rtrancl_into_rtrancl)

lemma sem_reach_wake_none:
  assumes "(sem_step sl wakes_one)\<^sup>*\<^sup>* s\<^sub>0 s" "sem_pcs s i = UpWake" "\<forall>j. sem_pcs s j \<noteq> DownAsleep" "s' = sem_move i Idle s"
  shows "(sem_step sl wakes_one)\<^sup>*\<^sup>* s\<^sub>0 s'"
proof -
  have "wakes_one 1 {j. sem_pcs s j = DownAsleep} {}" using assms(3) by (simp add: wakes_one_def)
  then have "sem_step sl wakes_one s s'" using assms sem_step.wake [of s i wakes_one "{}" sl] by simp
  with assms(1) show ?thesis by (rule rtranclp.rtrancl_into_rtrancl)
qed

section \<open>Properties of the semaphore\<close>

text \<open>
  C16: The semaphore of the work queue never hands out more than it has: with any number of threads in
  \<^verbatim>\<open>sem_down\<close> and \<^verbatim>\<open>sem_up\<close>, interleaved in any way, however the waits end, and with any futex that wakes only
  sleepers, the calls of \<^verbatim>\<open>sem_down\<close> that have returned 1 are at most the initial value plus the calls of
  \<^verbatim>\<open>sem_up\<close>. The plain stores between the atomic additions lose permits but make none.
\<close>

theorem sem_grants_bounded:
  assumes "(sem_step sl wk)\<^sup>*\<^sup>* (sem_start n) s" "wakes_only wk" "0 \<le> n"
  shows "int (sem_grants s) \<le> n + int (sem_ups s)"
proof -
  have "sem_inv n s" using assms by (blast intro: sem_reach_inv sem_start_inv)
  then show ?thesis unfolding sem_inv_def by linarith
qed

lemma one_grant: "(sem_step (=) wakes_one)\<^sup>*\<^sup>* (sem_start 1)
    \<lparr>sem_word = 0, sem_pcs = (\<lambda>_. Idle)(0 := Granted), sem_ups = 0, sem_grants = 1\<rparr>"
proof -
  have "(sem_step (=) wakes_one)\<^sup>*\<^sup>* (sem_start 1)
      \<lparr>sem_word = 1, sem_pcs = (\<lambda>_. Idle)(0 := DownDec), sem_ups = 0, sem_grants = 0\<rparr>"
    by (rule sem_reach_call [where i = 0, OF rtranclp.rtrancl_refl]) (simp_all add: sem_start_def sem_move_def)
  then show ?thesis by (rule sem_reach_down [where i = 0 and c = Granted and v = 0]) (simp_all add: sem_move_def)
qed

theorem sem_grants_bounded_witness:
  "(let s = \<lparr>sem_word = 0, sem_pcs = (\<lambda>_. Idle)(0 := Granted), sem_ups = 0, sem_grants = 1\<rparr> in
    (sem_step (=) wakes_one)\<^sup>*\<^sup>* (sem_start 1) s \<and> int (sem_grants s) \<le> 1 + int (sem_ups s))"
  using one_grant sem_grants_bounded [OF one_grant wakes_one_ok(1)] by simp

text \<open>
  C35: A wake-up of the work queue can be lost: a thread that finds the semaphore at 0 has taken it to
  -1, and before it stores -1 another thread goes through the whole of \<^verbatim>\<open>sem_up\<close>. The store then wipes out
  the permit, and the thread sleeps although \<^verbatim>\<open>sem_up\<close> was called once, nobody was granted anything, and no
  thread is left that would wake it. The futex does all that Linux promises.
\<close>

theorem sem_wakeup_lost:
  "(sem_step (=) wakes_one)\<^sup>*\<^sup>* (sem_start 0)
     \<lparr>sem_word = - 1, sem_pcs = (\<lambda>_. Idle)(0 := DownAsleep), sem_ups = 1, sem_grants = 0\<rparr>"
proof -
  let ?s = "\<lambda>v p u. \<lparr>sem_word = v, sem_pcs = p, sem_ups = u, sem_grants = 0\<rparr>"
  let ?R = "(sem_step (=) wakes_one)\<^sup>*\<^sup>* (sem_start 0)"
  have "?R (?s 0 ((\<lambda>_. Idle)(0 := DownDec)) 0)"
    by (rule sem_reach_call [where i = 0, OF rtranclp.rtrancl_refl]) (simp_all add: sem_start_def sem_move_def)
  then have "?R (?s (- 1) ((\<lambda>_. Idle)(0 := DownStore)) 0)"
    by (rule sem_reach_down [where i = 0 and c = DownStore and v = "- 1"]) (simp_all add: sem_move_def)
  then have "?R (?s (- 1) ((\<lambda>_. Idle)(0 := DownStore, 1 := UpInc)) 0)"
    by (rule sem_reach_call [where i = 1 and c = UpInc]) (simp_all add: sem_move_def)
  then have "?R (?s 0 ((\<lambda>_. Idle)(0 := DownStore, 1 := UpStore)) 1)"
    by (rule sem_reach_up [where i = 1 and c = UpStore and v = 0]) (simp_all add: sem_move_def)
  then have "?R (?s 1 ((\<lambda>_. Idle)(0 := DownStore, 1 := UpWake)) 1)"
    by (rule sem_reach_up [where i = 1 and c = UpWake and v = 1]) (simp_all add: sem_move_def)
  then have "?R (?s 1 ((\<lambda>_. Idle)(0 := DownStore)) 1)"
    by (rule sem_reach_wake_none [where i = 1]) (auto simp: sem_move_def fun_eq_iff)
  then have "?R (?s (- 1) ((\<lambda>_. Idle)(0 := DownWait)) 1)"
    by (rule sem_reach_down [where i = 0 and c = DownWait and v = "- 1"]) (simp_all add: sem_move_def)
  then show ?thesis by (rule sem_reach_sleep [where i = 0]) (simp_all add: sem_move_def)
qed

section \<open>Lemmas on the queue\<close>

lemma up_value_simps [simp]: "0 \<le> s \<Longrightarrow> up_value s = s + 1" "up_value (- 1) = 1"
  by (simp_all add: up_value_def)

text \<open>A request that finds a permit.\<close>

lemma wq_request_resume: "0 < workq_sem q \<Longrightarrow> workq_parked q = t # ts \<Longrightarrow>
    wq_request i flags event q = Some (Resume t, q\<lparr>workq_sem := workq_sem q - 1,
      workq_cell := (workq_cell q)(t := (workq_cell q t)\<lparr>pk_flags := flags, pk_event := event,
        pk_sem := up_value (pk_sem (workq_cell q t))\<rparr>), workq_parked := ts\<rparr>)"
  by (simp add: wq_request_def Let_def)

lemma wq_request_spawn: "0 < workq_sem q \<Longrightarrow> workq_parked q = [] \<Longrightarrow>
    wq_request i flags event q = Some (Spawn flags (if event \<noteq> 0 then ke_events (workq_kevents q event) else [])
      (if event \<noteq> 0 then ke_nevents (workq_kevents q event) else 0), q\<lparr>workq_sem := workq_sem q - 1, wq_event_pending := event\<rparr>)"
  by (simp add: wq_request_def Let_def)

lemma wq_request_cases:
  assumes "wq_request False flags event q = Some (a, q')"
  obtains (resume) t ts where "0 < workq_sem q" "workq_parked q = t # ts" "a = Resume t" "workq_sem q' = workq_sem q - 1" "workq_parked q' = ts"
      "workq_cell q' = (workq_cell q)(t := (workq_cell q t)\<lparr>pk_flags := flags, pk_event := event, pk_sem := up_value (pk_sem (workq_cell q t))\<rparr>)"
    | (spawn) f evs n where "0 < workq_sem q" "workq_parked q = []" "a = Spawn f evs n" "workq_sem q' = workq_sem q - 1"
      "workq_parked q' = []" "workq_cell q' = workq_cell q"
  using assms by (cases "workq_parked q") (auto simp: wq_request_def Let_def split: if_splits)

lemma wq_requests_spawns:
  assumes "workq_parked q = []" "int (length is) \<le> workq_sem q"
  shows "\<exists>q'. wq_requests is flags 0 q = (replicate (length is) (Spawn flags [] 0), True, q') \<and>
    workq_sem q' = workq_sem q - int (length is) \<and> workq_parked q' = [] \<and> workq_cell q' = workq_cell q"
  using assms
proof (induction "is" arbitrary: q)
  case (Cons i "is")
  let ?q = "q\<lparr>workq_sem := workq_sem q - 1, wq_event_pending := 0\<rparr>"
  have "wq_request i flags 0 q = Some (Spawn flags [] 0, ?q)" using Cons.prems wq_request_spawn [of q] by simp
  then show ?case using Cons.IH [of ?q] Cons.prems by auto
qed simp

text \<open>Requests take the parked threads from the head, and give each its flags and raise its semaphore.\<close>

lemma wq_requests_serve:
  assumes "distinct (workq_parked q)" "int (length is) \<le> workq_sem q" "\<forall>t\<in>set (workq_parked q). pk_sem (workq_cell q t) = 0"
  shows "\<exists>q'. wq_requests is flags 0 q =
      (map Resume (take (length is) (workq_parked q)) @ replicate (length is - length (workq_parked q)) (Spawn flags [] 0), True, q') \<and>
    workq_sem q' = workq_sem q - int (length is) \<and> workq_parked q' = drop (length is) (workq_parked q) \<and>
    workq_cell q' = (\<lambda>t. if t \<in> set (take (length is) (workq_parked q))
      then (workq_cell q t)\<lparr>pk_flags := flags, pk_event := 0, pk_sem := 1\<rparr> else workq_cell q t)"
  using assms
proof (induction "is" arbitrary: q)
  case (Cons i "is")
  show ?case
  proof (cases "workq_parked q")
    case Nil
    then show ?thesis using wq_requests_spawns [of q "i # is" flags] Cons.prems by auto
  next
    case (Cons t ts)
    let ?q = "q\<lparr>workq_sem := workq_sem q - 1, workq_cell := (workq_cell q)(t := (workq_cell q t)\<lparr>pk_flags := flags, pk_event := 0,
        pk_sem := 1\<rparr>), workq_parked := ts\<rparr>"
    have step: "wq_request i flags 0 q = Some (Resume t, ?q)" using Cons Cons.prems wq_request_resume [of q t ts] by simp
    have t: "t \<notin> set ts" using Cons Cons.prems by simp
    define r where "r = ?q"
    have r: "workq_sem r = workq_sem q - 1" "workq_parked r = ts"
      "workq_cell r = (workq_cell q)(t := (workq_cell q t)\<lparr>pk_flags := flags, pk_event := 0, pk_sem := 1\<rparr>)"
      by (simp_all add: r_def)
    have "distinct (workq_parked r)" "int (length is) \<le> workq_sem r" "\<forall>u\<in>set (workq_parked r). pk_sem (workq_cell r u) = 0"
      using Cons Cons.prems t by (auto simp: r)
    from Cons.IH [OF this] obtain q' where q': "wq_requests is flags 0 r =
        (map Resume (take (length is) ts) @ replicate (length is - length ts) (Spawn flags [] 0), True, q')"
      "workq_sem q' = workq_sem r - int (length is)" "workq_parked q' = drop (length is) ts"
      "workq_cell q' = (\<lambda>u. if u \<in> set (take (length is) ts)
        then (workq_cell r u)\<lparr>pk_flags := flags, pk_event := 0, pk_sem := 1\<rparr> else workq_cell r u)"
      unfolding r by blast
    have "t \<notin> set (take (length is) ts)" using t by (auto dest: in_set_takeD)
    then show ?thesis using q' step [folded r_def] Cons by (auto simp: r)
  qed
qed simp

text \<open>
  What holds of the queue between critical sections: a permit is either in the semaphore or with a
  running thread, the parked threads are those that wait and have not been resumed, and a thread that
  waits has its semaphore raised just when it is no longer in the queue.
\<close>

definition wq_wf :: "wq_system \<Rightarrow> bool" where
  "wq_wf s \<longleftrightarrow> distinct (workq_parked (wq s)) \<and> finite (running s) \<and> set (workq_parked (wq s)) \<subseteq> waiting s \<and>
     running s \<inter> set (workq_parked (wq s)) = {} \<and> waiting s \<subseteq> running s \<union> set (workq_parked (wq s)) \<and>
     workq_sem (wq s) = WQ_MAX_THREADS - int (card (running s)) \<and> 0 \<le> workq_sem (wq s) \<and>
     (\<forall>t\<in>waiting s. pk_sem (workq_cell (wq s) t) = (if t \<in> set (workq_parked (wq s)) then 0 else 1))"

lemma wq_start_wf: "wq_wf wq_start"
  by (simp add: wq_wf_def wq_start_def)

lemma wq_unpark_defined: "wq_wf s \<Longrightarrow> t \<in> waiting s \<Longrightarrow> \<exists>r. wq_unpark t (wq s) = Some r"
  by (auto simp: wq_wf_def wq_unpark_def Let_def)

lemma wq_unpark_effect:
  assumes "wq_unpark t q = Some (r, q')"
  shows "workq_sem q' = workq_sem q \<and> workq_cell q' = workq_cell q \<and>
    workq_parked q' = (if pk_sem (workq_cell q t) > 0 then workq_parked q else remove1 t (workq_parked q))"
  using assms by (auto simp: wq_unpark_def Let_def split: if_splits)

lemma wq_kevent_effect: "wq_kevent_return evs n q = Some q' \<Longrightarrow>
    workq_sem q' = workq_sem q \<and> workq_cell q' = workq_cell q \<and> workq_parked q' = workq_parked q"
  by (auto simp: wq_kevent_return_def Let_def split: if_splits)

lemma wq_step_wf: "wq_step s s' \<Longrightarrow> wq_wf s \<Longrightarrow> wq_wf s'"
proof (induction rule: wq_step.induct)
  case (resume flags event s t q)
  from resume(1) show ?case
    by (rule wq_request_cases) (use resume(2) in \<open>auto simp: wq_wf_def card_insert_if\<close>)
next
  case (spawn flags event s f evs n q t)
  from spawn(1) show ?case
    by (rule wq_request_cases) (use spawn(2,3) in \<open>auto simp: wq_wf_def card_insert_if\<close>)
next
  case (kevent evs n s q)
  then show ?case using wq_kevent_effect [OF kevent(1)] by (simp add: wq_wf_def)
next
  case (park t s flags)
  then have fin: "finite (running s)" "t \<in> running s" by (auto simp: wq_wf_def)
  have "int (card (running s - {t})) = int (card (running s)) - 1"
    unfolding card.remove [OF fin] by simp
  then show ?case using park by (auto simp: wq_wf_def wq_park_def simp del: card_Diff_insert)
next
  case (unpark t s r q)
  then show ?case using wq_unpark_effect [OF unpark(2)] by (auto simp: wq_wf_def split: if_splits)
qed

lemma wq_reach_wf: "wq_step\<^sup>*\<^sup>* wq_start s \<Longrightarrow> wq_wf s"
  by (induction rule: rtranclp_induct) (auto intro: wq_start_wf wq_step_wf)

section \<open>Properties of the queue\<close>


lemma wq_run_park: "wq_step\<^sup>*\<^sup>* wq_start \<lparr>wq = wq_park 7 0 (wq wq_start\<lparr>workq_sem := 63\<rparr>), running = {}, waiting = {7}\<rparr>"
proof -
  let ?q = "wq wq_start\<lparr>workq_sem := 63\<rparr>"
  let ?s = "\<lparr>wq = ?q, running = {7}, waiting = {}\<rparr>"
  have "wq_request False 0 0 (wq wq_start) = Some (Spawn 0 [] 0, ?q)"
    by (subst wq_request_spawn) (simp_all add: wq_start_def)
  from wq_step.spawn [OF this, of 7] have "wq_step wq_start ?s" by (simp add: wq_start_def)
  moreover have "wq_step ?s \<lparr>wq = wq_park 7 0 ?q, running = {}, waiting = {7}\<rparr>"
    using wq_step.park [of 7 ?s 0] by simp
  ultimately show ?thesis by (blast intro: converse_rtranclp_into_rtranclp)
qed


text \<open>
  With a wait for a permit that is interrupted the limit does not hold: the 65th thread is created, and
  the thread that then returns leaves the semaphore at 1 although 64 others run.
\<close>

lemma wq_limit_missed:
  "wq_requests (replicate 64 False @ [True]) f 0 (wq wq_start) =
     (replicate 65 (Spawn f [] 0), True, wq wq_start\<lparr>workq_sem := - 1\<rparr>) \<and>
   workq_sem (wq_park 1 f (wq wq_start\<lparr>workq_sem := - 1\<rparr>)) = 1"
  by (simp add: numeral_eq_Suc wq_request_def wq_start_def wq_park_def Let_def)

text \<open>
  C23: A request for \<open>n\<close> threads, when \<open>n\<close> permits are left, resumes the parked threads from the one parked
  last on and creates the rest, returns 0, takes \<open>n\<close> permits and the resumed threads out of the queue; and
  each resumed thread comes back with the flags of the priority of the request, the mark of a thread
  that is used again, and no events.
\<close>

theorem workq_request_threads:
  assumes "wq_wf s" "q = wq s" "0 \<le> n" "n \<le> workq_sem q" "F = extract_wq_flags H prio" "k = nat n"
  shows "\<exists>q'. sys_workq_kernreturn H me my_prio intr 0x20 item evs n prio q =
      Some (WqReturn 0 (map Resume (take k (workq_parked q)) @ replicate (k - length (workq_parked q)) (Spawn F [] 0)), q') \<and>
    workq_sem q' = workq_sem q - n \<and> workq_parked q' = drop k (workq_parked q) \<and>
    (\<forall>t\<in>set (take k (workq_parked q)). wq_unpark t q' = Some ((F OR WQ_FLAG_THREAD_REUSE, [], 0), q'))"
proof -
  have "distinct (workq_parked q)" "\<forall>t\<in>set (workq_parked q). pk_sem (workq_cell q t) = 0"
    using assms(1,2) by (auto simp: wq_wf_def)
  then obtain q' where q': "wq_requests (map intr [0..<k]) F 0 q =
      (map Resume (take k (workq_parked q)) @ replicate (k - length (workq_parked q)) (Spawn F [] 0), True, q')"
    "workq_sem q' = workq_sem q - int k" "workq_parked q' = drop k (workq_parked q)"
    "workq_cell q' = (\<lambda>t. if t \<in> set (take k (workq_parked q))
      then (workq_cell q t)\<lparr>pk_flags := F, pk_event := 0, pk_sem := 1\<rparr> else workq_cell q t)"
    using wq_requests_serve [of q "map intr [0..<k]" F] assms by auto
  then show ?thesis
    using assms by (auto simp: sys_workq_kernreturn_def Let_def wq_unpark_def)
qed

theorem workq_request_threads_witness:
  "(let H = \<lparr>thread_qos = (\<lambda>p. drop_bit 8 p AND 0x3f), overcommit_flag = 0x80000000\<rparr>; q = wq_park 7 0 (wq wq_start\<lparr>workq_sem := 63\<rparr>) in
    \<exists>q'. sys_workq_kernreturn H 1 0 (\<lambda>_. False) 0x20 0 [] 2 0x800008ff q =
        Some (WqReturn 0 [Resume 7, Spawn 0x54008 [] 0], q') \<and> workq_sem q' = 62 \<and> workq_parked q' = [] \<and>
      wq_unpark 7 q' = Some ((0x74008, [], 0), q'))"
proof -
  let ?H = "\<lparr>thread_qos = (\<lambda>p. drop_bit 8 p AND 0x3f), overcommit_flag = 0x80000000\<rparr> :: qos_header"
  let ?s = "\<lparr>wq = wq_park 7 0 (wq wq_start\<lparr>workq_sem := 63\<rparr>), running = {}, waiting = {7}\<rparr>"
  have flags: "extract_wq_flags ?H 0x800008ff = 0x54008" by (simp add: extract_wq_flags_def)
  have q: "workq_parked (wq ?s) = [7]" "workq_sem (wq ?s) = 64" by (simp_all add: wq_park_def wq_start_def)
  show ?thesis
    using workq_request_threads [OF wq_reach_wf [OF wq_run_park] refl _ _ refl refl,
        where n = 2 and H = ?H and prio = "0x800008ff" and me = 1 and my_prio = 0 and intr = "\<lambda>_. False" and item = 0 and evs = "[]"] q
    by (simp add: flags numeral_2_eq_2)
qed

text \<open>
  A thread that is requested for events gets those of the request, and the events it returns reach the
  request and raise its semaphore.
\<close>

lemma workq_kevent_roundtrip:
  assumes "item \<noteq> 0" "0 < workq_sem q" "workq_parked q = t # ts" "pk_sem (workq_cell q t) = 0"
    and "workq_kevents q item = \<lparr>ke_events = es, ke_nevents = k, ke_sem = 0\<rparr>" "length vs = length es"
  shows "\<exists>q' q''. sys_workq_kernreturn H me my_prio intr 0x100020 item [] a prio q = Some (WqReturn 0 [Resume t], q') \<and>
    wq_unpark t q' = Some ((extract_wq_flags H prio OR WQ_FLAG_THREAD_KEVENT OR WQ_FLAG_THREAD_REUSE, es, k), q'\<lparr>wq_event_pending := item\<rparr>) \<and>
    sys_workq_kernreturn H t p' intr 0x40 0 vs (int (length vs)) 0 (q'\<lparr>wq_event_pending := item\<rparr>) = Some (WqParked, q'') \<and>
    workq_kevents q'' item = \<lparr>ke_events = vs, ke_nevents = int (length vs), ke_sem = 1\<rparr> \<and> wq_event_pending q'' = 0"
  using assms by (simp add: sys_workq_kernreturn_def Let_def wq_request_resume wq_unpark_def wq_kevent_return_def wq_park_def or.assoc)

end
