(* ===== verification/XMalloc.thy ===== *)
theory XMalloc
  imports Mman
begin

text \<open>
  The allocator of the tracer: \<^verbatim>\<open>xtrace/malloc.c\<close>, on top of \<^verbatim>\<open>sys_mmap\<close> and \<^verbatim>\<open>sys_munmap\<close>.

  A block is one mapping; it is a sequence of fragments, each a header of 40 bytes followed by its
  memory. The headers are a map from addresses to their word of flags and size; the two kinds of linked
  lists are lists of addresses. Sizes are 64-bit words and wrap. An access to a header that is not
  there, or a new header outside the mapping of its block, is \<open>None\<close>. Every operation runs with the lock of
  the free list held, so operations are single steps.
\<close>

section \<open>Fragments\<close>

abbreviation (input) BLOCK_SIZE_MULTIPLE :: u64 where "BLOCK_SIZE_MULTIPLE \<equiv> 4096"
definition FRAG_SIZE :: nat where "FRAG_SIZE = 40"
definition BLOCK_SIZE :: nat where "BLOCK_SIZE = 56"

definition FLAG_IN_USE :: u64 where "FLAG_IN_USE = push_bit 63 1"
definition FLAG_IS_MMAP_BASE :: u64 where "FLAG_IS_MMAP_BASE = push_bit 62 1"
definition SIZE_MASK :: u64 where "SIZE_MASK = mask 62"

definition in_use :: "u64 \<Rightarrow> bool" where
  "in_use f \<longleftrightarrow> f AND FLAG_IN_USE \<noteq> 0"

definition set_in_use :: "bool \<Rightarrow> u64 \<Rightarrow> u64" where
  "set_in_use b f = (if b then f OR FLAG_IN_USE else f AND NOT FLAG_IN_USE)"

definition is_mmap_base :: "u64 \<Rightarrow> bool" where
  "is_mmap_base f \<longleftrightarrow> f AND FLAG_IS_MMAP_BASE \<noteq> 0"

definition set_is_mmap_base :: "bool \<Rightarrow> u64 \<Rightarrow> u64" where
  "set_is_mmap_base b f = (if b then f OR FLAG_IS_MMAP_BASE else f AND NOT FLAG_IS_MMAP_BASE)"

definition frag_size :: "u64 \<Rightarrow> u64" where
  "frag_size f = f AND SIZE_MASK"

definition set_frag_size :: "u64 \<Rightarrow> u64 \<Rightarrow> u64" where
  "set_frag_size n f = f AND NOT SIZE_MASK OR n AND SIZE_MASK"

definition frag_init :: "u64 \<Rightarrow> u64" where
  "frag_init n = n AND SIZE_MASK"

lemmas flag_defs = FLAG_IN_USE_def FLAG_IS_MMAP_BASE_def SIZE_MASK_def
lemmas frag_defs = in_use_def set_in_use_def is_mmap_base_def set_is_mmap_base_def frag_size_def set_frag_size_def frag_init_def

section \<open>Lists of fragments\<close>

fun list_next :: "nat \<Rightarrow> nat list \<Rightarrow> nat option" where
  "list_next a (x # y # zs) = (if x = a then Some y else list_next a (y # zs))"
| "list_next a _ = None"

fun list_prev :: "nat \<Rightarrow> nat list \<Rightarrow> nat option" where
  "list_prev a (x # y # zs) = (if y = a then Some x else list_prev a (y # zs))"
| "list_prev a _ = None"

fun insert_after :: "nat \<Rightarrow> nat \<Rightarrow> nat list \<Rightarrow> nat list" where
  "insert_after a n [] = []"
| "insert_after a n (x # xs) = (if x = a then x # n # xs else x # insert_after a n xs)"

record mblock =
  mb_base :: nat
  mb_size :: u64
  mb_frags :: "nat list"

record xheap =
  hdr :: "nat \<rightharpoonup> u64"
  blks :: "mblock list"
  free_list :: "nat list"
  bytes :: "nat \<Rightarrow> u8"

definition block_of :: "xheap \<Rightarrow> nat \<Rightarrow> mblock option" where
  "block_of h a = find (\<lambda>b. a \<in> set (mb_frags b)) (blks h)"

definition on_block :: "nat \<Rightarrow> (nat list \<Rightarrow> nat list) \<Rightarrow> mblock list \<Rightarrow> mblock list" where
  "on_block a g bs = map (\<lambda>b. if a \<in> set (mb_frags b) then b\<lparr>mb_frags := g (mb_frags b)\<rparr> else b) bs"

definition mb_end :: "mblock \<Rightarrow> nat" where
  "mb_end b = mb_base b + BLOCK_SIZE + unat (mb_size b)"

section \<open>Operations\<close>

definition round_up :: "u64 \<Rightarrow> u64 \<Rightarrow> u64" where
  "round_up sz increment = (if sz AND (increment - 1) = 0 then sz else (sz OR (increment - 1)) + 1)"

definition shrink_fragment :: "nat \<Rightarrow> u64 \<Rightarrow> xheap \<Rightarrow> (bool \<times> xheap) option" where
  "shrink_fragment a new_size h = do {
     f \<leftarrow> hdr h a;
     b \<leftarrow> block_of h a;
     remaining_size \<leftarrow> Some (frag_size f - new_size);
     if of_nat FRAG_SIZE < remaining_size then do {
       new_fragment \<leftarrow> Some (a + FRAG_SIZE + unat new_size);
       if mb_end b < new_fragment + FRAG_SIZE then None
       else Some (True, h\<lparr>
         hdr := (hdr h)(a \<mapsto> set_frag_size new_size f, new_fragment \<mapsto> frag_init (remaining_size - of_nat FRAG_SIZE)),
         blks := on_block a (insert_after a new_fragment) (blks h),
         free_list := new_fragment # free_list h\<rparr>) }
     else Some (False, h) }"

text \<open>The search for the smallest free fragment that is larger than the required size.\<close>

fun viable :: "(nat \<rightharpoonup> u64) \<Rightarrow> u64 \<Rightarrow> nat list \<Rightarrow> (nat \<times> u64) option \<Rightarrow> (nat \<times> u64) option option" where
  "viable H required_size [] best = Some best"
| "viable H required_size (a # as) best = do {
     f \<leftarrow> H a;
     viable H required_size as
       (if required_size < frag_size f \<and> (case best of None \<Rightarrow> True | Some (_, sz) \<Rightarrow> frag_size f < sz)
        then Some (a, frag_size f) else best) }"

definition mmap_for_xtrace :: "('w, 'z) mmcalls_scheme \<Rightarrow> u64 \<Rightarrow> 'w \<Rightarrow> u64 \<times> 'w" where
  "mmap_for_xtrace K len w = sys_mmap K 0 len 3 0x1002 (- 1) 0 w"

definition new_block :: "nat \<Rightarrow> u64 \<Rightarrow> xheap \<Rightarrow> xheap" where
  "new_block base sz h = h\<lparr>
     hdr := (hdr h)(base + 16 \<mapsto> set_is_mmap_base True (frag_init sz)),
     blks := \<lparr>mb_base = base, mb_size = sz, mb_frags = [base + 16]\<rparr> # blks h,
     free_list := (base + 16) # free_list h\<rparr>"

definition take_fragment :: "nat \<Rightarrow> u64 \<Rightarrow> xheap \<Rightarrow> xheap option" where
  "take_fragment a required_size h = do {
     (_, h) \<leftarrow> shrink_fragment a required_size h;
     f \<leftarrow> hdr h a;
     Some (h\<lparr>hdr := (hdr h)(a \<mapsto> set_in_use True f), free_list := remove1 a (free_list h)\<rparr>) }"

definition allocate_fragment ::
    "('w, 'z) mmcalls_scheme \<Rightarrow> u64 \<Rightarrow> xheap \<Rightarrow> 'w \<Rightarrow> (nat option \<times> xheap \<times> 'w) option" where
  "allocate_fragment K required_size h w = do {
     v \<leftarrow> viable (hdr h) required_size (free_list h) None;
     case v of
       Some (a, _) \<Rightarrow> do { h \<leftarrow> take_fragment a required_size h; Some (Some a, h, w) }
     | None \<Rightarrow>
         let allocation_size = round_up required_size BLOCK_SIZE_MULTIPLE;
             (block, w) = mmap_for_xtrace K allocation_size w in
         if block > - 4096 then Some (None, h, w)
         else do {
           h \<leftarrow> Some (new_block (unat block) (allocation_size - of_nat BLOCK_SIZE) h);
           h \<leftarrow> take_fragment (unat block + 16) required_size h;
           Some (Some (unat block + 16), h, w) } }"

text \<open>One fragment takes in the one behind it.\<close>

definition absorb :: "nat \<Rightarrow> nat \<Rightarrow> xheap \<Rightarrow> xheap option" where
  "absorb a dying h = do {
     f \<leftarrow> hdr h a;
     d \<leftarrow> hdr h dying;
     Some (h\<lparr>
       hdr := (hdr h)(dying := None, a \<mapsto> set_frag_size (frag_size f + of_nat FRAG_SIZE + frag_size d) f),
       blks := on_block dying (remove1 dying) (blks h),
       free_list := remove1 dying (free_list h)\<rparr>) }"

definition next_frag :: "xheap \<Rightarrow> nat \<Rightarrow> nat option" where
  "next_frag h a = (case block_of h a of None \<Rightarrow> None | Some b \<Rightarrow> list_next a (mb_frags b))"

definition prev_frag :: "xheap \<Rightarrow> nat \<Rightarrow> nat option" where
  "prev_frag h a = (case block_of h a of None \<Rightarrow> None | Some b \<Rightarrow> list_prev a (mb_frags b))"

definition is_free :: "xheap \<Rightarrow> nat option \<Rightarrow> bool option" where
  "is_free h n = (case n of None \<Rightarrow> Some False | Some a \<Rightarrow> map_option (\<lambda>f. \<not> in_use f) (hdr h a))"

text \<open>One round of the loop that joins a free fragment with its neighbours: \<^verbatim>\<open>defragged\<close>, and the fragment.\<close>

definition defrag_round :: "nat \<Rightarrow> xheap \<Rightarrow> (bool \<times> nat \<times> xheap) option" where
  "defrag_round a h = do {
     f \<leftarrow> hdr h a;
     p \<leftarrow> Some (if is_mmap_base f then None else prev_frag h a);
     n \<leftarrow> Some (next_frag h a);
     pf \<leftarrow> is_free h p;
     (a, h) \<leftarrow> (case p of Some p \<Rightarrow> if pf then do { h \<leftarrow> absorb p a h; Some (p, h) } else Some (a, h) | None \<Rightarrow> Some (a, h));
     nf \<leftarrow> is_free h n;
     h \<leftarrow> (case n of Some n \<Rightarrow> if nf then absorb a n h else Some h | None \<Rightarrow> Some h);
     Some (pf \<or> nf, a, h) }"

partial_function (option) defrag :: "nat \<Rightarrow> xheap \<Rightarrow> (nat \<times> xheap) option" where
  "defrag a h = do {
     (defragged, a, h) \<leftarrow> defrag_round a h;
     if defragged then defrag a h else Some (a, h) }"

definition release_fragment :: "('w, 'z) mmcalls_scheme \<Rightarrow> nat \<Rightarrow> xheap \<Rightarrow> 'w \<Rightarrow> (xheap \<times> 'w) option" where
  "release_fragment K a h w = do {
     f \<leftarrow> hdr h a;
     (a, h) \<leftarrow> defrag a (h\<lparr>hdr := (hdr h)(a \<mapsto> set_in_use False f), free_list := a # free_list h\<rparr>);
     f \<leftarrow> hdr h a;
     if is_mmap_base f then do {
       b \<leftarrow> block_of h a;
       if in_use f \<or> mb_size b \<noteq> frag_size f then Some (h, w)
       else Some (h\<lparr>hdr := (hdr h)(a := None), blks := filter (\<lambda>b. a \<notin> set (mb_frags b)) (blks h),
                    free_list := remove1 a (free_list h)\<rparr>,
                  snd (sys_munmap K (of_nat (mb_base b)) (mb_size b + of_nat BLOCK_SIZE) w)) }
     else Some (h, w) }"

text \<open>
  Growing in place. The first loop adds up the free fragments behind until they suffice; its result
  is the fragment at which it stops, if any, and the size. The second takes them in one by one.
\<close>

fun expand_scan :: "(nat \<rightharpoonup> u64) \<Rightarrow> u64 \<Rightarrow> u64 \<Rightarrow> nat list \<Rightarrow> (nat option \<times> u64) option" where
  "expand_scan H new_size available_size [] = Some (None, available_size)"
| "expand_scan H new_size available_size (e # es) = do {
     f \<leftarrow> H e;
     if in_use f then Some (Some e, available_size)
     else let available_size = available_size + frag_size f + of_nat FRAG_SIZE in
       if new_size \<le> available_size then Some (Some e, available_size)
       else expand_scan H new_size available_size es }"

fun absorb_until :: "nat \<Rightarrow> nat \<Rightarrow> nat list \<Rightarrow> xheap \<Rightarrow> xheap option" where
  "absorb_until a end_frag [] h = Some h"
| "absorb_until a end_frag (d # ds) h = do {
     h \<leftarrow> absorb a d h;
     if d = end_frag then Some h else absorb_until a end_frag ds h }"

definition behind :: "nat \<Rightarrow> nat list \<Rightarrow> nat list" where
  "behind a xs = drop 1 (dropWhile (\<lambda>x. x \<noteq> a) xs)"

definition expand_fragment :: "nat \<Rightarrow> u64 \<Rightarrow> xheap \<Rightarrow> (bool \<times> xheap) option" where
  "expand_fragment a new_size h = do {
     f \<leftarrow> hdr h a;
     b \<leftarrow> block_of h a;
     (end_frag, available_size) \<leftarrow> expand_scan (hdr h) new_size (frag_size f) (behind a (mb_frags b));
     case end_frag of
       None \<Rightarrow> Some (False, h)
     | Some e \<Rightarrow>
         if available_size < new_size then Some (False, h)
         else do {
           h \<leftarrow> absorb_until a e (behind a (mb_frags b)) h;
           (_, h) \<leftarrow> shrink_fragment a new_size h;
           Some (True, h) } }"

section \<open>The interface\<close>

definition xtrace_malloc :: "('w, 'z) mmcalls_scheme \<Rightarrow> u64 \<Rightarrow> xheap \<Rightarrow> 'w \<Rightarrow> (nat \<times> xheap \<times> 'w) option" where
  "xtrace_malloc K sz h w =
     (if sz = 0 then Some (0, h, w)
      else do {
        (a, h, w) \<leftarrow> allocate_fragment K sz h w;
        Some (case a of None \<Rightarrow> 0 | Some a \<Rightarrow> a + FRAG_SIZE, h, w) })"

definition xtrace_free :: "('w, 'z) mmcalls_scheme \<Rightarrow> nat \<Rightarrow> xheap \<Rightarrow> 'w \<Rightarrow> (xheap \<times> 'w) option" where
  "xtrace_free K pointer h w =
     (if pointer = 0 then Some (h, w) else if pointer < FRAG_SIZE then None
      else release_fragment K (pointer - FRAG_SIZE) h w)"

definition memcpy :: "nat \<Rightarrow> nat \<Rightarrow> nat \<Rightarrow> (nat \<Rightarrow> u8) \<Rightarrow> nat \<Rightarrow> u8" where
  "memcpy dst src n m = (\<lambda>x. if dst \<le> x \<and> x < dst + n then m (src + (x - dst)) else m x)"

definition xtrace_realloc ::
    "('w, 'z) mmcalls_scheme \<Rightarrow> nat \<Rightarrow> u64 \<Rightarrow> xheap \<Rightarrow> 'w \<Rightarrow> (nat \<times> xheap \<times> 'w) option" where
  "xtrace_realloc K old_pointer new_size h w =
     (if old_pointer < FRAG_SIZE then None
      else do {
        a \<leftarrow> Some (old_pointer - FRAG_SIZE);
        f \<leftarrow> hdr h a;
        old_size \<leftarrow> Some (frag_size f);
        if new_size < old_size then do {
          (_, h) \<leftarrow> shrink_fragment a new_size h;
          Some (old_pointer, h, w) }
        else if new_size = old_size then Some (old_pointer, h, w)
        else do {
          (ok, h) \<leftarrow> expand_fragment a new_size h;
          if ok then Some (old_pointer, h, w)
          else do {
            (n, h, w) \<leftarrow> allocate_fragment K new_size h w;
            case n of
              None \<Rightarrow> Some (0, h, w)
            | Some n \<Rightarrow> do {
                (h, w) \<leftarrow> release_fragment K a (h\<lparr>bytes := memcpy (n + FRAG_SIZE) old_pointer (unat old_size) (bytes h)\<rparr>) w;
                Some (n + FRAG_SIZE, h, w) } } } })"

section \<open>Words of flags and size\<close>

lemma in_use_bit: "in_use f \<longleftrightarrow> bit f 63"
  using and_exp_eq_0_iff_not_bit [of f 63] by (simp add: in_use_def FLAG_IN_USE_def push_bit_eq_mult)

lemma is_mmap_base_bit: "is_mmap_base f \<longleftrightarrow> bit f 62"
  using and_exp_eq_0_iff_not_bit [of f 62] by (simp add: is_mmap_base_def FLAG_IS_MMAP_BASE_def push_bit_eq_mult)

lemma bit_flags: "bit FLAG_IN_USE n \<longleftrightarrow> n = 63" "bit FLAG_IS_MMAP_BASE n \<longleftrightarrow> n = 62"
  unfolding flag_defs bit_push_bit_iff by (auto simp: bit_1_iff)

lemma bit_set_in_use: "bit (set_in_use b f) n \<longleftrightarrow> (if n = 63 then b else bit f n)"
  by (auto simp: set_in_use_def bit_or_iff bit_and_iff bit_not_iff bit_flags dest: bit_imp_le_length)

lemma bit_set_base: "bit (set_is_mmap_base b f) n \<longleftrightarrow> (if n = 62 then b else bit f n)"
  by (auto simp: set_is_mmap_base_def bit_or_iff bit_and_iff bit_not_iff bit_flags dest: bit_imp_le_length)

lemma bit_set_frag_size: "bit (set_frag_size m f) n \<longleftrightarrow> (if n < 62 then bit m n else bit f n)"
  by (auto simp: set_frag_size_def SIZE_MASK_def bit_simps dest: bit_imp_le_length)

lemma bit_frag_size: "bit (frag_size f) n \<longleftrightarrow> n < 62 \<and> bit f n"
  by (auto simp: frag_size_def SIZE_MASK_def bit_simps dest: bit_imp_le_length)

lemma bit_frag_init: "bit (frag_init m) n \<longleftrightarrow> n < 62 \<and> bit m n"
  by (auto simp: frag_init_def SIZE_MASK_def bit_simps dest: bit_imp_le_length)

lemmas frag_bits = bit_set_in_use bit_set_base bit_set_frag_size bit_frag_size bit_frag_init

lemma frag_flags [simp]:
  "in_use (set_in_use b f) = b" "in_use (set_frag_size n f) = in_use f" "\<not> in_use (frag_init n)"
  "in_use (set_is_mmap_base b f) = in_use f"
  "is_mmap_base (set_in_use b f) = is_mmap_base f" "is_mmap_base (set_frag_size n f) = is_mmap_base f"
  "\<not> is_mmap_base (frag_init n)" "is_mmap_base (set_is_mmap_base b f) = b"
  by (simp_all add: in_use_bit is_mmap_base_bit frag_bits)

lemma frag_size_same [simp]:
  "frag_size (set_in_use b f) = frag_size f" "frag_size (set_is_mmap_base b f) = frag_size f"
  by (rule bit_word_eqI, auto simp: frag_bits)+

lemma small_bits: "unat (n :: u64) < 2 ^ 62 \<Longrightarrow> 62 \<le> i \<Longrightarrow> \<not> bit n i"
proof -
  assume n: "unat n < 2 ^ 62" and i: "62 \<le> i"
  have "take_bit 62 (unat n) = unat n" using n by (rule take_bit_nat_eq_self)
  then have "\<not> bit (unat n) i" using i by (metis bit_take_bit_iff not_le)
  then show ?thesis using bit_imp_le_length [of n i] by (auto simp: bit_unsigned_iff)
qed

lemma frag_size_set:
  assumes "unat n < 2 ^ 62" shows "frag_size (set_frag_size n f) = n" "frag_size (frag_init n) = n"
proof -
  have "bit n i \<Longrightarrow> i < 62" for i using small_bits [OF assms, of i] by (cases "i < 62") auto
  then show "frag_size (set_frag_size n f) = n" "frag_size (frag_init n) = n"
    by (auto intro!: bit_word_eqI simp: frag_bits)
qed

lemma frag_size_less: "unat (frag_size f) < 2 ^ 62"
proof -
  have "frag_size f = take_bit 62 f" by (rule bit_word_eqI) (auto simp: frag_bits bit_take_bit_iff)
  then show ?thesis using take_bit_nat_less_exp [of 62 "unat f"] by (simp add: unsigned_take_bit_eq)
qed

section \<open>The layout of a block\<close>

text \<open>
  The fragments of a block lie one behind the other: a chain from the first address to the end, in
  which each fragment starts where the one before ends.
\<close>

definition fsz :: "(nat \<rightharpoonup> u64) \<Rightarrow> nat \<Rightarrow> nat" where
  "fsz H a = unat (frag_size (the (H a)))"

fun chain :: "(nat \<rightharpoonup> u64) \<Rightarrow> nat \<Rightarrow> nat list \<Rightarrow> nat \<Rightarrow> bool" where
  "chain H s [] e \<longleftrightarrow> s = e"
| "chain H s (a # as) e \<longleftrightarrow> a = s \<and> H a \<noteq> None \<and> chain H (s + FRAG_SIZE + fsz H a) as e"

lemma chain_append: "chain H s (xs @ ys) e \<longleftrightarrow> (\<exists>m. chain H s xs m \<and> chain H m ys e)"
  by (induction xs arbitrary: s) auto

lemma chain_le: "chain H s as e \<Longrightarrow> s \<le> e"
  by (induction as arbitrary: s) force+

lemma chain_range: "chain H s as e \<Longrightarrow> a \<in> set as \<Longrightarrow> s \<le> a \<and> a + FRAG_SIZE + fsz H a \<le> e \<and> H a \<noteq> None"
proof (induction as arbitrary: s)
  case (Cons x as)
  show ?case
  proof (cases "a = x")
    case True
    then show ?thesis using Cons.prems chain_le [of H "s + FRAG_SIZE + fsz H x" as e] by auto
  next
    case False
    then show ?thesis using Cons.IH [of "s + FRAG_SIZE + fsz H x"] Cons.prems by auto
  qed
qed simp

lemma chain_cong:
  assumes "\<And>a. a \<in> set as \<Longrightarrow> fsz H' a = fsz H a \<and> (H' a = None \<longleftrightarrow> H a = None)"
  shows "chain H' s as e = chain H s as e"
  using assms by (induction as arbitrary: s) auto

lemma chain_distinct: "chain H s as e \<Longrightarrow> distinct as"
proof (induction as arbitrary: s)
  case (Cons x as)
  then have c: "chain H (s + FRAG_SIZE + fsz H x) as e" and x: "x = s" by auto
  have "x \<notin> set as" using chain_range [OF c] x by (fastforce simp: FRAG_SIZE_def)
  then show ?case using Cons.IH [OF c] by simp
qed simp

lemma chain_apart:
  assumes "chain H s as e" "a \<in> set as" "b \<in> set as" "a \<noteq> b"
  shows "a + FRAG_SIZE + fsz H a \<le> b \<or> b + FRAG_SIZE + fsz H b \<le> a"
  using assms
proof (induction as arbitrary: s)
  case (Cons x as)
  then have c: "chain H (s + FRAG_SIZE + fsz H x) as e" and x: "x = s" by auto
  show ?case
  proof (cases "a = x \<or> b = x")
    case True
    then show ?thesis using Cons.prems x chain_range [OF c, of a] chain_range [OF c, of b] by auto
  next
    case False
    then show ?thesis using Cons.IH [OF c] Cons.prems by auto
  qed
qed simp

section \<open>The invariant\<close>

definition blk_ok :: "(nat \<rightharpoonup> u64) \<Rightarrow> mblock \<Rightarrow> bool" where
  "blk_ok H b \<longleftrightarrow> chain H (mb_base b + 16) (mb_frags b) (mb_end b) \<and> mb_end b < 2 ^ 62 \<and>
     (\<forall>a \<in> set (mb_frags b). is_mmap_base (the (H a)) \<longleftrightarrow> a = mb_base b + 16)"

definition apart :: "mblock \<Rightarrow> mblock \<Rightarrow> bool" where
  "apart b c \<longleftrightarrow> mb_end b \<le> mb_base c \<or> mb_end c \<le> mb_base b"

definition free_frags :: "xheap \<Rightarrow> nat set" where
  "free_frags h = {a. \<exists>f. hdr h a = Some f \<and> \<not> in_use f}"

definition heap_ok :: "xheap \<Rightarrow> bool" where
  "heap_ok h \<longleftrightarrow> (\<forall>b \<in> set (blks h). blk_ok (hdr h) b) \<and> sorted_wrt apart (blks h) \<and>
     (\<forall>a. hdr h a \<noteq> None \<longrightarrow> (\<exists>b \<in> set (blks h). a \<in> set (mb_frags b))) \<and>
     distinct (free_list h) \<and> set (free_list h) = free_frags h"

text \<open>What the users of the allocator see: the fragments in use, with their sizes.\<close>

definition used :: "xheap \<Rightarrow> nat \<rightharpoonup> nat" where
  "used h a = (case hdr h a of None \<Rightarrow> None | Some f \<Rightarrow> if in_use f then Some (unat (frag_size f)) else None)"

lemma blk_range: "blk_ok H b \<Longrightarrow> a \<in> set (mb_frags b) \<Longrightarrow> mb_base b + 16 \<le> a \<and> a + FRAG_SIZE + fsz H a \<le> mb_end b \<and> H a \<noteq> None"
  unfolding blk_ok_def using chain_range by blast

lemma apart_sym: "apart b c \<Longrightarrow> apart c b"
  by (auto simp: apart_def)

lemma sorted_apart: "sorted_wrt apart bs \<Longrightarrow> b \<in> set bs \<Longrightarrow> c \<in> set bs \<Longrightarrow> b \<noteq> c \<Longrightarrow> apart b c"
  by (induction bs) (auto dest: apart_sym)

lemma frag_unique:
  assumes "heap_ok h" "b \<in> set (blks h)" "c \<in> set (blks h)" "a \<in> set (mb_frags b)" "a \<in> set (mb_frags c)"
  shows "b = c"
proof (rule ccontr)
  assume "b \<noteq> c"
  then have "apart b c" using assms(1-3) sorted_apart unfolding heap_ok_def by blast
  moreover have "blk_ok (hdr h) b" "blk_ok (hdr h) c" using assms by (auto simp: heap_ok_def)
  ultimately show False using blk_range [of "hdr h" b a] blk_range [of "hdr h" c a] assms(4,5)
    by (auto simp: apart_def FRAG_SIZE_def)
qed

lemma block_of_eq:
  assumes "heap_ok h" "b \<in> set (blks h)" "a \<in> set (mb_frags b)"
  shows "block_of h a = Some b"
proof -
  have "block_of h a \<noteq> None" using assms(2,3) by (auto simp: block_of_def find_None_iff)
  then obtain c where c: "block_of h a = Some c" by blast
  then have "c \<in> set (blks h)" "a \<in> set (mb_frags c)" by (auto simp: block_of_def find_Some_iff)
  then show ?thesis using frag_unique [OF assms(1,2)] assms(3) c by auto
qed

lemma frag_block:
  assumes "heap_ok h" "hdr h a = Some f"
  obtains B1 b B2 xs ys where "blks h = B1 @ b # B2" "mb_frags b = xs @ a # ys" "block_of h a = Some b" "blk_ok (hdr h) b"
    "a \<notin> set xs"
proof -
  obtain b where b: "b \<in> set (blks h)" "a \<in> set (mb_frags b)" using assms unfolding heap_ok_def by blast
  then obtain B1 B2 where "blks h = B1 @ b # B2" by (meson split_list)
  moreover obtain xs ys where "mb_frags b = xs @ a # ys" "a \<notin> set xs" using b(2) by (meson split_list_first)
  moreover have "blk_ok (hdr h) b" using assms(1) b(1) by (simp add: heap_ok_def)
  ultimately show ?thesis using that block_of_eq [OF assms(1) b] by blast
qed

lemma on_block_eq:
  assumes "heap_ok h" "blks h = B1 @ b # B2" "a \<in> set (mb_frags b)"
  shows "on_block a g (blks h) = B1 @ b\<lparr>mb_frags := g (mb_frags b)\<rparr> # B2"
proof -
  have "a \<notin> set (mb_frags c)" if "c \<in> set B1 \<union> set B2" for c
  proof
    assume "a \<in> set (mb_frags c)"
    then have "c = b" using frag_unique [OF assms(1), of c b a] assms(2,3) that by auto
    moreover have "apart c b \<or> apart b c" using that assms(1,2) by (auto simp: heap_ok_def sorted_wrt_append)
    moreover have "mb_base b < mb_end b" by (simp add: mb_end_def BLOCK_SIZE_def)
    ultimately show False by (auto simp: apart_def)
  qed
  then have "map (\<lambda>b. if a \<in> set (mb_frags b) then b\<lparr>mb_frags := g (mb_frags b)\<rparr> else b) bs = bs"
    if "set bs \<subseteq> set B1 \<union> set B2" for bs using that by (intro map_idI) auto
  then show ?thesis using assms(2,3) by (simp add: on_block_def)
qed

text \<open>A change inside one block keeps the invariant if the block and the free list stay right.\<close>

lemma heap_ok_local:
  assumes "heap_ok h" "blks h = B1 @ b # B2" "blks h' = B1 @ b\<lparr>mb_frags := fs\<rparr> # B2"
    "blk_ok (hdr h') (b\<lparr>mb_frags := fs\<rparr>)" "\<And>x. x < mb_base b \<or> mb_end b \<le> x \<Longrightarrow> hdr h' x = hdr h x"
    "\<And>x. mb_base b \<le> x \<Longrightarrow> x < mb_end b \<Longrightarrow> hdr h' x \<noteq> None \<Longrightarrow> x \<in> set fs"
    "distinct (free_list h')" "set (free_list h') = free_frags h'"
  shows "heap_ok h'"
proof -
  have out: "hdr h' x = hdr h x" if "c \<in> set B1 \<union> set B2" "x \<in> set (mb_frags c)" for c x
  proof -
    have "blk_ok (hdr h) c" using assms(1,2) that by (auto simp: heap_ok_def)
    moreover have "apart c b \<or> apart b c" using that assms(1,2) by (auto simp: heap_ok_def sorted_wrt_append)
    ultimately show ?thesis using blk_range [of "hdr h" c x] that(2) assms(5) [of x] by (auto simp: apart_def FRAG_SIZE_def)
  qed
  have "blk_ok (hdr h') c" if "c \<in> set B1 \<union> set B2" for c
  proof -
    have "blk_ok (hdr h) c" using assms(1,2) that by (auto simp: heap_ok_def)
    then show ?thesis using chain_cong [of "mb_frags c" "hdr h'" "hdr h" "mb_base c + 16" "mb_end c"] out [OF that]
      by (auto simp: blk_ok_def fsz_def)
  qed
  moreover have "sorted_wrt apart (blks h')"
    using assms(1) unfolding heap_ok_def assms(2,3) by (auto simp: sorted_wrt_append apart_def mb_end_def)
  moreover have "\<exists>c \<in> set (blks h'). x \<in> set (mb_frags c)" if "hdr h' x \<noteq> None" for x
  proof (cases "mb_base b \<le> x \<and> x < mb_end b")
    case True
    then show ?thesis using assms(3,6) that by auto
  next
    case False
    then have "hdr h' x = hdr h x" by (intro assms(5)) auto
    then have "hdr h x \<noteq> None" using that by simp
    then obtain c where c: "c \<in> set (blks h)" "x \<in> set (mb_frags c)" using assms(1) by (auto simp: heap_ok_def)
    moreover have "c \<noteq> b"
      using blk_range [of "hdr h" b x] c False assms(1,2) by (auto simp: heap_ok_def FRAG_SIZE_def)
    ultimately show ?thesis using assms(2,3) by auto
  qed
  ultimately show ?thesis using assms(3,4,7,8) by (auto simp: heap_ok_def)
qed

lemma inside_block:
  assumes "heap_ok h" "b \<in> set (blks h)" "mb_base b \<le> x" "x < mb_end b" "hdr h x \<noteq> None"
  shows "x \<in> set (mb_frags b)"
proof -
  obtain c where c: "c \<in> set (blks h)" "x \<in> set (mb_frags c)" using assms(1,5) by (auto simp: heap_ok_def)
  have "c = b"
  proof (rule ccontr)
    assume "c \<noteq> b"
    then have "apart c b" using assms(1,2) c(1) sorted_apart unfolding heap_ok_def by blast
    then show False using blk_range [of "hdr h" c x] c assms by (auto simp: heap_ok_def apart_def FRAG_SIZE_def)
  qed
  then show ?thesis using c by simp
qed

lemma chain_other: "chain H s as e \<Longrightarrow> (\<And>x. x \<in> set as \<Longrightarrow> H' x = H x) \<Longrightarrow> chain H' s as e"
  by (simp add: chain_cong [of as H' H] fsz_def)

lemma chain_split:
  "chain H s (xs @ a # ys) e \<longleftrightarrow> chain H s xs a \<and> H a \<noteq> None \<and> chain H (a + FRAG_SIZE + fsz H a) ys e"
  by (auto simp: chain_append)

text \<open>A change of the flag of use.\<close>

lemma heap_ok_flag:
  assumes "heap_ok h" "hdr h a = Some f" "frag_size f' = frag_size f" "is_mmap_base f' = is_mmap_base f"
    "distinct L" "set L = free_frags (h\<lparr>hdr := (hdr h)(a \<mapsto> f')\<rparr>)"
  shows "heap_ok (h\<lparr>hdr := (hdr h)(a \<mapsto> f'), free_list := L\<rparr>)"
proof -
  obtain B1 b B2 xs ys where d: "blks h = B1 @ b # B2" "mb_frags b = xs @ a # ys" "blk_ok (hdr h) b"
    using frag_block [OF assms(1,2)] by metis
  let ?H = "(hdr h)(a \<mapsto> f')"
  have same: "fsz ?H x = fsz (hdr h) x \<and> (?H x = None \<longleftrightarrow> hdr h x = None)" for x
    using assms(2,3) by (simp add: fsz_def)
  have "blk_ok ?H b" using d(3) chain_cong [of "mb_frags b" ?H "hdr h"] same assms(2,4) by (auto simp: blk_ok_def)
  moreover have "a \<in> set (mb_frags b)" using d(2) by simp
  then have r: "mb_base b + 16 \<le> a \<and> a + FRAG_SIZE + fsz (hdr h) a \<le> mb_end b" using blk_range [OF d(3)] by blast
  moreover have "x \<in> set (mb_frags b)" if "mb_base b \<le> x" "x < mb_end b" "hdr h x \<noteq> None" for x
    using inside_block [OF assms(1) _ that] d(1) by auto
  ultimately show ?thesis using d(1) assms(2,5,6)
    by (intro heap_ok_local [OF assms(1) d(1), where fs = "mb_frags b"])
      (auto simp: FRAG_SIZE_def free_frags_def split: if_splits)
qed

lemma shrink_ok:
  assumes ok: "heap_ok h" and f: "hdr h a = Some f" and n: "n \<le> frag_size f"
  shows "\<exists>r h' f'. shrink_fragment a n h = Some (r, h') \<and> heap_ok h' \<and> hdr h' a = Some f' \<and> in_use f' = in_use f \<and>
    n \<le> frag_size f' \<and> frag_size f' \<le> frag_size f \<and> bytes h' = bytes h \<and> (\<forall>x. x \<noteq> a \<longrightarrow> used h' x = used h x)"
proof -
  obtain B1 b B2 xs ys where d: "blks h = B1 @ b # B2" "mb_frags b = xs @ a # ys" "block_of h a = Some b"
      "blk_ok (hdr h) b" "a \<notin> set xs"
    using frag_block [OF ok f] by metis
  let ?R = "frag_size f - n" and ?y = "a + FRAG_SIZE + unat n"
  have R: "unat ?R = unat (frag_size f) - unat n" using n by (simp add: unat_sub word_le_nat_alt)
  have nn: "unat n \<le> unat (frag_size f)" using n by (simp add: word_le_nat_alt)
  show ?thesis
  proof (cases "of_nat FRAG_SIZE < ?R")
    case False
    then have "shrink_fragment a n h = Some (False, h)" using f d(3) by (simp add: shrink_fragment_def)
    then show ?thesis using ok f n by auto
  next
    case True
    then have R40: "40 < unat ?R" by (simp add: FRAG_SIZE_def word_less_nat_alt)
    have small: "unat n < 2 ^ 62" "unat (?R - 40) < 2 ^ 62" "unat (?R - 40) = unat ?R - 40"
      using frag_size_less [of f] R R40 nn by (simp_all add: unat_sub word_le_nat_alt)
    have r: "mb_base b + 16 \<le> a" "a + FRAG_SIZE + unat (frag_size f) \<le> mb_end b"
      using blk_range [OF d(4), of a] d(2) f by (auto simp: fsz_def)
    have fit: "?y + FRAG_SIZE \<le> mb_end b" using r(2) R R40 nn by (simp add: FRAG_SIZE_def)
    define H where "H = (hdr h)(a \<mapsto> set_frag_size n f, ?y \<mapsto> frag_init (?R - 40))"
    define h' where "h' = h\<lparr>hdr := H, blks := on_block a (insert_after a ?y) (blks h), free_list := ?y # free_list h\<rparr>"
    have s: "shrink_fragment a n h = Some (True, h')"
      using True f d(3) fit by (simp add: shrink_fragment_def h'_def H_def FRAG_SIZE_def)
    have ya: "?y \<noteq> a" by (simp add: FRAG_SIZE_def)
    have c: "chain (hdr h) (mb_base b + 16) xs a" "chain (hdr h) (a + FRAG_SIZE + fsz (hdr h) a) ys (mb_end b)"
      using d(2,4) by (auto simp: blk_ok_def chain_split)
    have yx: "?y \<notin> set xs" "?y \<notin> set ys" "a \<notin> set ys"
      using chain_range [OF c(1), of ?y] chain_range [OF c(2), of ?y] chain_range [OF c(2), of a] f R R40
      by (auto simp: FRAG_SIZE_def fsz_def)
    have y0: "hdr h ?y = None"
    proof (rule ccontr)
      assume "hdr h ?y \<noteq> None"
      then have "?y \<in> set (mb_frags b)" using inside_block [OF ok, of b ?y] d(1) fit r by (auto simp: FRAG_SIZE_def)
      then show False using yx(1,2) ya d(2) by simp
    qed
    have at: "fsz H a = unat n" "fsz H ?y = unat ?R - 40" "H a = Some (set_frag_size n f)" "H ?y = Some (frag_init (?R - 40))"
      using small by (simp_all add: H_def fsz_def frag_size_set FRAG_SIZE_def)
    have "chain H (mb_base b + 16) xs a"
      by (rule chain_other [OF c(1)]) (use d(5) yx in \<open>auto simp: H_def\<close>)
    moreover have "chain H (a + FRAG_SIZE + fsz (hdr h) a) ys (mb_end b)"
      by (rule chain_other [OF c(2)]) (use yx in \<open>auto simp: H_def\<close>)
    moreover have "a + FRAG_SIZE + fsz (hdr h) a = ?y + FRAG_SIZE + fsz H ?y"
      using at(2) f R R40 nn by (simp add: FRAG_SIZE_def fsz_def)
    ultimately have "chain H (mb_base b + 16) xs a" "chain H (?y + FRAG_SIZE + fsz H ?y) ys (mb_end b)" by (simp_all only:)
    then have "chain H (mb_base b + 16) (xs @ a # ?y # ys) (mb_end b)"
      using at unfolding chain_split chain.simps by simp
    moreover have "is_mmap_base (the (H x)) \<longleftrightarrow> x = mb_base b + 16" if "x \<in> set (xs @ a # ?y # ys)" for x
      using that d(2,4) r(1) f by (auto simp: H_def blk_ok_def FRAG_SIZE_def)
    ultimately have "blk_ok H (b\<lparr>mb_frags := xs @ a # ?y # ys\<rparr>)" using d(4) by (simp add: blk_ok_def mb_end_def)
    moreover have "insert_after a ?y (xs @ a # ys) = xs @ a # ?y # ys" using d(5) by (induction xs) auto
    then have "blks h' = B1 @ b\<lparr>mb_frags := xs @ a # ?y # ys\<rparr> # B2"
      using on_block_eq [OF ok d(1), of a] d(2) by (simp add: h'_def)
    moreover have "free_frags h' = insert ?y (free_frags h)" using f ya at y0 by (auto simp: free_frags_def h'_def H_def split: if_splits)
    moreover have "?y \<notin> free_frags h" using y0 by (simp add: free_frags_def)
    moreover have "x \<in> set (xs @ a # ?y # ys)" if "mb_base b \<le> x" "x < mb_end b" "hdr h' x \<noteq> None" for x
      using inside_block [OF ok, of b x] that d(1,2) by (auto simp: h'_def H_def split: if_splits)
    moreover have "hdr h' x = hdr h x" if "x < mb_base b \<or> mb_end b \<le> x" for x
      using that r fit by (auto simp: h'_def H_def FRAG_SIZE_def)
    ultimately have "heap_ok h'" using ok
      by (intro heap_ok_local [OF ok d(1), where fs = "xs @ a # ?y # ys"]) (auto simp: h'_def heap_ok_def)
    moreover have "used h' x = used h x" if "x \<noteq> a" for x
      using that y0 by (auto simp: used_def h'_def H_def)
    ultimately show ?thesis using s at(3) n frag_size_set(1) [OF small(1), of f] by (auto simp: h'_def)
  qed
qed

section \<open>Allocation\<close>

text \<open>The search is a best fit: nothing that is large enough is smaller.\<close>

lemma viable_best:
  assumes "\<And>x. x \<in> set L \<Longrightarrow> H x \<noteq> None"
  shows "\<exists>v. viable H r L best = Some v \<and>
    (case v of
       None \<Rightarrow> best = None \<and> (\<forall>x \<in> set L. \<not> r < frag_size (the (H x)))
     | Some (a, sz) \<Rightarrow> (best = Some (a, sz) \<or> a \<in> set L \<and> sz = frag_size (the (H a)) \<and> r < sz) \<and>
         (\<forall>x \<in> set L. r < frag_size (the (H x)) \<longrightarrow> sz \<le> frag_size (the (H x))) \<and>
         (\<forall>b t. best = Some (b, t) \<longrightarrow> sz \<le> t))"
  using assms
proof (induction L arbitrary: best)
  case (Cons x L)
  obtain f where f: "H x = Some f" using Cons.prems [of x] by auto
  let ?best = "if r < frag_size f \<and> (case best of None \<Rightarrow> True | Some (_, sz) \<Rightarrow> frag_size f < sz) then Some (x, frag_size f) else best"
  obtain v where v: "viable H r L ?best = Some v"
    "case v of
       None \<Rightarrow> ?best = None \<and> (\<forall>x \<in> set L. \<not> r < frag_size (the (H x)))
     | Some (a, sz) \<Rightarrow> (?best = Some (a, sz) \<or> a \<in> set L \<and> sz = frag_size (the (H a)) \<and> r < sz) \<and>
         (\<forall>x \<in> set L. r < frag_size (the (H x)) \<longrightarrow> sz \<le> frag_size (the (H x))) \<and>
         (\<forall>b t. ?best = Some (b, t) \<longrightarrow> sz \<le> t)"
    using Cons.IH [of ?best] Cons.prems by auto
  have "viable H r (x # L) best = Some v" using f v(1) by simp
  then show ?case using v(2) f
    by (cases v) (auto split: if_splits option.splits prod.splits)
qed (auto split: option.splits)

lemma take_ok:
  assumes ok: "heap_ok h" and f: "hdr h a = Some f" "\<not> in_use f" and r: "r \<le> frag_size f"
  shows "\<exists>h' sz. take_fragment a r h = Some h' \<and> heap_ok h' \<and> bytes h' = bytes h \<and> unat r \<le> sz \<and> used h' = (used h)(a \<mapsto> sz)"
proof -
  obtain q h1 f1 where s: "shrink_fragment a r h = Some (q, h1)" "heap_ok h1" "hdr h1 a = Some f1" "in_use f1 = in_use f"
      "r \<le> frag_size f1" "bytes h1 = bytes h" "\<forall>x. x \<noteq> a \<longrightarrow> used h1 x = used h x"
    using shrink_ok [OF ok f(1) r] by metis
  let ?h = "h1\<lparr>hdr := (hdr h1)(a \<mapsto> set_in_use True f1), free_list := remove1 a (free_list h1)\<rparr>"
  have "take_fragment a r h = Some ?h" using s(1,3) by (simp add: take_fragment_def)
  moreover have "heap_ok ?h"
    using s(2,3) by (intro heap_ok_flag) (auto simp: heap_ok_def free_frags_def)
  moreover have "used ?h = (used h)(a \<mapsto> unat (frag_size f1))"
  proof
    fix x
    show "used ?h x = ((used h)(a \<mapsto> unat (frag_size f1))) x"
      using s(7) by (cases "x = a") (auto simp: used_def)
  qed
  ultimately show ?thesis using s(5,6) by (auto simp: word_le_nat_alt)
qed

lemma new_block_ok:
  assumes ok: "heap_ok h" and sm: "base + BLOCK_SIZE + unat sz < 2 ^ 62"
    and ap: "\<And>b. b \<in> set (blks h) \<Longrightarrow> base + BLOCK_SIZE + unat sz \<le> mb_base b \<or> mb_end b \<le> base"
  shows "heap_ok (new_block base sz h)" "used (new_block base sz h) = used h" "hdr h (base + 16) = None"
proof -
  let ?b = "\<lparr>mb_base = base, mb_size = sz, mb_frags = [base + 16]\<rparr>" and ?h = "new_block base sz h"
  have e: "mb_end ?b = base + BLOCK_SIZE + unat sz" by (simp add: mb_end_def)
  have out: "x < base \<or> mb_end ?b \<le> x" if "b \<in> set (blks h)" "x \<in> set (mb_frags b)" for b x
    using ap [OF that(1)] blk_range [of "hdr h" b x] that ok e by (auto simp: heap_ok_def FRAG_SIZE_def)
  show n: "hdr h (base + 16) = None"
  proof (rule ccontr)
    assume "hdr h (base + 16) \<noteq> None"
    then obtain b where "b \<in> set (blks h)" "base + 16 \<in> set (mb_frags b)" using ok by (auto simp: heap_ok_def)
    then show False using out e by (fastforce simp: BLOCK_SIZE_def)
  qed
  show "used ?h = used h" using n by (auto simp: used_def new_block_def)
  have "frag_size (frag_init sz) = sz" using sm by (intro frag_size_set) simp
  then have "blk_ok (hdr ?h) ?b"
    using sm e by (auto simp: blk_ok_def new_block_def fsz_def FRAG_SIZE_def BLOCK_SIZE_def)
  moreover have "blk_ok (hdr ?h) b" if "b \<in> set (blks h)" for b
  proof -
    have "base + 16 \<notin> set (mb_frags b)" using out [OF that] e by (fastforce simp: BLOCK_SIZE_def)
    moreover have "blk_ok (hdr h) b" using ok that by (simp add: heap_ok_def)
    ultimately show ?thesis
      using chain_other [of "hdr h" _ "mb_frags b" _ "hdr ?h"] by (fastforce simp: blk_ok_def new_block_def)
  qed
  moreover have "apart ?b b" if "b \<in> set (blks h)" for b using ap [OF that] e by (auto simp: apart_def)
  moreover have "free_frags ?h = insert (base + 16) (free_frags h)" by (auto simp: free_frags_def new_block_def split: if_splits)
  moreover have "base + 16 \<notin> free_frags h" using n by (simp add: free_frags_def)
  moreover have "blks ?h = ?b # blks h" "free_list ?h = (base + 16) # free_list h" by (simp_all add: new_block_def)
  moreover have "\<exists>b \<in> set (blks ?h). x \<in> set (mb_frags b)" if "hdr ?h x \<noteq> None" for x
  proof (cases "x = base + 16")
    case False
    then have "hdr h x \<noteq> None" using that by (simp add: new_block_def)
    then show ?thesis using ok by (auto simp: heap_ok_def new_block_def)
  qed (simp add: new_block_def)
  ultimately show "heap_ok ?h" using ok unfolding heap_ok_def by simp
qed

text \<open>Rounding up to whole pages.\<close>

lemma and_4095: "unat (r AND 4095 :: u64) = unat r mod 4096"
proof -
  have "r AND 4095 = take_bit 12 r" by (rule bit_word_eqI) (simp add: take_bit_eq_mask mask_numeral bit_and_iff)
  then show ?thesis by (simp add: take_bit_eq_mod unat_mod_distrib)
qed

lemma or_sum: "r OR m = r - (r AND m) + m" for r m :: u64
proof -
  have "(r AND NOT m) + (r AND m) = (r AND NOT m) OR (r AND m)" by (rule disjunctive_add) (simp add: bit_simps)
  also have "\<dots> = r" by (rule bit_word_eqI) (auto simp: bit_simps)
  finally have "r - (r AND m) = r AND NOT m" by (metis add_diff_cancel_right')
  moreover have "(r AND NOT m) + m = (r AND NOT m) OR m" by (rule disjunctive_add) (simp add: bit_simps)
  moreover have "(r AND NOT m) OR m = r OR m" by (rule bit_word_eqI) (auto simp: bit_simps)
  ultimately show ?thesis by simp
qed

lemma page_up: "(n + 4095) div 4096 * 4096 = (if n mod 4096 = 0 then n else n - n mod 4096 + 4096)" for n :: nat
proof -
  obtain k m where n: "n = k * 4096 + m" "m < 4096" using div_mult_mod_eq [of n 4096] mod_less_divisor [of 4096 n] by (metis zero_less_numeral)
  have "(k * 4096 + m + 4095) div 4096 = (if m = 0 then k else k + 1)"
    by (rule div_nat_eqI) (use n(2) in \<open>auto\<close>)
  moreover have "n mod 4096 = m" using n by simp
  ultimately show ?thesis using n by simp
qed

lemma round_up_page:
  assumes "unat (r :: u64) + 4096 < 2 ^ 64"
  shows "unat (round_up r BLOCK_SIZE_MULTIPLE) = (unat r + 4095) div 4096 * 4096"
proof (cases "unat r mod 4096 = 0")
  case True
  then have "r AND 4095 = 0" using and_4095 [of r] by (simp add: unat_eq_zero)
  moreover have "unat r = (unat r + 4095) div 4096 * 4096" using True page_up [of "unat r"] by simp
  ultimately show ?thesis by (simp add: round_up_def)
next
  case False
  let ?q = "r - (r AND 4095)"
  have q: "unat ?q = unat r - unat r mod 4096"
  proof -
    have "r AND 4095 \<le> r" unfolding word_le_nat_alt and_4095 by simp
    then show ?thesis by (simp only: unat_sub and_4095)
  qed
  have "(r OR 4095) + 1 = ?q + 4096" by (subst or_sum) simp
  moreover have "unat (?q + 4096) = unat ?q + 4096"
  proof -
    have "unat ?q + unat (4096 :: u64) < 2 ^ LENGTH(64)" using q assms by simp
    then show ?thesis by (simp only: unat_add_lem) simp
  qed
  ultimately have "unat ((r OR 4095) + 1) = unat r - unat r mod 4096 + 4096" using q by (simp only:)
  moreover have "r AND 4095 \<noteq> 0" using False and_4095 [of r] by (metis unat_0)
  ultimately show ?thesis using False page_up [of "unat r"] by (simp add: round_up_def)
qed

text \<open>The requests for which a mapping of whole pages has room for the headers.\<close>

definition fits :: "u64 \<Rightarrow> bool" where
  "fits r \<longleftrightarrow> 0 < unat r mod 4096 \<and> unat r mod 4096 \<le> 4096 - BLOCK_SIZE"

lemma fits_page:
  assumes "unat r < 2 ^ 61" "r \<noteq> 0"
  shows "fits r \<longleftrightarrow> unat r + BLOCK_SIZE \<le> unat (round_up r BLOCK_SIZE_MULTIPLE)"
proof -
  have "unat (round_up r BLOCK_SIZE_MULTIPLE) = (unat r + 4095) div 4096 * 4096"
    using assms by (intro round_up_page) simp
  moreover have "0 < unat r" using assms(2) by (simp add: unat_gt_0)
  moreover have "unat r mod 4096 < 4096" "unat r mod 4096 \<le> unat r" by simp_all
  ultimately show ?thesis unfolding fits_def BLOCK_SIZE_def page_up by (auto split: if_splits)
qed

text \<open>
  What the allocator relies on of Linux: a mapping that is not an error is memory below \<open>2 ^ 62\<close>, apart
  from the blocks there are.
\<close>

definition maps_fresh :: "('w, 'z) mmcalls_scheme \<Rightarrow> xheap \<Rightarrow> 'w \<Rightarrow> bool" where
  "maps_fresh K h w \<longleftrightarrow> (\<forall>len ret w'. mm_mmap K 0 len 3 0x22 (- 1) 0 w = (ret, w') \<longrightarrow> ret \<le> - 4096 \<longrightarrow>
     unat ret + unat len < 2 ^ 62 \<and> (\<forall>b \<in> set (blks h). unat ret + unat len \<le> mb_base b \<or> mb_end b \<le> unat ret))"

lemma error_word: "(- 4096 :: u64) < r \<Longrightarrow> \<exists>e. 0 < e \<and> e < 4096 \<and> r = word_of_int (- e)"
proof -
  assume "(- 4096 :: u64) < r"
  then have "2 ^ 64 - 4096 < uint r" by (simp add: word_less_def)
  moreover have "uint r < 2 ^ 64" using uint_lt2p [of r] by simp
  moreover have "word_of_int (- (2 ^ 64 - uint r)) = r" by (simp add: word_of_int_2p_len [symmetric] del: of_int_diff) (simp add: wi_hom_sub [symmetric])
  ultimately show ?thesis by (intro exI [of _ "2 ^ 64 - uint r"]) auto
qed

lemma mmap_for_xtrace_eq:
  assumes "mm_mmap K 0 len 3 0x22 (- 1) 0 w = (ret, w')"
  shows "\<exists>ret'. mmap_for_xtrace K len w = (ret', w') \<and> (ret \<le> - 4096 \<longrightarrow> ret' = ret) \<and> (ret > - 4096 \<longrightarrow> ret' > - 4096)"
proof -
  have t: "prot_bsd_to_linux 3 = 3" "xlat map_tab 0x1002 0 = 0x22" by code_simp+
  show ?thesis
  proof (cases "ret > - 4096")
    case False
    then show ?thesis using assms by (simp add: mmap_for_xtrace_def sys_mmap_def t)
  next
    case True
    then obtain e where e: "0 < e" "e < 4096" "ret = word_of_int (- e)" using error_word by blast
    have r: "0 < errno_linux_to_bsd e" "errno_linux_to_bsd e < 4096" using errno_range [OF e(1,2)] by simp_all
    have "sint (ucast ret :: u32) = - e" unfolding e(3) by (rule error_pointer; use e in linarith)
    moreover have "(- 4096 :: u64) < word_of_int (- errno_linux_to_bsd e)" by (rule error_pointer; use r in linarith)
    ultimately show ?thesis using True assms errno.tr_odd [of e] by (auto simp: mmap_for_xtrace_def sys_mmap_def t simp del: of_int_minus)
  qed
qed

lemma allocate_ok:
  assumes ok: "heap_ok h" and fr: "maps_fresh K h w" and r: "r \<noteq> 0" "unat r < 2 ^ 61" "fits r"
  shows "\<exists>v h' w'. allocate_fragment K r h w = Some (v, h', w') \<and> heap_ok h' \<and> bytes h' = bytes h \<and>
    (case v of None \<Rightarrow> h' = h | Some a \<Rightarrow> \<exists>sz. unat r \<le> sz \<and> used h a = None \<and> used h' = (used h)(a \<mapsto> sz))"
proof -
  have L: "x \<in> set (free_list h) \<Longrightarrow> hdr h x \<noteq> None" for x using ok by (auto simp: heap_ok_def free_frags_def)
  obtain v where v: "viable (hdr h) r (free_list h) None = Some v"
    "case v of None \<Rightarrow> True | Some (a, sz) \<Rightarrow> a \<in> set (free_list h) \<and> sz = frag_size (the (hdr h a)) \<and> r < sz"
    using viable_best [of "free_list h" "hdr h" r None] L by (auto split: option.splits prod.splits)
  show ?thesis
  proof (cases v)
    case (Some p)
    obtain a sz where p: "p = (a, sz)" by (cases p)
    obtain f where f: "hdr h a = Some f" "\<not> in_use f" "r \<le> frag_size f"
      using v(2) Some p ok by (auto simp: heap_ok_def free_frags_def)
    obtain h' t where "take_fragment a r h = Some h'" "heap_ok h'" "bytes h' = bytes h" "unat r \<le> t" "used h' = (used h)(a \<mapsto> t)"
      using take_ok [OF ok f] by blast
    moreover have "used h a = None" using f by (simp add: used_def)
    ultimately show ?thesis using v(1) Some p by (auto simp: allocate_fragment_def)
  next
    case None
    let ?len = "round_up r BLOCK_SIZE_MULTIPLE"
    have fit: "unat r + BLOCK_SIZE \<le> unat ?len" using fits_page r by blast
    obtain ret w' where mm: "mm_mmap K 0 ?len 3 0x22 (- 1) 0 w = (ret, w')" by (cases "mm_mmap K 0 ?len 3 0x22 (- 1) 0 w")
    obtain ret' where m: "mmap_for_xtrace K ?len w = (ret', w')" "ret \<le> - 4096 \<longrightarrow> ret' = ret" "ret > - 4096 \<longrightarrow> ret' > - 4096"
      using mmap_for_xtrace_eq [OF mm] by blast
    show ?thesis
    proof (cases "ret > - 4096")
      case True
      then show ?thesis using v(1) None m ok by (simp add: allocate_fragment_def)
    next
      case False
      let ?sz = "?len - of_nat BLOCK_SIZE" and ?b = "unat ret"
      have sz: "unat ?sz + BLOCK_SIZE = unat ?len" "r \<le> ?sz"
        using fit by (simp_all add: unat_sub word_le_nat_alt BLOCK_SIZE_def)
      have fresh: "?b + unat ?len < 2 ^ 62" "\<forall>b \<in> set (blks h). ?b + unat ?len \<le> mb_base b \<or> mb_end b \<le> ?b"
        using fr mm False unfolding maps_fresh_def by (auto simp: not_less)
      have eq: "?b + BLOCK_SIZE + unat ?sz = ?b + unat ?len" using sz(1) by simp
      have nb: "heap_ok (new_block ?b ?sz h)" "used (new_block ?b ?sz h) = used h" "hdr h (?b + 16) = None"
        using new_block_ok [OF ok, of ?b ?sz] fresh unfolding eq by blast+
      let ?f = "set_is_mmap_base True (frag_init ?sz)"
      have f: "hdr (new_block ?b ?sz h) (?b + 16) = Some ?f" "\<not> in_use ?f" "r \<le> frag_size ?f"
        using frag_size_set(2) [of ?sz] sz fresh(1) by (simp_all add: new_block_def)
      obtain h' t where "take_fragment (?b + 16) r (new_block ?b ?sz h) = Some h'" "heap_ok h'" "bytes h' = bytes (new_block ?b ?sz h)"
          "unat r \<le> t" "used h' = (used (new_block ?b ?sz h))(?b + 16 \<mapsto> t)"
        using take_ok [OF nb(1) f] by blast
      moreover have "used h (?b + 16) = None" using nb(3) by (simp add: used_def)
      ultimately show ?thesis using v(1) None m False nb(2) by (auto simp: allocate_fragment_def not_less new_block_def)
    qed
  qed
qed

text \<open>Without room for the headers, the remaining size wraps around.\<close>

lemma page_overrun:
  assumes "r \<noteq> 0" "unat r < 2 ^ 61" "\<not> fits r"
  shows "shrink_fragment (base + 16) r (new_block base (round_up r BLOCK_SIZE_MULTIPLE - of_nat BLOCK_SIZE) h) = None"
proof -
  let ?len = "round_up r BLOCK_SIZE_MULTIPLE" and ?sz = "round_up r BLOCK_SIZE_MULTIPLE - of_nat BLOCK_SIZE"
  let ?h = "new_block base ?sz h" and ?f = "set_is_mmap_base True (frag_init ?sz)"
  have lu: "unat ?len = (unat r + 4095) div 4096 * 4096" using assms(2) by (intro round_up_page) simp
  have r0: "0 < unat r" using assms(1) by (simp add: unat_gt_0)
  have len: "unat r \<le> unat ?len" "4096 \<le> unat ?len" "unat ?len < 2 ^ 62"
    using lu page_up [of "unat r"] r0 assms(2) mod_less_divisor [of 4096 "unat r"] mod_less_eq_dividend [of "unat r" 4096]
    by (auto split: if_splits)
  have lt: "unat ?len < unat r + 56" using fits_page [OF assms(2,1)] assms(3) by (simp add: BLOCK_SIZE_def)
  have sz: "unat ?sz = unat ?len - 56" using len(2) by (simp add: unat_sub word_le_nat_alt BLOCK_SIZE_def)
  have fs: "frag_size ?f = ?sz" using frag_size_set(2) [of ?sz] sz len(3) by simp
  have bo: "block_of ?h (base + 16) = Some \<lparr>mb_base = base, mb_size = ?sz, mb_frags = [base + 16]\<rparr>"
    by (simp add: block_of_def new_block_def)
  have "unat (?sz - r) = unat ?sz + 2 ^ 64 - unat r"
    using sz lt len unat_sub_if' [of ?sz r] by auto
  then have "of_nat FRAG_SIZE < ?sz - r" using sz lt len by (simp add: word_less_nat_alt FRAG_SIZE_def)
  moreover have "mb_end \<lparr>mb_base = base, mb_size = ?sz, mb_frags = [base + 16]\<rparr> < base + 16 + FRAG_SIZE + unat r + FRAG_SIZE"
    using sz lt len by (simp add: mb_end_def BLOCK_SIZE_def FRAG_SIZE_def)
  ultimately show ?thesis using bo fs by (simp add: shrink_fragment_def new_block_def)
qed

section \<open>Joining and releasing\<close>

lemma unat_sum:
  assumes "unat (x :: u64) + FRAG_SIZE + unat y < 2 ^ 62"
  shows "unat (x + of_nat FRAG_SIZE + y) = unat x + FRAG_SIZE + unat y"
proof -
  have "unat (x + of_nat FRAG_SIZE) = unat x + FRAG_SIZE"
    using assms unat_add_lem [of x "of_nat FRAG_SIZE"] by (simp add: FRAG_SIZE_def)
  then show ?thesis using assms unat_add_lem [of "x + of_nat FRAG_SIZE" y] by simp
qed

lemma absorb_ok:
  assumes ok: "heap_ok h" and f: "hdr h a = Some f" and g: "hdr h d = Some g" "\<not> in_use g"
    and B: "blks h = B1 @ b # B2" "mb_frags b = xs @ a # d # ys"
  shows "\<exists>h' f'. absorb a d h = Some h' \<and> heap_ok h' \<and> bytes h' = bytes h \<and> blks h' = B1 @ b\<lparr>mb_frags := xs @ a # ys\<rparr> # B2 \<and>
    hdr h' = (hdr h)(d := None, a \<mapsto> f') \<and> in_use f' = in_use f \<and> is_mmap_base f' = is_mmap_base f \<and>
    unat (frag_size f') = unat (frag_size f) + FRAG_SIZE + unat (frag_size g)"
proof -
  have bok: "blk_ok (hdr h) b" using ok B(1) by (simp add: heap_ok_def)
  then have c: "chain (hdr h) (mb_base b + 16) xs a" "d = a + FRAG_SIZE + fsz (hdr h) a"
      "chain (hdr h) (d + FRAG_SIZE + fsz (hdr h) d) ys (mb_end b)"
    using B(2) by (auto simp: blk_ok_def chain_split)
  have dist: "distinct (xs @ a # d # ys)" using bok B(2) chain_distinct unfolding blk_ok_def by metis
  have r: "mb_base b + 16 \<le> a" "d + FRAG_SIZE + fsz (hdr h) d \<le> mb_end b" "mb_end b < 2 ^ 62"
    using bok blk_range [OF bok, of a] blk_range [OF bok, of d] B(2) by (auto simp: blk_ok_def)
  let ?s = "frag_size f + of_nat FRAG_SIZE + frag_size g"
  define f' where "f' = set_frag_size ?s f"
  have us: "unat ?s = unat (frag_size f) + FRAG_SIZE + unat (frag_size g)"
    using r c(2) f g by (intro unat_sum) (simp add: fsz_def)
  then have s': "frag_size f' = ?s" using r c(2) f g unfolding f'_def by (intro frag_size_set) (simp add: fsz_def)
  define H where "H = (hdr h)(d := None, a \<mapsto> f')"
  define h' where "h' = h\<lparr>hdr := H, blks := on_block d (remove1 d) (blks h), free_list := remove1 d (free_list h)\<rparr>"
  have "absorb a d h = Some h'" using f g by (simp add: absorb_def h'_def H_def f'_def)
  moreover have "remove1 d (xs @ a # d # ys) = xs @ a # ys" using dist by (simp add: remove1_append)
  then have bl: "blks h' = B1 @ b\<lparr>mb_frags := xs @ a # ys\<rparr> # B2"
    using on_block_eq [OF ok B(1), of d] B(2) by (simp add: h'_def)
  moreover have "heap_ok h'"
  proof (rule heap_ok_local [OF ok B(1) bl])
    have e: "a + FRAG_SIZE + fsz H a = d + FRAG_SIZE + fsz (hdr h) d" using c(2) f g s' us by (simp add: H_def fsz_def)
    have "chain H (mb_base b + 16) xs a" by (rule chain_other [OF c(1)]) (use dist in \<open>auto simp: H_def\<close>)
    moreover have "chain H (a + FRAG_SIZE + fsz H a) ys (mb_end b)"
      unfolding e by (rule chain_other [OF c(3)]) (use dist in \<open>auto simp: H_def\<close>)
    ultimately have "chain H (mb_base b + 16) (xs @ a # ys) (mb_end b)" by (simp add: chain_split H_def)
    moreover have "is_mmap_base (the (H x)) \<longleftrightarrow> x = mb_base b + 16" if "x \<in> set (xs @ a # ys)" for x
      using that bok B(2) f dist by (auto simp: H_def f'_def blk_ok_def)
    ultimately show "blk_ok (hdr h') (b\<lparr>mb_frags := xs @ a # ys\<rparr>)" using bok by (simp add: blk_ok_def h'_def mb_end_def)
    show "hdr h' x = hdr h x" if "x < mb_base b \<or> mb_end b \<le> x" for x
      using that r c(2) by (auto simp: h'_def H_def FRAG_SIZE_def)
    show "x \<in> set (xs @ a # ys)" if "mb_base b \<le> x" "x < mb_end b" "hdr h' x \<noteq> None" for x
      using inside_block [OF ok, of b x] that B dist by (auto simp: h'_def H_def split: if_splits)
    have "free_frags h' = free_frags h - {d}"
      using f dist by (auto simp: free_frags_def h'_def H_def f'_def split: if_splits)
    then show "set (free_list h') = free_frags h'" using ok by (simp add: h'_def heap_ok_def)
    show "distinct (free_list h')" using ok by (simp add: h'_def heap_ok_def)
  qed
  ultimately show ?thesis using s' us by (auto simp: h'_def H_def f'_def)
qed

lemma list_next_at: "a \<notin> set xs \<Longrightarrow> list_next a (xs @ a # ys) = (case ys of [] \<Rightarrow> None | y # _ \<Rightarrow> Some y)"
proof (induction xs)
  case (Cons x xs)
  then show ?case by (cases "xs @ a # ys") auto
qed (cases ys; simp)

lemma list_prev_notin: "a \<notin> set (drop 1 xs) \<Longrightarrow> list_prev a xs = None"
  by (induction a xs rule: list_prev.induct) auto

lemma list_prev_at: "distinct (xs @ a # ys) \<Longrightarrow> list_prev a (xs @ a # ys) = (if xs = [] then None else Some (last xs))"
proof (induction xs)
  case Nil
  then show ?case using list_prev_notin [of a "a # ys"] by simp
next
  case (Cons x xs)
  then show ?case by (cases xs) auto
qed

text \<open>The first fragment of a block is its base; joining two free fragments changes nothing for the users.\<close>

lemma base_first:
  assumes "blk_ok H b" "mb_frags b = xs @ a # ys"
  shows "is_mmap_base (the (H a)) \<longleftrightarrow> xs = []"
proof -
  have "a = mb_base b + 16 \<longleftrightarrow> xs = []"
  proof (cases xs)
    case (Cons x xs')
    then have "x = mb_base b + 16" "x \<noteq> a" using assms chain_distinct [of H "mb_base b + 16" "mb_frags b"] by (auto simp: blk_ok_def)
    then show ?thesis using Cons by simp
  qed (use assms in \<open>simp add: blk_ok_def\<close>)
  then show ?thesis using assms by (auto simp: blk_ok_def)
qed

definition frag_count :: "xheap \<Rightarrow> nat" where
  "frag_count h = sum_list (map (\<lambda>b. length (mb_frags b)) (blks h))"

lemma absorb_free:
  assumes ok: "heap_ok h" and f: "hdr h a = Some f" "\<not> in_use f" and g: "hdr h d = Some g" "\<not> in_use g"
    and B: "blks h = B1 @ b # B2" "mb_frags b = xs @ a # d # ys"
  shows "\<exists>h'. absorb a d h = Some h' \<and> heap_ok h' \<and> bytes h' = bytes h \<and> blks h' = B1 @ b\<lparr>mb_frags := xs @ a # ys\<rparr> # B2 \<and>
    used h' = used h \<and> frag_count h' < frag_count h \<and> (\<exists>f'. hdr h' a = Some f' \<and> \<not> in_use f') \<and>
    (\<forall>x. x \<noteq> a \<longrightarrow> x \<noteq> d \<longrightarrow> hdr h' x = hdr h x)"
proof -
  obtain h' f' where h': "absorb a d h = Some h'" "heap_ok h'" "bytes h' = bytes h"
      "blks h' = B1 @ b\<lparr>mb_frags := xs @ a # ys\<rparr> # B2" "hdr h' = (hdr h)(d := None, a \<mapsto> f')" "in_use f' = in_use f"
    using absorb_ok [OF ok f(1) g B] by blast
  have "used h' = used h" using h'(5,6) f g by (auto simp: used_def)
  moreover have "frag_count h' < frag_count h" using h'(4) B by (simp add: frag_count_def)
  ultimately show ?thesis using h' f(2) by auto
qed

lemma defrag_round_ok:
  assumes ok: "heap_ok h" and f: "hdr h a = Some f" "\<not> in_use f"
  shows "\<exists>q a' h' f'. defrag_round a h = Some (q, a', h') \<and> heap_ok h' \<and> bytes h' = bytes h \<and> used h' = used h \<and>
    hdr h' a' = Some f' \<and> \<not> in_use f' \<and> (q \<longrightarrow> frag_count h' < frag_count h)"
proof -
  obtain B1 b B2 xs ys where d: "blks h = B1 @ b # B2" "mb_frags b = xs @ a # ys" "block_of h a = Some b"
      "blk_ok (hdr h) b" "a \<notin> set xs"
    using frag_block [OF ok f(1)] by metis
  have dist: "distinct (xs @ a # ys)" using d(2,4) chain_distinct unfolding blk_ok_def by metis
  have def: "hdr h x \<noteq> None" if "x \<in> set (xs @ a # ys)" for x using blk_range [OF d(4)] d(2) that by metis
  let ?p = "if xs = [] then None else Some (last xs)" and ?n = "case ys of [] \<Rightarrow> None | y # _ \<Rightarrow> Some y"
  have p: "(if is_mmap_base f then None else prev_frag h a) = ?p"
    using base_first [OF d(4,2)] f(1) list_prev_at [OF dist] d(2,3) by (simp add: prev_frag_def)
  have n: "next_frag h a = ?n" using list_next_at [OF d(5)] d(2,3) by (simp add: next_frag_def)
  obtain pf where pf: "is_free h ?p = Some pf" using def [of "last xs"] by (cases "xs = []") (auto simp: is_free_def)
  have "\<exists>a1 h1 f1 xs1. (case ?p of Some p \<Rightarrow> if pf then do { h \<leftarrow> absorb p a h; Some (p, h) } else Some (a, h) | None \<Rightarrow> Some (a, h)) = Some (a1, h1) \<and>
    heap_ok h1 \<and> bytes h1 = bytes h \<and> used h1 = used h \<and> hdr h1 a1 = Some f1 \<and> \<not> in_use f1 \<and>
    blks h1 = B1 @ b\<lparr>mb_frags := xs1 @ a1 # ys\<rparr> # B2 \<and> (pf \<longrightarrow> frag_count h1 < frag_count h) \<and> frag_count h1 \<le> frag_count h \<and>
    (\<forall>x \<in> set ys. hdr h1 x = hdr h x)"
  proof (cases "xs \<noteq> [] \<and> pf")
    case False
    then have "\<not> pf \<or> xs = []" by auto
    then show ?thesis using ok f d(1,2) pf by (cases xs rule: rev_cases) (auto simp: is_free_def intro!: exI [of _ xs])
  next
    case True
    then obtain xs1 q where q: "xs = xs1 @ [q]" by (cases xs rule: rev_cases) auto
    then obtain fq where fq: "hdr h q = Some fq" "\<not> in_use fq" using pf True by (auto simp: is_free_def)
    have Bq: "mb_frags b = xs1 @ q # a # ys" using d(2) q by simp
    obtain h1 where "absorb q a h = Some h1" "heap_ok h1" "bytes h1 = bytes h" "blks h1 = B1 @ b\<lparr>mb_frags := xs1 @ q # ys\<rparr> # B2"
        "used h1 = used h" "frag_count h1 < frag_count h" "\<exists>f'. hdr h1 q = Some f' \<and> \<not> in_use f'"
        "\<forall>x. x \<noteq> q \<longrightarrow> x \<noteq> a \<longrightarrow> hdr h1 x = hdr h x"
      using absorb_free [OF ok fq f d(1) Bq] by blast
    moreover have "q \<notin> set ys" "a \<notin> set ys" using dist q by auto
    ultimately show ?thesis using q True by (auto intro!: exI [of _ xs1])
  qed
  then obtain a1 h1 f1 xs1 where s1: "(case ?p of Some p \<Rightarrow> if pf then do { h \<leftarrow> absorb p a h; Some (p, h) } else Some (a, h) | None \<Rightarrow> Some (a, h)) = Some (a1, h1)"
    "heap_ok h1" "bytes h1 = bytes h" "used h1 = used h" "hdr h1 a1 = Some f1" "\<not> in_use f1"
    "blks h1 = B1 @ b\<lparr>mb_frags := xs1 @ a1 # ys\<rparr> # B2" "pf \<longrightarrow> frag_count h1 < frag_count h" "frag_count h1 \<le> frag_count h"
    "\<forall>x \<in> set ys. hdr h1 x = hdr h x"
    by blast
  obtain nf where nf: "is_free h1 ?n = Some nf"
    using def [of "hd ys"] s1(10) by (cases ys) (auto simp: is_free_def)
  have "\<exists>h' f'. (case ?n of Some n \<Rightarrow> if nf then absorb a1 n h1 else Some h1 | None \<Rightarrow> Some h1) = Some h' \<and> heap_ok h' \<and>
    bytes h' = bytes h \<and> used h' = used h \<and> hdr h' a1 = Some f' \<and> \<not> in_use f' \<and> (pf \<or> nf \<longrightarrow> frag_count h' < frag_count h)"
  proof (cases "ys \<noteq> [] \<and> nf")
    case False
    then show ?thesis using s1 nf by (cases ys) (auto simp: is_free_def)
  next
    case True
    then obtain y ys' where y: "ys = y # ys'" by (cases ys) auto
    then obtain fy where fy: "hdr h1 y = Some fy" "\<not> in_use fy" using nf True by (auto simp: is_free_def)
    have By: "mb_frags (b\<lparr>mb_frags := xs1 @ a1 # ys\<rparr>) = xs1 @ a1 # y # ys'" using y by simp
    show ?thesis using absorb_free [OF s1(2,5,6) fy s1(7) By] s1(3,4,9) y True by auto
  qed
  then obtain h' f' where "(case ?n of Some n \<Rightarrow> if nf then absorb a1 n h1 else Some h1 | None \<Rightarrow> Some h1) = Some h'" "heap_ok h'"
    "bytes h' = bytes h" "used h' = used h" "hdr h' a1 = Some f'" "\<not> in_use f'" "pf \<or> nf \<longrightarrow> frag_count h' < frag_count h"
    by blast
  moreover from this(1) have "defrag_round a h = Some (pf \<or> nf, a1, h')"
    unfolding defrag_round_def using f(1) p n pf nf s1(1) by simp
  ultimately show ?thesis by blast
qed

lemma defrag_ok:
  "heap_ok h \<Longrightarrow> hdr h a = Some f \<Longrightarrow> \<not> in_use f \<Longrightarrow>
   \<exists>a' h' f'. defrag a h = Some (a', h') \<and> heap_ok h' \<and> bytes h' = bytes h \<and> used h' = used h \<and> hdr h' a' = Some f' \<and> \<not> in_use f'"
proof (induction "frag_count h" arbitrary: h a f rule: less_induct)
  case less
  obtain q a1 h1 f1 where r: "defrag_round a h = Some (q, a1, h1)" "heap_ok h1" "bytes h1 = bytes h" "used h1 = used h"
      "hdr h1 a1 = Some f1" "\<not> in_use f1" "q \<longrightarrow> frag_count h1 < frag_count h"
    using defrag_round_ok [OF less.prems] by metis
  show ?case
  proof (cases q)
    case True
    then show ?thesis using less.hyps [OF _ r(2,5,6)] r by (subst defrag.simps) auto
  next
    case False
    then show ?thesis using r by (subst defrag.simps) auto
  qed
qed

text \<open>A block that is one free fragment is given back.\<close>

lemma unmap_ok:
  assumes ok: "heap_ok h" and f: "hdr h a = Some f" "\<not> in_use f" "is_mmap_base f"
    and b: "block_of h a = Some b" "mb_size b = frag_size f"
  shows "heap_ok (h\<lparr>hdr := (hdr h)(a := None), blks := filter (\<lambda>b. a \<notin> set (mb_frags b)) (blks h), free_list := remove1 a (free_list h)\<rparr>)"
    (is "heap_ok ?h")
proof -
  obtain B1 B2 xs ys where d: "blks h = B1 @ b # B2" "mb_frags b = xs @ a # ys" "blk_ok (hdr h) b"
    using frag_block [OF ok f(1)] b(1) by (metis option.inject)
  have "xs = []" using base_first [OF d(3,2)] f by simp
  then have c: "a = mb_base b + 16" "chain (hdr h) (mb_end b) ys (mb_end b)"
    using d(2,3) f(1) b(2) by (auto simp: blk_ok_def fsz_def mb_end_def FRAG_SIZE_def BLOCK_SIZE_def ac_simps)
  then have "ys = []" using chain_range [OF c(2), of "hd ys"] by (cases ys) (auto simp: FRAG_SIZE_def)
  then have one: "mb_frags b = [a]" using d(2) \<open>xs = []\<close> by simp
  have bl: "set (blks ?h) = {c \<in> set (blks h). a \<notin> set (mb_frags c)}" by simp
  have "blk_ok (hdr ?h) c" if "c \<in> set (blks ?h)" for c
  proof -
    have "blk_ok (hdr h) c" using that ok by (simp add: heap_ok_def)
    moreover have "a \<notin> set (mb_frags c)" using that by simp
    ultimately show ?thesis using chain_other [of "hdr h" _ "mb_frags c" _ "hdr ?h"] by (fastforce simp: blk_ok_def)
  qed
  moreover have "sorted_wrt apart (blks ?h)" using ok by (simp add: heap_ok_def sorted_wrt_filter)
  moreover have "\<exists>c \<in> set (blks ?h). x \<in> set (mb_frags c)" if "hdr ?h x \<noteq> None" for x
  proof -
    have x: "x \<noteq> a" "hdr h x \<noteq> None" using that by (auto split: if_splits)
    then obtain c where c: "c \<in> set (blks h)" "x \<in> set (mb_frags c)" using ok by (auto simp: heap_ok_def)
    have "a \<notin> set (mb_frags c)"
    proof
      assume "a \<in> set (mb_frags c)"
      then have "c = b" using frag_unique [OF ok c(1), of b a] d(1) one by simp
      then show False using c(2) one x(1) by simp
    qed
    then show ?thesis using c by auto
  qed
  moreover have "free_frags ?h = free_frags h - {a}" by (auto simp: free_frags_def split: if_splits)
  ultimately show ?thesis using ok unfolding heap_ok_def by simp
qed

lemma release_ok:
  assumes ok: "heap_ok h" and u: "used h a = Some sz"
  shows "\<exists>h' w'. release_fragment K a h w = Some (h', w') \<and> heap_ok h' \<and> bytes h' = bytes h \<and> used h' = (used h)(a := None)"
proof -
  obtain f where f: "hdr h a = Some f" "in_use f" using u by (auto simp: used_def split: option.splits if_splits)
  let ?h = "h\<lparr>hdr := (hdr h)(a \<mapsto> set_in_use False f), free_list := a # free_list h\<rparr>"
  have "a \<notin> free_frags h" using f by (simp add: free_frags_def)
  then have o1: "heap_ok ?h" using ok f by (intro heap_ok_flag) (auto simp: heap_ok_def free_frags_def split: if_splits)
  have u1: "used ?h = (used h)(a := None)" by (auto simp: used_def)
  have "hdr ?h a = Some (set_in_use False f)" "\<not> in_use (set_in_use False f)" by simp_all
  then obtain a' h' f' where d: "defrag a ?h = Some (a', h')" "heap_ok h'" "bytes h' = bytes h" "used h' = used ?h"
      "hdr h' a' = Some f'" "\<not> in_use f'"
    using defrag_ok [OF o1] by fastforce
  show ?thesis
  proof (cases "is_mmap_base f'")
    case False
    then show ?thesis using f d u1 by (simp add: release_fragment_def)
  next
    case True
    obtain b where b: "block_of h' a' = Some b" using frag_block [OF d(2,5)] by metis
    show ?thesis
    proof (cases "mb_size b = frag_size f'")
      case False
      then show ?thesis using f d u1 True b by (simp add: release_fragment_def)
    next
      case eq: True
      let ?h2 = "h'\<lparr>hdr := (hdr h')(a' := None), blks := filter (\<lambda>b. a' \<notin> set (mb_frags b)) (blks h'), free_list := remove1 a' (free_list h')\<rparr>"
      have "heap_ok ?h2" using unmap_ok [OF d(2,5,6) True b eq] .
      moreover have "used ?h2 = used h'" using d(5,6) by (auto simp: used_def)
      ultimately show ?thesis using f d u1 True b eq by (simp add: release_fragment_def)
    qed
  qed
qed

section \<open>Growing in place\<close>

lemma chain_start: "chain H s as e \<Longrightarrow> chain H' s' as e \<Longrightarrow> s = s'"
  by (cases as) auto

lemma expand_scan_ok:
  assumes "chain H (a + FRAG_SIZE + unat av) ys e" "e < 2 ^ 62" "av < n"
  shows "\<exists>r av'. expand_scan H n av ys = Some (r, av') \<and>
    (\<forall>x. r = Some x \<and> n \<le> av' \<longrightarrow> (\<exists>zs rest. ys = zs @ x # rest \<and> (\<forall>z \<in> set (zs @ [x]). \<not> in_use (the (H z))) \<and>
       chain H (a + FRAG_SIZE + unat av') rest e))"
  using assms
proof (induction ys arbitrary: av)
  case (Cons y ys)
  obtain f where f: "H y = Some f" and y: "y = a + FRAG_SIZE + unat av" using Cons.prems(1) by auto
  have c: "chain H (y + FRAG_SIZE + unat (frag_size f)) ys e" using Cons.prems(1) f by (simp add: fsz_def)
  let ?av = "av + frag_size f + of_nat FRAG_SIZE"
  have "y + FRAG_SIZE + unat (frag_size f) \<le> e" using chain_le [OF c] .
  then have "unat (av + of_nat FRAG_SIZE + frag_size f) = unat av + FRAG_SIZE + unat (frag_size f)"
    using Cons.prems(2) y by (intro unat_sum) simp
  then have us: "unat ?av = unat av + FRAG_SIZE + unat (frag_size f)" by (simp add: ac_simps)
  then have c': "chain H (a + FRAG_SIZE + unat ?av) ys e" using c y by (simp add: ac_simps)
  show ?case
  proof (cases "in_use f")
    case True
    then show ?thesis using f Cons.prems(3) by (auto simp: not_le)
  next
    case free: False
    show ?thesis
    proof (cases "n \<le> ?av")
      case True
      have "\<exists>zs rest. y # ys = zs @ y # rest \<and> (\<forall>z \<in> set (zs @ [y]). \<not> in_use (the (H z))) \<and> chain H (a + FRAG_SIZE + unat ?av) rest e"
        using f free c' by (intro exI [of _ "[]"] exI [of _ ys]) simp
      moreover have "expand_scan H n av (y # ys) = Some (Some y, ?av)" using f free True by (simp add: Let_def)
      ultimately show ?thesis by (intro exI conjI) auto
    next
      case False
      obtain r av' where ih: "expand_scan H n ?av ys = Some (r, av')"
        "\<forall>x. r = Some x \<and> n \<le> av' \<longrightarrow> (\<exists>zs rest. ys = zs @ x # rest \<and> (\<forall>z \<in> set (zs @ [x]). \<not> in_use (the (H z))) \<and>
           chain H (a + FRAG_SIZE + unat av') rest e)"
        using Cons.IH [OF c' Cons.prems(2)] False by (auto simp: not_le)
      have "\<exists>zs rest. y # ys = zs @ x # rest \<and> (\<forall>z \<in> set (zs @ [x]). \<not> in_use (the (H z))) \<and> chain H (a + FRAG_SIZE + unat av') rest e"
        if hx: "r = Some x \<and> n \<le> av'" for x
      proof -
        obtain zs rest where "ys = zs @ x # rest" "\<forall>z \<in> set (zs @ [x]). \<not> in_use (the (H z))" "chain H (a + FRAG_SIZE + unat av') rest e"
          using ih(2) hx by blast
        then show ?thesis using f free by (intro exI [of _ "y # zs"] exI [of _ rest]) auto
      qed
      moreover have "expand_scan H n av (y # ys) = Some (r, av')" using f free False ih(1) by (simp add: Let_def)
      ultimately show ?thesis by blast
    qed
  qed
qed simp

lemma absorb_until_ok:
  assumes "heap_ok h" "hdr h a = Some f" "blks h = B1 @ b # B2" "mb_frags b = xs @ a # zs @ x # rest"
    "\<forall>z \<in> set (zs @ [x]). \<not> in_use (the (hdr h z))"
  shows "\<exists>h' f'. absorb_until a x (zs @ x # rest) h = Some h' \<and> heap_ok h' \<and> bytes h' = bytes h \<and> hdr h' a = Some f' \<and>
    in_use f' = in_use f \<and> blks h' = B1 @ b\<lparr>mb_frags := xs @ a # rest\<rparr> # B2 \<and> (\<forall>y. y \<noteq> a \<longrightarrow> used h' y = used h y)"
  using assms
proof (induction zs arbitrary: h f b)
  case Nil
  have bok: "blk_ok (hdr h) b" using Nil.prems by (simp add: heap_ok_def)
  obtain g where g: "hdr h x = Some g" "\<not> in_use g" using blk_range [OF bok, of x] Nil.prems(4,5) by auto
  have B: "mb_frags b = xs @ a # x # rest" using Nil.prems(4) by simp
  obtain h' f' where h': "absorb a x h = Some h'" "heap_ok h'" "bytes h' = bytes h"
      "blks h' = B1 @ b\<lparr>mb_frags := xs @ a # rest\<rparr> # B2" "hdr h' = (hdr h)(x := None, a \<mapsto> f')" "in_use f' = in_use f"
    using absorb_ok [OF Nil.prems(1,2) g Nil.prems(3) B] by blast
  moreover have "used h' y = used h y" if "y \<noteq> a" for y using that h'(5) g by (auto simp: used_def)
  ultimately show ?case by simp
next
  case (Cons z zs)
  have bok: "blk_ok (hdr h) b" using Cons.prems by (simp add: heap_ok_def)
  have dist: "distinct (xs @ a # (z # zs) @ x # rest)" using bok Cons.prems(4) chain_distinct unfolding blk_ok_def by metis
  obtain g where g: "hdr h z = Some g" "\<not> in_use g" using blk_range [OF bok, of z] Cons.prems(4,5) by auto
  have B: "mb_frags b = xs @ a # z # (zs @ x # rest)" using Cons.prems(4) by simp
  obtain h1 f1 where h1: "absorb a z h = Some h1" "heap_ok h1" "bytes h1 = bytes h"
      "blks h1 = B1 @ b\<lparr>mb_frags := xs @ a # zs @ x # rest\<rparr> # B2" "hdr h1 = (hdr h)(z := None, a \<mapsto> f1)" "in_use f1 = in_use f"
    using absorb_ok [OF Cons.prems(1,2) g Cons.prems(3) B] by blast
  have u: "used h1 y = used h y" if "y \<noteq> a" for y using that h1(5) g by (auto simp: used_def)
  have fr: "\<forall>y \<in> set (zs @ [x]). \<not> in_use (the (hdr h1 y))" using Cons.prems(5) h1(5) dist by auto
  have a1: "hdr h1 a = Some f1" using h1(5) by simp
  have B1': "mb_frags (b\<lparr>mb_frags := xs @ a # zs @ x # rest\<rparr>) = xs @ a # zs @ x # rest" by simp
  obtain h' f' where "absorb_until a x (zs @ x # rest) h1 = Some h'" "heap_ok h'" "bytes h' = bytes h1" "hdr h' a = Some f'"
      "in_use f' = in_use f1" "blks h' = B1 @ b\<lparr>mb_frags := xs @ a # rest\<rparr> # B2" "\<forall>y. y \<noteq> a \<longrightarrow> used h' y = used h1 y"
    using Cons.IH [OF h1(2) a1 h1(4) B1' fr] by auto
  moreover have "z \<noteq> x" using dist by auto
  ultimately show ?case using h1 u by simp
qed

lemma behind_at: "a \<notin> set xs \<Longrightarrow> behind a (xs @ a # ys) = ys"
  by (induction xs) (auto simp: behind_def)

lemma expand_ok:
  assumes ok: "heap_ok h" and f: "hdr h a = Some f" "in_use f" and n: "frag_size f < n"
  shows "\<exists>q h'. expand_fragment a n h = Some (q, h') \<and> heap_ok h' \<and> bytes h' = bytes h \<and>
    (if q then \<exists>sz. unat n \<le> sz \<and> used h' = (used h)(a \<mapsto> sz) else h' = h)"
proof -
  obtain B1 b B2 xs ys where d: "blks h = B1 @ b # B2" "mb_frags b = xs @ a # ys" "block_of h a = Some b"
      "blk_ok (hdr h) b" "a \<notin> set xs"
    using frag_block [OF ok f(1)] by metis
  have be: "behind a (mb_frags b) = ys" using behind_at [OF d(5)] d(2) by simp
  have c: "chain (hdr h) (a + FRAG_SIZE + unat (frag_size f)) ys (mb_end b)" "mb_end b < 2 ^ 62"
    using d(2,4) f(1) by (auto simp: blk_ok_def chain_split fsz_def)
  obtain r av where s: "expand_scan (hdr h) n (frag_size f) ys = Some (r, av)"
    "\<forall>x. r = Some x \<and> n \<le> av \<longrightarrow> (\<exists>zs rest. ys = zs @ x # rest \<and> (\<forall>z \<in> set (zs @ [x]). \<not> in_use (the (hdr h z))) \<and>
       chain (hdr h) (a + FRAG_SIZE + unat av) rest (mb_end b))"
    using expand_scan_ok [OF c n] by blast
  show ?thesis
  proof (cases "\<exists>x. r = Some x \<and> n \<le> av")
    case False
    then have "expand_fragment a n h = Some (False, h)"
      using f(1) d(3) be s(1) by (cases r) (auto simp: expand_fragment_def not_le)
    then show ?thesis using ok by auto
  next
    case True
    then obtain x zs rest where x: "r = Some x" "n \<le> av" "ys = zs @ x # rest" "\<forall>z \<in> set (zs @ [x]). \<not> in_use (the (hdr h z))"
        "chain (hdr h) (a + FRAG_SIZE + unat av) rest (mb_end b)" using s(2) by blast
    have B: "mb_frags b = xs @ a # zs @ x # rest" using d(2) x(3) by simp
    obtain h1 f1 where h1: "absorb_until a x ys h = Some h1" "heap_ok h1" "bytes h1 = bytes h" "hdr h1 a = Some f1"
        "in_use f1 = in_use f" "blks h1 = B1 @ b\<lparr>mb_frags := xs @ a # rest\<rparr> # B2" "\<forall>y. y \<noteq> a \<longrightarrow> used h1 y = used h y"
      using absorb_until_ok [OF ok f(1) d(1) B x(4)] x(3) by metis
    have "chain (hdr h1) (a + FRAG_SIZE + fsz (hdr h1) a) rest (mb_end b)"
      using h1(2,6) by (auto simp: heap_ok_def blk_ok_def chain_split mb_end_def)
    then have "fsz (hdr h1) a = unat av" using chain_start [OF x(5)] by fastforce
    then have "n \<le> frag_size f1" using x(2) h1(4) by (simp add: fsz_def word_le_nat_alt)
    then obtain q h2 f2 where h2: "shrink_fragment a n h1 = Some (q, h2)" "heap_ok h2" "hdr h2 a = Some f2" "in_use f2 = in_use f1"
        "n \<le> frag_size f2" "bytes h2 = bytes h1" "\<forall>y. y \<noteq> a \<longrightarrow> used h2 y = used h1 y"
      using shrink_ok [OF h1(2,4)] by metis
    have "used h2 = (used h)(a \<mapsto> unat (frag_size f2))"
    proof
      fix y
      show "used h2 y = ((used h)(a \<mapsto> unat (frag_size f2))) y"
        using h2(3,4,7) h1(5,7) f(2) by (cases "y = a") (auto simp: used_def [of h2 a])
    qed
    moreover have "expand_fragment a n h = Some (True, h2)"
      using f(1) d(3) be s(1) x(1,2) h1(1) h2(1) by (simp add: expand_fragment_def not_less [symmetric])
    ultimately show ?thesis using h2 h1(3) by (auto simp: word_le_nat_alt)
  qed
qed

end
