(* ===== verification/XMalloc_Spec.thy ===== *)
theory XMalloc_Spec
  imports XMalloc
begin

text \<open>
  What the allocator of the tracer promises to its users, and that \<^verbatim>\<open>xtrace_malloc\<close>, \<^verbatim>\<open>xtrace_free\<close> and
  \<^verbatim>\<open>xtrace_realloc\<close> keep the promise, except for the requests whose pages have no room for the headers.
\<close>

section \<open>Specification\<close>

text \<open>
  The allocator as its users see it: a map from the fragments in use to their sizes. A request either
  fails and changes nothing, or yields a fragment that was not in use and is large enough.
\<close>

datatype request = Malloc u64 | Free nat | Realloc nat u64

definition serve :: "('w, 'z) mmcalls_scheme \<Rightarrow> request \<Rightarrow> xheap \<Rightarrow> 'w \<Rightarrow> (nat \<times> xheap \<times> 'w) option" where
  "serve K rq h w = (case rq of
     Malloc n \<Rightarrow> xtrace_malloc K n h w
   | Free p \<Rightarrow> map_option (Pair 0) (xtrace_free K p h w)
   | Realloc p n \<Rightarrow> xtrace_realloc K p n h w)"

inductive served :: "request \<Rightarrow> (nat \<rightharpoonup> nat) \<Rightarrow> nat \<Rightarrow> (nat \<rightharpoonup> nat) \<Rightarrow> bool" where
  refused: "served (Malloc n) U 0 U"
| given: "U a = None \<Longrightarrow> unat n \<le> sz \<Longrightarrow> served (Malloc n) U (a + FRAG_SIZE) (U(a \<mapsto> sz))"
| freed: "U a \<noteq> None \<Longrightarrow> served (Free (a + FRAG_SIZE)) U 0 (U(a := None))"
| resized: "U a \<noteq> None \<Longrightarrow> unat n \<le> sz \<Longrightarrow> served (Realloc (a + FRAG_SIZE) n) U (a + FRAG_SIZE) (U(a \<mapsto> sz))"
| moved: "U a \<noteq> None \<Longrightarrow> U b = None \<Longrightarrow> unat n \<le> sz \<Longrightarrow>
    served (Realloc (a + FRAG_SIZE) n) U (b + FRAG_SIZE) (U(b \<mapsto> sz, a := None))"
| not_resized: "U a \<noteq> None \<Longrightarrow> served (Realloc (a + FRAG_SIZE) n) U 0 U"

text \<open>The requests of a correct user: sizes that fit, and pointers to fragments in use.\<close>

definition proper :: "u64 \<Rightarrow> bool" where
  "proper n \<longleftrightarrow> n \<noteq> 0 \<and> unat n < 2 ^ 61 \<and> fits n"

definition allowed :: "request \<Rightarrow> (nat \<rightharpoonup> nat) \<Rightarrow> bool" where
  "allowed rq U = (case rq of
     Malloc n \<Rightarrow> proper n
   | Free p \<Rightarrow> FRAG_SIZE \<le> p \<and> U (p - FRAG_SIZE) \<noteq> None
   | Realloc p n \<Rightarrow> FRAG_SIZE \<le> p \<and> U (p - FRAG_SIZE) \<noteq> None \<and> proper n)"

definition separated :: "(nat \<rightharpoonup> nat) \<Rightarrow> bool" where
  "separated U \<longleftrightarrow> (\<forall>a b s t. U a = Some s \<and> U b = Some t \<and> a \<noteq> b \<longrightarrow> a + FRAG_SIZE + s \<le> b \<or> b + FRAG_SIZE + t \<le> a)"

lemma heap_separated:
  assumes ok: "heap_ok h"
  shows "separated (used h)"
  unfolding separated_def
proof (intro allI impI)
  fix a b s t
  assume "used h a = Some s \<and> used h b = Some t \<and> a \<noteq> b"
  then obtain f g where f: "hdr h a = Some f" "s = unat (frag_size f)" and g: "hdr h b = Some g" "t = unat (frag_size g)" and ne: "a \<noteq> b"
    by (auto simp: used_def split: option.splits if_splits)
  obtain c e where c: "c \<in> set (blks h)" "a \<in> set (mb_frags c)" and e: "e \<in> set (blks h)" "b \<in> set (mb_frags e)"
    using ok f g unfolding heap_ok_def by blast
  have k: "blk_ok (hdr h) c" "blk_ok (hdr h) e" using ok c(1) e(1) by (simp_all add: heap_ok_def)
  have sz: "fsz (hdr h) a = s" "fsz (hdr h) b = t" using f g by (simp_all add: fsz_def)
  show "a + FRAG_SIZE + s \<le> b \<or> b + FRAG_SIZE + t \<le> a"
  proof (cases "c = e")
    case True
    then show ?thesis using chain_apart [of "hdr h" _ "mb_frags c" _ a b] k(1) c(2) e(2) ne sz by (auto simp: blk_ok_def)
  next
    case False
    then have "apart c e" using ok c(1) e(1) sorted_apart unfolding heap_ok_def by blast
    then show ?thesis using blk_range [OF k(1) c(2)] blk_range [OF k(2) e(2)] sz by (auto simp: apart_def)
  qed
qed

lemma realloc_ok:
  assumes ok: "heap_ok h" and fr: "maps_fresh K h w" and u: "used h a = Some old" and n: "proper n"
  shows "\<exists>p h' w'. xtrace_realloc K (a + FRAG_SIZE) n h w = Some (p, h', w') \<and> heap_ok h' \<and>
    (p = 0 \<and> used h' = used h \<and> bytes h' = bytes h \<or>
     (\<exists>sz. p = a + FRAG_SIZE \<and> unat n \<le> sz \<and> used h' = (used h)(a \<mapsto> sz) \<and> bytes h' = bytes h) \<or>
     (\<exists>b sz. p = b + FRAG_SIZE \<and> used h b = None \<and> unat n \<le> sz \<and> old < unat n \<and> used h' = (used h)(b \<mapsto> sz, a := None) \<and>
        separated ((used h)(b \<mapsto> sz)) \<and> bytes h' = memcpy (b + FRAG_SIZE) (a + FRAG_SIZE) old (bytes h)))"
proof -
  obtain f where f: "hdr h a = Some f" "in_use f" and old: "old = unat (frag_size f)"
    using u by (auto simp: used_def split: option.splits if_splits)
  have r: "xtrace_realloc K (a + FRAG_SIZE) n h w =
      (if n < frag_size f then do { (_, h) \<leftarrow> shrink_fragment a n h; Some (a + FRAG_SIZE, h, w) }
       else if n = frag_size f then Some (a + FRAG_SIZE, h, w)
       else do {
         (ok, h) \<leftarrow> expand_fragment a n h;
         if ok then Some (a + FRAG_SIZE, h, w)
         else do {
           (m, h, w) \<leftarrow> allocate_fragment K n h w;
           case m of
             None \<Rightarrow> Some (0, h, w)
           | Some m \<Rightarrow> do {
               (h, w) \<leftarrow> release_fragment K a (h\<lparr>bytes := memcpy (m + FRAG_SIZE) (a + FRAG_SIZE) old (bytes h)\<rparr>) w;
               Some (m + FRAG_SIZE, h, w) } } })"
    using f unfolding old by (simp add: xtrace_realloc_def)
  consider "n < frag_size f" | "n = frag_size f" | "frag_size f < n" by fastforce
  then show ?thesis
  proof cases
    case 1
    then have "n \<le> frag_size f" by simp
    then obtain q h' f' where h': "shrink_fragment a n h = Some (q, h')" "heap_ok h'" "hdr h' a = Some f'" "in_use f' = in_use f"
        "n \<le> frag_size f'" "bytes h' = bytes h" "\<forall>x. x \<noteq> a \<longrightarrow> used h' x = used h x"
      using shrink_ok [OF ok f(1)] by metis
    have "used h' = (used h)(a \<mapsto> unat (frag_size f'))"
    proof
      fix y
      show "used h' y = ((used h)(a \<mapsto> unat (frag_size f'))) y"
        using h'(3,4,7) f(2) by (cases "y = a") (auto simp: used_def [of h' a])
    qed
    then show ?thesis using r 1 h' by (auto simp: word_le_nat_alt)
  next
    case 2
    then have "used h = (used h)(a \<mapsto> old)" using u by auto
    then show ?thesis using r 2 ok old by auto
  next
    case 3
    then obtain q h1 where e: "expand_fragment a n h = Some (q, h1)" "heap_ok h1" "bytes h1 = bytes h"
        "if q then \<exists>sz. unat n \<le> sz \<and> used h1 = (used h)(a \<mapsto> sz) else h1 = h"
      using expand_ok [OF ok f, of n] by blast
    have ns: "\<not> n < frag_size f" "n \<noteq> frag_size f" using 3 by auto
    show ?thesis
    proof (cases q)
      case True
      then show ?thesis using r ns e by auto
    next
      case False
      then have h1: "h1 = h" using e(4) by simp
      obtain v h2 w2 where al: "allocate_fragment K n h w = Some (v, h2, w2)" "heap_ok h2" "bytes h2 = bytes h"
          "case v of None \<Rightarrow> h2 = h | Some b \<Rightarrow> \<exists>sz. unat n \<le> sz \<and> used h b = None \<and> used h2 = (used h)(b \<mapsto> sz)"
        using allocate_ok [OF ok fr, of n] n unfolding proper_def by blast
      show ?thesis
      proof (cases v)
        case None
        then show ?thesis using r ns e(1) h1 False al ok by auto
      next
        case (Some b)
        then obtain sz where b: "unat n \<le> sz" "used h b = None" "used h2 = (used h)(b \<mapsto> sz)" using al(4) by auto
        let ?h = "h2\<lparr>bytes := memcpy (b + FRAG_SIZE) (a + FRAG_SIZE) old (bytes h2)\<rparr>"
        have o2: "heap_ok ?h" using al(2) by (simp add: heap_ok_def free_frags_def)
        have u2: "used ?h = used h2" by (auto simp: used_def)
        have ua: "used ?h a = Some old" unfolding u2 b(3) using b(2) u by auto
        obtain h3 w3 where h3: "release_fragment K a ?h w2 = Some (h3, w3)" "heap_ok h3" "bytes h3 = bytes ?h"
            "used h3 = (used ?h)(a := None)"
          using release_ok [OF o2 ua, of K w2] by blast
        have "old < unat n" using 3 old by (simp add: word_less_nat_alt)
        moreover have "separated ((used h)(b \<mapsto> sz))" using heap_separated [OF al(2)] b(3) by simp
        moreover have "xtrace_realloc K (a + FRAG_SIZE) n h w = Some (b + FRAG_SIZE, h3, w3)"
          using r ns e(1) h1 False al(1) Some h3(1) by simp
        moreover have "used h3 = (used h)(b \<mapsto> sz, a := None)" using h3(4) unfolding u2 b(3) .
        moreover have "bytes h3 = memcpy (b + FRAG_SIZE) (a + FRAG_SIZE) old (bytes h)" using h3(3) al(3) by simp
        ultimately show ?thesis using h3(2) b(1,2) by blast
      qed
    qed
  qed
qed

section \<open>Properties\<close>

definition empty_heap :: "(nat \<Rightarrow> u8) \<Rightarrow> xheap" where
  "empty_heap m = \<lparr>hdr = Map.empty, blks = [], free_list = [], bytes = m\<rparr>"

lemma empty_heap_ok: "heap_ok (empty_heap m)" "used (empty_heap m) = Map.empty"
  by (auto simp: heap_ok_def empty_heap_def free_frags_def used_def)

text \<open>
  C18: the allocator does what an allocator promises. In a heap with its invariant, which the empty heap
  has, every request of a correct user returns, keeps the invariant and does what the specification
  allows: memory that was not in use and is large enough, or a refusal without effect; no two fragments
  in use overlap, headers included. Linux may refuse a mapping, but the ones it makes are apart from the
  blocks there are.
\<close>

theorem xtrace_alloc_refines:
  assumes "heap_ok h" "maps_fresh K h w" "allowed rq (used h)"
  shows "\<exists>p h' w'. serve K rq h w = Some (p, h', w') \<and> heap_ok h' \<and> served rq (used h) p (used h') \<and> separated (used h')"
proof (cases rq)
  case (Malloc n)
  then have n: "n \<noteq> 0" "unat n < 2 ^ 61" "fits n" using assms(3) by (simp_all add: allowed_def proper_def)
  obtain v h' w' where "allocate_fragment K n h w = Some (v, h', w')" "heap_ok h'"
      "case v of None \<Rightarrow> h' = h | Some a \<Rightarrow> \<exists>sz. unat n \<le> sz \<and> used h a = None \<and> used h' = (used h)(a \<mapsto> sz)"
    using allocate_ok [OF assms(1,2) n] by blast
  then show ?thesis using Malloc n(1) heap_separated [of h']
    by (cases v) (auto simp: serve_def xtrace_malloc_def intro: served.intros)
next
  case (Free p)
  then obtain a sz where a: "p = a + FRAG_SIZE" "used h a = Some sz"
    using assms(3) by (auto simp: allowed_def dest: le_Suc_ex [of FRAG_SIZE] intro: that [of "p - FRAG_SIZE"])
  obtain h' w' where h': "release_fragment K a h w = Some (h', w')" "heap_ok h'" "used h' = (used h)(a := None)"
    using release_ok [OF assms(1) a(2), of K w] by blast
  have "serve K rq h w = Some (0, h', w')" using Free a(1) h'(1) by (simp add: serve_def xtrace_free_def FRAG_SIZE_def)
  moreover have "served rq (used h) 0 (used h')" using served.freed [of "used h" a] Free a h'(3) by simp
  ultimately show ?thesis using h'(2) heap_separated [OF h'(2)] by blast
next
  case (Realloc p n)
  then obtain a sz where a: "p = a + FRAG_SIZE" "used h a = Some sz"
    using assms(3) by (auto simp: allowed_def intro: that [of "p - FRAG_SIZE"])
  have n: "proper n" using assms(3) Realloc by (simp add: allowed_def)
  have na: "used h a \<noteq> None" using a(2) by simp
  obtain q h' w' where r: "xtrace_realloc K (a + FRAG_SIZE) n h w = Some (q, h', w')" "heap_ok h'" and
    "q = 0 \<and> used h' = used h \<or> (\<exists>s. q = a + FRAG_SIZE \<and> unat n \<le> s \<and> used h' = (used h)(a \<mapsto> s)) \<or>
     (\<exists>b s. q = b + FRAG_SIZE \<and> used h b = None \<and> unat n \<le> s \<and> used h' = (used h)(b \<mapsto> s, a := None))"
    using realloc_ok [OF assms(1,2) a(2) n] by blast
  then have "served (Realloc (a + FRAG_SIZE) n) (used h) q (used h')"
    by (elim disjE conjE exE) (simp_all add: served.not_resized [of "used h" a] served.resized [of "used h" a] served.moved [of "used h" a] na)
  moreover have "serve K rq h w = Some (q, h', w')" using Realloc a(1) r(1) by (simp add: serve_def)
  ultimately show ?thesis using Realloc a(1) r(2) heap_separated [OF r(2)] by blast
qed

text \<open>A system that maps at one address whatever is not too large, for the witnesses.\<close>

definition page_calls :: "unit mmcalls" where
  "page_calls = \<lparr>mm_mmap = (\<lambda>s l p f d q w. (if l < 0x10000000000 then 0x10000 else - 12, w)), mm_munmap = (\<lambda>a l w. (0, w)),
     mm_mprotect = (\<lambda>a l p w. (0, w)), mm_mincore = (\<lambda>a l w. ((0, []), w)), mm_msync = (\<lambda>a l f w. (0, w)),
     mm_madvise = (\<lambda>a l d w. (0, w))\<rparr>"

lemma page_calls_fresh: "maps_fresh page_calls (empty_heap m) ()"
proof -
  have "unat (0x10000 :: u64) + unat l < 2 ^ 62" if "l < 0x10000000000" for l :: u64
    using that by (simp add: word_less_nat_alt)
  moreover have "\<not> (- 12 :: u64) \<le> - 4096" by simp
  ultimately show ?thesis by (auto simp: maps_fresh_def page_calls_def empty_heap_def split: if_splits)
qed

theorem xtrace_alloc_refines_witness:
  "\<exists>p h' w'. serve page_calls (Malloc 100) (empty_heap (\<lambda>_. 0)) () = Some (p, h', w') \<and> heap_ok h' \<and>
     served (Malloc 100) Map.empty p (used h') \<and> separated (used h')"
proof -
  have "allowed (Malloc 100) (used (empty_heap (\<lambda>_. 0)))" by (simp add: allowed_def proper_def fits_def BLOCK_SIZE_def)
  from xtrace_alloc_refines [OF empty_heap_ok(1) page_calls_fresh this] show ?thesis by (simp add: empty_heap_ok(2))
qed


text \<open>A heap of one page with one fragment of 100 bytes in use, the others free.\<close>

definition one_page :: xheap where
  "one_page = \<lparr>hdr = [0x10010 \<mapsto> set_in_use True (set_is_mmap_base True (frag_init 100)), 0x1009C \<mapsto> frag_init 3900],
     blks = [\<lparr>mb_base = 0x10000, mb_size = 4040, mb_frags = [0x10010, 0x1009C]\<rparr>], free_list = [0x1009C], bytes = (\<lambda>_. 7)\<rparr>"

lemma one_page_ok: "heap_ok one_page" "used one_page 0x10010 = Some 100"
proof -
  have s: "frag_size (frag_init 100) = 100" "frag_size (frag_init 3900) = 3900" by (simp_all add: frag_size_set)
  then show "used one_page 0x10010 = Some 100" by (simp add: used_def one_page_def)
  have "free_frags one_page = {0x1009C}" by (auto simp: free_frags_def one_page_def split: if_splits)
  moreover have "blk_ok (hdr one_page) b" if "b \<in> set (blks one_page)" for b
    using that s by (simp add: one_page_def blk_ok_def fsz_def mb_end_def FRAG_SIZE_def BLOCK_SIZE_def)
  moreover have "\<exists>b \<in> set (blks one_page). a \<in> set (mb_frags b)" if "hdr one_page a \<noteq> None" for a
    using that by (auto simp: one_page_def split: if_splits)
  ultimately show "heap_ok one_page" unfolding heap_ok_def by (simp add: one_page_def)
qed

definition no_calls :: "unit mmcalls" where
  "no_calls = page_calls\<lparr>mm_mmap := \<lambda>s l p f d q w. (- 12, w)\<rparr>"


text \<open>
  C31: a request that leaves less than 56 bytes of its last page is not served. When no free fragment is
  large enough and Linux maps the pages, such a request (4096 bytes, for example) makes the remaining
  size wrap around, and a header is written outside the mapping.
\<close>

theorem xtrace_malloc_overrun:
  assumes "heap_ok h" "\<forall>x \<in> free_frags h. frag_size (the (hdr h x)) \<le> r" "r \<noteq> 0" "unat r < 2 ^ 61" "\<not> fits r"
    "mm_mmap K 0 (round_up r BLOCK_SIZE_MULTIPLE) 3 0x22 (- 1) 0 w = (ret, w')" "ret \<le> - 4096"
  shows "xtrace_malloc K r h w = None"
proof -
  have L: "x \<in> set (free_list h) \<Longrightarrow> hdr h x \<noteq> None" for x using assms(1) by (auto simp: heap_ok_def free_frags_def)
  have "viable (hdr h) r (free_list h) None = Some None"
  proof -
    obtain v where v: "viable (hdr h) r (free_list h) None = Some v"
      "case v of None \<Rightarrow> True | Some (a, sz) \<Rightarrow> a \<in> set (free_list h) \<and> sz = frag_size (the (hdr h a)) \<and> r < sz"
      using viable_best [of "free_list h" "hdr h" r None] L by (auto split: option.splits prod.splits)
    then show ?thesis using assms(1,2) by (cases v) (auto simp: heap_ok_def not_less [symmetric])
  qed
  moreover obtain ret' where "mmap_for_xtrace K (round_up r BLOCK_SIZE_MULTIPLE) w = (ret', w')" "ret' = ret"
    using mmap_for_xtrace_eq [OF assms(6)] assms(7) by blast
  moreover have "take_fragment (unat ret + 16) r (new_block (unat ret) (round_up r BLOCK_SIZE_MULTIPLE - of_nat BLOCK_SIZE) h) = None"
    using page_overrun [OF assms(3-5)] by (simp add: take_fragment_def)
  ultimately show ?thesis using assms(3,7) by (simp add: xtrace_malloc_def allocate_fragment_def not_less)
qed

theorem xtrace_malloc_overrun_witness: "xtrace_malloc page_calls 4096 (empty_heap (\<lambda>_. 0)) () = None"
proof -
  have r: "round_up 4096 BLOCK_SIZE_MULTIPLE = 4096" by (simp add: round_up_def)
  show ?thesis
  proof (rule xtrace_malloc_overrun [OF empty_heap_ok(1)])
    show "mm_mmap page_calls 0 (round_up 4096 BLOCK_SIZE_MULTIPLE) 3 0x22 (- 1) 0 () = (0x10000, ())"
      by (simp add: page_calls_def r)
  qed (simp_all add: free_frags_def empty_heap_def fits_def)
qed

end
